(* ===== verification/Prelude.thy ===== *)
theory Prelude
  imports Main "HOL-Library.List_Lexorder" "HOL-Library.Char_ord" "HOL-Library.Word"
begin

text \<open>
  The shared base of the development: C++ strings and integers, and the outcome of a C++
  call.  A C++ \<open>std::string\<close>, a protobuf \<open>bytes\<close> field and the contents of a
  file are all a HOL \<open>string\<close> (one \<open>char\<close> per byte).  A C++ \<open>int\<close> is a HOL
  \<open>int\<close>; where the code converts a \<open>long\<close> to an \<open>int\<close> the conversion is
  written \<open>to_int32\<close>.  A call that changes state is a function from the state to an
  \<open>outcome\<close>: it returns a value, throws, blocks for ever on a condition variable or a
  socket, or has undefined behaviour.
\<close>

named_theorems cpp_simps \<open>equations that execute the combinators of a C++ call\<close>
named_theorems keeps_intros \<open>frame rules for the combinators of a C++ call\<close>

section \<open>Machine integers\<close>

definition to_int32 :: "int \<Rightarrow> int" where
  "to_int32 x = signed_take_bit 31 x"

lemma to_int32_id [simp]: "- (2 ^ 31) \<le> x \<Longrightarrow> x < 2 ^ 31 \<Longrightarrow> to_int32 x = x"
  unfolding to_int32_def by (rule signed_take_bit_int_eq_self) auto

lemma to_int32_idem [simp]: "to_int32 (to_int32 x) = to_int32 x"
  by (simp add: to_int32_def)

lemma to_int32_range: "- (2 ^ 31) \<le> to_int32 x \<and> to_int32 x < 2 ^ 31"
  unfolding to_int32_def
  using signed_take_bit_int_greater_eq_minus_exp [of 31 x] signed_take_bit_int_less_exp [of 31 x]
  by simp

lemma to_int32_shift: "to_int32 (x + k * 2 ^ 32) = to_int32 x"
  unfolding to_int32_def
  by (rule signed_take_bit_eq_iff_take_bit_eq [THEN iffD2]) (simp add: take_bit_eq_mod)

section \<open>Outcomes of C++ calls\<close>

datatype ub =
    UseAfterFree
  | UninitialisedPointer
  | OutOfBounds
  | IntegerOverflow
  | UninitialisedValue

datatype ('s, 'a) outcome =
    Returns 'a 's
  | Throws 's
  | Blocks 's
  | Undefined ub

type_synonym ('s, 'a) cpp = "'s \<Rightarrow> ('s, 'a) outcome"

definition retC :: "'a \<Rightarrow> ('s, 'a) cpp" where
  "retC x s = Returns x s"

definition bindC :: "('s, 'a) cpp \<Rightarrow> ('a \<Rightarrow> ('s, 'b) cpp) \<Rightarrow> ('s, 'b) cpp" where
  "bindC m f s =
     (case m s of
        Returns x t \<Rightarrow> f x t
      | Throws t \<Rightarrow> Throws t
      | Blocks t \<Rightarrow> Blocks t
      | Undefined u \<Rightarrow> Undefined u)"

definition seqC :: "('s, 'a) cpp \<Rightarrow> ('s, 'b) cpp \<Rightarrow> ('s, 'b) cpp" where
  "seqC m n = bindC m (\<lambda>_. n)"

definition getC :: "('s \<Rightarrow> 'a) \<Rightarrow> ('s, 'a) cpp" where
  "getC f s = Returns (f s) s"

definition modifyC :: "('s \<Rightarrow> 's) \<Rightarrow> ('s, unit) cpp" where
  "modifyC f s = Returns () (f s)"

definition throwC :: "('s, 'a) cpp" where
  "throwC s = Throws s"

definition blockC :: "('s, 'a) cpp" where
  "blockC s = Blocks s"

definition undefinedC :: "ub \<Rightarrow> ('s, 'a) cpp" where
  "undefinedC u s = Undefined u"

text \<open>\<open>if (b) m;\<close> as a statement, and \<open>try { m } catch (...) { h }\<close>.\<close>

definition whenC :: "bool \<Rightarrow> ('s, unit) cpp \<Rightarrow> ('s, unit) cpp" where
  "whenC b m = (if b then m else retC ())"

definition catchC :: "('s, 'a) cpp \<Rightarrow> ('s, 'a) cpp \<Rightarrow> ('s, 'a) cpp" where
  "catchC m h s = (case m s of Throws t \<Rightarrow> h t | r \<Rightarrow> r)"

text \<open>A range-based \<open>for\<close> over a list, with a body that may throw.\<close>

fun forC :: "'a list \<Rightarrow> ('a \<Rightarrow> ('s, unit) cpp) \<Rightarrow> ('s, unit) cpp" where
  "forC [] f = retC ()"
| "forC (x # xs) f = seqC (f x) (forC xs f)"

lemmas cpp_defs = retC_def bindC_def seqC_def getC_def modifyC_def throwC_def blockC_def
  undefinedC_def whenC_def catchC_def

lemma retC_simp [cpp_simps]: "retC x s = Returns x s"
  and getC_simp [cpp_simps]: "getC f s = Returns (f s) s"
  and modifyC_simp [cpp_simps]: "modifyC g s = Returns () (g s)"
  and throwC_simp [cpp_simps]: "throwC s = Throws s"
  and blockC_simp [cpp_simps]: "blockC s = Blocks s"
  and undefinedC_simp [cpp_simps]: "undefinedC u s = Undefined u"
  by (simp_all add: cpp_defs)

text \<open>
  The compound statements execute by a case distinction on how the first part ends; the
  branches are looked at only once that is known.
\<close>

lemma seqC_case:
  "seqC m n s =
     (case m s of
        Returns x t \<Rightarrow> n t
      | Throws t \<Rightarrow> Throws t
      | Blocks t \<Rightarrow> Blocks t
      | Undefined u \<Rightarrow> Undefined u)"
  by (simp add: seqC_def bindC_def)

lemmas compound_simps [cpp_simps] = bindC_def seqC_case catchC_def

lemma whenC_simps [cpp_simps]:
  "whenC b m s = (if b then m s else Returns () s)"
  by (simp add: whenC_def retC_def)

lemma bindC_Returns_iff:
  "bindC m f s = Returns y u \<longleftrightarrow> (\<exists>x t. m s = Returns x t \<and> f x t = Returns y u)"
  by (auto simp: bindC_def split: outcome.splits)

lemma seqC_Returns_iff:
  "seqC m n s = Returns y u \<longleftrightarrow> (\<exists>x t. m s = Returns x t \<and> n t = Returns y u)"
  by (auto simp: seqC_def bindC_Returns_iff)

text \<open>A loop whose body always returns is a fold.\<close>

lemma forC_Returns:
  assumes "\<And>x s. x \<in> set xs \<Longrightarrow> f x s = Returns () (g x s)"
  shows "forC xs f s = Returns () (fold g xs s)"
  using assms by (induction xs arbitrary: s) (simp_all add: cpp_simps)

section \<open>Frame conditions\<close>

text \<open>
  \<open>keeps R m\<close>: however \<open>m\<close> ends, unless its behaviour is undefined, the state before
  and the state after are related by \<open>R\<close>.
\<close>

definition keeps :: "('s \<Rightarrow> 's \<Rightarrow> bool) \<Rightarrow> ('s, 'a) cpp \<Rightarrow> bool" where
  "keeps R m \<longleftrightarrow>
     (\<forall>s. case m s of
        Returns x t \<Rightarrow> R s t
      | Throws t \<Rightarrow> R s t
      | Blocks t \<Rightarrow> R s t
      | Undefined u \<Rightarrow> True)"

lemma keepsI:
  assumes "\<And>s x t. m s = Returns x t \<Longrightarrow> R s t"
    and "\<And>s t. m s = Throws t \<Longrightarrow> R s t"
    and "\<And>s t. m s = Blocks t \<Longrightarrow> R s t"
  shows "keeps R m"
  using assms by (auto simp: keeps_def split: outcome.splits)

lemma keeps_Returns: "keeps R m \<Longrightarrow> m s = Returns x t \<Longrightarrow> R s t"
  and keeps_Throws: "keeps R m \<Longrightarrow> m s = Throws t \<Longrightarrow> R s t"
  and keeps_Blocks: "keeps R m \<Longrightarrow> m s = Blocks t \<Longrightarrow> R s t"
  by (auto simp: keeps_def split: outcome.splits)

lemma keeps_leaf [keeps_intros]:
  assumes "reflp R"
  shows "keeps R (retC x)" "keeps R (getC f)" "keeps R throwC" "keeps R blockC"
    "keeps R (undefinedC u)"
  using assms by (simp_all add: keeps_def cpp_simps reflpD)

lemma keeps_modify [keeps_intros]: "(\<And>s. R s (f s)) \<Longrightarrow> keeps R (modifyC f)"
  by (simp add: keeps_def cpp_simps)

lemma keeps_bind [keeps_intros]:
  assumes "transp R" "keeps R m" "\<And>x. keeps R (f x)"
  shows "keeps R (bindC m f)"
proof (rule keepsI)
  show "R s t" if "bindC m f s = Returns x t" for s x t
    using that assms
    by (auto simp: bindC_def split: outcome.splits dest: keeps_Returns intro: transpD)
  show "R s t" if "bindC m f s = Throws t" for s t
    using that assms
    by (auto simp: bindC_def split: outcome.splits
        dest: keeps_Returns keeps_Throws intro: transpD)
  show "R s t" if "bindC m f s = Blocks t" for s t
    using that assms
    by (auto simp: bindC_def split: outcome.splits
        dest: keeps_Returns keeps_Blocks intro: transpD)
qed

lemma keeps_seq [keeps_intros]:
  "transp R \<Longrightarrow> keeps R m \<Longrightarrow> keeps R n \<Longrightarrow> keeps R (seqC m n)"
  unfolding seqC_def by (rule keeps_bind)

lemma keeps_when [keeps_intros]:
  "reflp R \<Longrightarrow> (b \<Longrightarrow> keeps R m) \<Longrightarrow> keeps R (whenC b m)"
  by (simp add: whenC_def keeps_leaf)

lemma keeps_if [keeps_intros]:
  "(b \<Longrightarrow> keeps R m) \<Longrightarrow> (\<not> b \<Longrightarrow> keeps R n) \<Longrightarrow> keeps R (if b then m else n)"
  by simp

lemma keeps_catch [keeps_intros]:
  assumes "transp R" "keeps R m" "keeps R h"
  shows "keeps R (catchC m h)"
  using assms
  by (fastforce simp: keeps_def catchC_def split: outcome.splits dest: transpD)

lemma keeps_for [keeps_intros]:
  assumes "reflp R" "transp R" "\<And>x. keeps R (f x)"
  shows "keeps R (forC xs f)"
  using assms by (induction xs) (simp_all add: keeps_leaf keeps_seq)

text \<open>Equality of a projection is the relation most frame conditions use.\<close>

definition same :: "('s \<Rightarrow> 'b) \<Rightarrow> 's \<Rightarrow> 's \<Rightarrow> bool" where
  "same p s t \<longleftrightarrow> p t = p s"

lemma reflp_same [keeps_intros, simp]: "reflp (same p)"
  by (simp add: reflp_def same_def)

lemma transp_same [keeps_intros, simp]: "transp (same p)"
  by (simp add: transp_def same_def)

section \<open>Safe runs\<close>

text \<open>
  \<open>runs P m s\<close>: from \<open>s\<close> the call \<open>m\<close> throws nothing and has no undefined behaviour but the
  overflow of a counter, and if it returns, \<open>P\<close> holds of its value and the state.
\<close>

definition runs :: "('a \<Rightarrow> 's \<Rightarrow> bool) \<Rightarrow> ('s, 'a) cpp \<Rightarrow> 's \<Rightarrow> bool" where
  "runs P m s \<longleftrightarrow>
     (case m s of
        Returns x t \<Rightarrow> P x t
      | Throws t \<Rightarrow> False
      | Blocks t \<Rightarrow> True
      | Undefined u \<Rightarrow> u = IntegerOverflow)"

lemma runs_bind: "runs (\<lambda>x t. runs P (f x) t) m s \<Longrightarrow> runs P (bindC m f) s"
  by (auto simp: runs_def bindC_def split: outcome.splits)

lemma runs_seq: "runs (\<lambda>x t. runs P n t) m s \<Longrightarrow> runs P (seqC m n) s"
  by (simp add: seqC_def runs_bind)

lemma runs_leaf:
  "P x s \<Longrightarrow> runs P (retC x) s" "P (f s) s \<Longrightarrow> runs P (getC f) s" "Q () (g s) \<Longrightarrow> runs Q (modifyC g) s"
  "runs P blockC s"
  by (simp_all add: runs_def cpp_simps)

lemma runs_mono: "runs P m s \<Longrightarrow> (\<And>x t. P x t \<Longrightarrow> Q x t) \<Longrightarrow> runs Q m s"
  by (auto simp: runs_def split: outcome.splits)

lemma runs_result: "runs (\<lambda>x t. True) m s \<Longrightarrow> (\<And>x t. m s = Returns x t \<Longrightarrow> P x t) \<Longrightarrow> runs P m s"
  by (auto simp: runs_def split: outcome.splits)

text \<open>\<open>ends P m s\<close>: the call returns, and \<open>P\<close> holds of its value and the state.\<close>

definition ends :: "('a \<Rightarrow> 's \<Rightarrow> bool) \<Rightarrow> ('s, 'a) cpp \<Rightarrow> 's \<Rightarrow> bool" where
  "ends P m s \<longleftrightarrow> (\<exists>x t. m s = Returns x t \<and> P x t)"

lemma ends_bind: "ends (\<lambda>x t. ends P (f x) t) m s \<Longrightarrow> ends P (bindC m f) s"
  by (auto simp: ends_def bindC_def)

lemma ends_seq: "ends (\<lambda>x t. ends P n t) m s \<Longrightarrow> ends P (seqC m n) s"
  by (simp add: seqC_def ends_bind)

lemma ends_leaf:
  "P x s \<Longrightarrow> ends P (retC x) s" "P (f s) s \<Longrightarrow> ends P (getC f) s" "Q () (g s) \<Longrightarrow> ends Q (modifyC g) s"
  by (simp_all add: ends_def cpp_simps)

lemma ends_mono: "ends P m s \<Longrightarrow> (\<And>x t. P x t \<Longrightarrow> Q x t) \<Longrightarrow> ends Q m s"
  by (auto simp: ends_def)

lemma ends_for:
  assumes "\<And>x s. x \<in> set xs \<Longrightarrow> I s \<Longrightarrow> ends (\<lambda>_. I) (f x) s" "I s"
  shows "ends (\<lambda>_. I) (forC xs f) s"
  using assms
proof (induction xs arbitrary: s)
  case Nil
  then show ?case by (simp add: ends_leaf)
next
  case (Cons x xs)
  have "ends (\<lambda>_. I) (f x) s" using Cons.prems by simp
  then show ?case
    unfolding forC.simps by (intro ends_seq) (rule ends_mono, assumption, rule Cons.IH, simp_all add: Cons.prems)
qed

section \<open>Decimal printing and parsing of integers\<close>

text \<open>\<open>ostream << int\<close>, \<open>istream >> int\<close> and \<open>istream >> std::string\<close>.\<close>

definition digit_char :: "nat \<Rightarrow> char" where
  "digit_char d = char_of (48 + d)"

definition is_digit :: "char \<Rightarrow> bool" where
  "is_digit c \<longleftrightarrow> 48 \<le> (of_char c :: nat) \<and> (of_char c :: nat) \<le> 57"

definition digit_val :: "char \<Rightarrow> nat" where
  "digit_val c = of_char c - 48"

fun show_nat :: "nat \<Rightarrow> string" where
  "show_nat n = (if n < 10 then [digit_char n] else show_nat (n div 10) @ [digit_char (n mod 10)])"

declare show_nat.simps [simp del]

definition show_int :: "int \<Rightarrow> string" where
  "show_int i = (if i < 0 then CHR ''-'' # show_nat (nat (- i)) else show_nat (nat i))"

definition is_space :: "char \<Rightarrow> bool" where
  "is_space c \<longleftrightarrow> (of_char c :: nat) = 32 \<or> (9 \<le> (of_char c :: nat) \<and> (of_char c :: nat) \<le> 13)"

definition read_word :: "string \<Rightarrow> string" where
  "read_word s = takeWhile (\<lambda>c. \<not> is_space c) (dropWhile is_space s)"

definition digits_val :: "string \<Rightarrow> nat" where
  "digits_val ds = foldl (\<lambda>a c. 10 * a + digit_val c) 0 ds"

text \<open>
  \<open>istream >> int\<close> skips blanks, reads an optional sign and the digits that follow, and
  stores 0 when there is no digit and the nearest bound when the number does not fit.
\<close>

definition clamp32 :: "int \<Rightarrow> int" where
  "clamp32 x = max (- (2 ^ 31)) (min (2 ^ 31 - 1) x)"

definition read_int :: "string \<Rightarrow> int" where
  "read_int s =
     (case dropWhile is_space s of
        [] \<Rightarrow> 0
      | c # cs \<Rightarrow>
          if c = CHR ''-'' then clamp32 (- int (digits_val (takeWhile is_digit cs)))
          else if c = CHR ''+'' then clamp32 (int (digits_val (takeWhile is_digit cs)))
          else clamp32 (int (digits_val (takeWhile is_digit (c # cs)))))"

lemma of_char_digit: "d < 10 \<Longrightarrow> (of_char (digit_char d) :: nat) = 48 + d"
  by (simp add: digit_char_def of_char_of)

lemma digit_char_props:
  assumes "d < 10"
  shows "is_digit (digit_char d)" "digit_val (digit_char d) = d"
    "\<not> is_space (digit_char d)" "digit_char d \<noteq> CHR ''-''" "digit_char d \<noteq> CHR ''+''"
    "digit_char d \<noteq> CHR ''~''" "digit_char d \<noteq> CHR ''/''"
proof -
  show "is_digit (digit_char d)" "digit_val (digit_char d) = d" "\<not> is_space (digit_char d)"
    using assms by (simp_all add: is_digit_def digit_val_def is_space_def of_char_digit)
  have "(of_char (digit_char d) :: nat) \<noteq> of_char c" if "of_char c < (48 :: nat) \<or> 57 < (of_char c :: nat)" for c
    using assms that by (auto simp: of_char_digit)
  from this [of "CHR ''-''"] this [of "CHR ''+''"] this [of "CHR ''~''"] this [of "CHR ''/''"]
  show "digit_char d \<noteq> CHR ''-''" "digit_char d \<noteq> CHR ''+''" "digit_char d \<noteq> CHR ''~''" "digit_char d \<noteq> CHR ''/''"
    by auto
qed

lemma show_nat_digits: "c \<in> set (show_nat n) \<Longrightarrow> \<exists>d<10. c = digit_char d"
proof (induction n rule: show_nat.induct)
  case (1 n)
  show ?case
  proof (cases "n < 10")
    case True
    with "1.prems" show ?thesis by (auto simp: show_nat.simps [of n])
  next
    case False
    then have "c \<in> set (show_nat (n div 10)) \<or> c = digit_char (n mod 10)"
      using "1.prems" by (auto simp: show_nat.simps [of n])
    moreover have "n mod 10 < 10" by simp
    ultimately show ?thesis using "1.IH" False by blast
  qed
qed

lemma show_nat_not_Nil [simp]: "show_nat n \<noteq> []"
  by (subst show_nat.simps) simp

lemma digits_val_snoc: "digits_val (ds @ [c]) = 10 * digits_val ds + digit_val c"
  by (simp add: digits_val_def)

lemma digits_val_show_nat: "digits_val (show_nat n) = n"
proof (induction n rule: show_nat.induct)
  case (1 n)
  show ?case
  proof (cases "n < 10")
    case True
    then show ?thesis
      by (simp add: show_nat.simps [of n] digits_val_def digit_char_props)
  next
    case False
    with "1" have "digits_val (show_nat (n div 10)) = n div 10" by simp
    with False show ?thesis
      by (simp add: show_nat.simps [of n] digits_val_snoc digit_char_props)
  qed
qed

lemma takeWhile_show_nat: "takeWhile is_digit (show_nat n) = show_nat n"
  by (auto simp: takeWhile_eq_all_conv digit_char_props dest!: show_nat_digits)

theorem read_show_int:
  assumes "- (2 ^ 31) \<le> i" "i < 2 ^ 31"
  shows "read_int (show_int i) = i"
proof (cases "i < 0")
  case True
  have "\<not> is_space (CHR ''-'')" by (simp add: is_space_def)
  with True assms show ?thesis
    by (simp add: show_int_def read_int_def takeWhile_show_nat digits_val_show_nat clamp32_def)
next
  case False
  obtain c cs where s: "show_nat (nat i) = c # cs"
    by (cases "show_nat (nat i)") auto
  then obtain d where "d < 10" "c = digit_char d"
    using show_nat_digits [of c "nat i"] by auto
  then have c: "\<not> is_space c" "c \<noteq> CHR ''-''" "c \<noteq> CHR ''+''"
    by (simp_all add: digit_char_props)
  have "takeWhile is_digit (c # cs) = c # cs"
    using takeWhile_show_nat [of "nat i"] s by simp
  moreover have "digits_val (c # cs) = nat i"
    using digits_val_show_nat [of "nat i"] s by simp
  ultimately show ?thesis
    using False assms c s
    by (simp add: show_int_def read_int_def clamp32_def takeWhile_show_nat [of "nat i", unfolded s]
        del: takeWhile.simps takeWhile_eq_all_conv)
qed

section \<open>Values in memory\<close>

text \<open>The bytes of an unsigned value in memory order; the machine is little-endian.\<close>

fun le_bytes :: "nat \<Rightarrow> nat \<Rightarrow> nat list" where
  "le_bytes 0 n = []"
| "le_bytes (Suc k) n = n mod 256 # le_bytes k (n div 256)"

fun le_value :: "nat list \<Rightarrow> nat" where
  "le_value [] = 0"
| "le_value (b # bs) = b + 256 * le_value bs"

lemma le_bytes_numeral [simp]:
  "le_bytes (numeral k) n = n mod 256 # le_bytes (pred_numeral k) (n div 256)"
  unfolding numeral_eq_Suc [of k] by simp

lemma length_le_bytes [simp]: "length (le_bytes k n) = k"
  by (induction k arbitrary: n) auto

lemma le_bytes_small: "b \<in> set (le_bytes k n) \<Longrightarrow> b < 256"
  by (induction k arbitrary: n) auto

lemma le_value_le_bytes: "le_value (le_bytes k n) = n mod 256 ^ k"
  by (induction k arbitrary: n) (simp_all add: mod_mult2_eq)

text \<open>The object representation of a 64-bit integer, as the \<open>memcpy\<close> of the code sees it.\<close>

definition bytes_of :: "64 word \<Rightarrow> nat list" where
  "bytes_of w = le_bytes 8 (unat w)"

definition word_of_bytes :: "nat list \<Rightarrow> 64 word" where
  "word_of_bytes bs = word_of_nat (le_value bs)"

lemma word_of_bytes_bytes_of [simp]: "word_of_bytes (bytes_of w) = w"
proof -
  have "unat w < 256 ^ 8" using unsigned_less [of w, where 'a = nat] by simp
  then show ?thesis by (simp add: word_of_bytes_def bytes_of_def le_value_le_bytes)
qed

lemma bytes_of_inject: "bytes_of v = bytes_of w \<longleftrightarrow> v = w"
  by (metis word_of_bytes_bytes_of)

lemma length_bytes_of [simp]: "length (bytes_of w) = 8"
  by (simp add: bytes_of_def)

lemma bytes_of_small: "b \<in> set (bytes_of w) \<Longrightarrow> b < 256"
  by (auto simp: bytes_of_def dest: le_bytes_small)

text \<open>Concatenations of blocks of one length determine the blocks.\<close>

lemma concat_map_inject:
  assumes "\<forall>x \<in> set xs \<union> set ys. length (f x) = n" "inj_on f (set xs \<union> set ys)"
    and "length xs = length ys" "concat (map f xs) = concat (map f ys)"
  shows "xs = ys"
proof -
  have "length (map f xs) = length (map f ys)"
    using assms(3) by simp
  moreover have "\<forall>(u, v) \<in> set (zip (map f xs) (map f ys)). length u = length v"
    using assms(1) by (auto simp: set_zip)
  ultimately have "map f xs = map f ys"
    using assms(4) by (simp add: concat_eq_concat_iff)
  then show ?thesis using assms(2) by (rule map_inj_on)
qed

end
