(* ===== verification/Std_Map.thy ===== *)
theory Std_Map
  imports Prelude
begin

text \<open>
  The part of \<open>std::map\<close> that the server uses: \<open>find\<close>/\<open>count\<close>/\<open>at\<close>,
  \<open>emplace\<close>, assignment through \<open>at\<close> or \<open>operator[]\<close>, \<open>erase\<close> and
  iteration in key order.  A map is the list of its entries with strictly increasing keys.
  The interface is the locale \<open>std_map\<close>; the interpretation \<open>sm\<close> discharges it for the
  sorted list.
\<close>

type_synonym ('k, 'v) smap = "('k \<times> 'v) list"

abbreviation sm_empty :: "('k, 'v) smap" where
  "sm_empty \<equiv> []"

definition sm_find :: "('k, 'v) smap \<Rightarrow> 'k \<Rightarrow> 'v option" where
  "sm_find m k = map_of m k"

definition sm_count :: "('k, 'v) smap \<Rightarrow> 'k \<Rightarrow> nat" where
  "sm_count m k = (case sm_find m k of None \<Rightarrow> 0 | Some _ \<Rightarrow> 1)"

text \<open>\<open>emplace\<close> does nothing when the key is present.\<close>

fun sm_emplace :: "'k::linorder \<Rightarrow> 'v \<Rightarrow> ('k, 'v) smap \<Rightarrow> ('k, 'v) smap" where
  "sm_emplace k v [] = [(k, v)]"
| "sm_emplace k v ((a, b) # m) =
     (if k < a then (k, v) # (a, b) # m
      else if k = a then (a, b) # m
      else (a, b) # sm_emplace k v m)"

fun sm_assign :: "'k::linorder \<Rightarrow> 'v \<Rightarrow> ('k, 'v) smap \<Rightarrow> ('k, 'v) smap" where
  "sm_assign k v [] = [(k, v)]"
| "sm_assign k v ((a, b) # m) =
     (if k < a then (k, v) # (a, b) # m
      else if k = a then (k, v) # m
      else (a, b) # sm_assign k v m)"

definition sm_erase :: "'k \<Rightarrow> ('k, 'v) smap \<Rightarrow> ('k, 'v) smap" where
  "sm_erase k m = filter (\<lambda>e. fst e \<noteq> k) m"

definition sm_inv :: "('k::linorder, 'v) smap \<Rightarrow> bool" where
  "sm_inv m \<longleftrightarrow> sorted_wrt (<) (map fst m)"

section \<open>The interface\<close>

locale std_map =
  fixes find :: "'m \<Rightarrow> 'k \<Rightarrow> 'v option"
    and emplace :: "'k \<Rightarrow> 'v \<Rightarrow> 'm \<Rightarrow> 'm"
    and assign :: "'k \<Rightarrow> 'v \<Rightarrow> 'm \<Rightarrow> 'm"
    and erase :: "'k \<Rightarrow> 'm \<Rightarrow> 'm"
    and entries :: "'m \<Rightarrow> ('k \<times> 'v) list"
    and inv :: "'m \<Rightarrow> bool"
    and none :: "'m"
  assumes find_none: "find none k = None"
    and find_emplace: "inv m \<Longrightarrow> find (emplace k v m) j =
          (if j = k \<and> find m k = None then Some v else find m j)"
    and find_assign: "inv m \<Longrightarrow> find (assign k v m) j = (if j = k then Some v else find m j)"
    and find_erase: "find (erase k m) j = (if j = k then None else find m j)"
    and inv_none: "inv none"
    and inv_emplace: "inv m \<Longrightarrow> inv (emplace k v m)"
    and inv_assign: "inv m \<Longrightarrow> inv (assign k v m)"
    and inv_erase: "inv m \<Longrightarrow> inv (erase k m)"
    and distinct_entries: "inv m \<Longrightarrow> distinct (map fst (entries m))"
    and entries_find: "inv m \<Longrightarrow> (k, v) \<in> set (entries m) \<longleftrightarrow> find m k = Some v"
    and entries_inject: "inv m \<Longrightarrow> inv n \<Longrightarrow> (\<And>k. find m k = find n k) \<Longrightarrow> m = n"
begin

lemma find_emplace_same: "inv m \<Longrightarrow> find m k = None \<Longrightarrow> find (emplace k v m) k = Some v"
  by (simp add: find_emplace)

lemma emplace_keeps: "inv m \<Longrightarrow> find m j = Some w \<Longrightarrow> find (emplace k v m) j = Some w"
  by (auto simp: find_emplace)

lemma emplace_present: "inv m \<Longrightarrow> find m k = Some w \<Longrightarrow> emplace k v m = m"
  by (rule entries_inject) (auto simp: inv_emplace find_emplace)

lemma emplace_absent: "inv m \<Longrightarrow> find m k = None \<Longrightarrow> emplace k v m = assign k v m"
  by (rule entries_inject) (auto simp: inv_emplace inv_assign find_emplace find_assign)

lemma erase_absent: "inv m \<Longrightarrow> find m k = None \<Longrightarrow> erase k m = m"
  by (rule entries_inject) (auto simp: inv_erase find_erase)

lemma erase_emplace: "inv m \<Longrightarrow> find m k = None \<Longrightarrow> erase k (emplace k v m) = m"
  by (rule entries_inject) (auto simp: inv_erase inv_emplace find_erase find_emplace)

lemma assign_assign: "inv m \<Longrightarrow> assign k v (assign k w m) = assign k v m"
  by (rule entries_inject) (auto simp: inv_assign find_assign)

lemma set_keys: "inv m \<Longrightarrow> k \<in> fst ` set (entries m) \<longleftrightarrow> find m k \<noteq> None"
  using entries_find by force

text \<open>A loop that collects the entries with a property sees each such key once.\<close>

lemma filtered_keys:
  assumes "inv m"
  shows "set (map fst (filter P (entries m))) = {k. \<exists>v. find m k = Some v \<and> P (k, v)}"
    and "distinct (map fst (filter P (entries m)))"
  using assms distinct_entries [of m]
  by (force simp: entries_find [symmetric], simp add: distinct_map_filter)

end

section \<open>The sorted list provides the interface\<close>

lemma sm_find_Nil [simp]: "sm_find [] k = None"
  by (simp add: sm_find_def)

lemma sm_find_Cons: "sm_find ((a, b) # m) k = (if k = a then Some b else sm_find m k)"
  by (simp add: sm_find_def)

lemma sm_find_above: "sorted_wrt (<) ((k :: 'k::linorder) # map fst m) \<Longrightarrow> sm_find m k = None"
  by (induction m) (auto simp: sm_find_Cons)

lemma sm_find_sm_emplace:
  "sm_inv m \<Longrightarrow> sm_find (sm_emplace k v m) j =
     (if j = k \<and> sm_find m k = None then Some v else sm_find m j)"
proof (induction k v m rule: sm_emplace.induct)
  case (1 k v)
  then show ?case by (simp add: sm_find_Cons)
next
  case (2 k v a b m)
  have "k < a \<Longrightarrow> sm_find ((a, b) # m) k = None"
    using "2.prems" by (intro sm_find_above) (auto simp: sm_inv_def intro: less_trans)
  with 2 show ?case by (auto simp: sm_find_Cons sm_inv_def)
qed

lemma sm_find_sm_assign:
  "sm_inv m \<Longrightarrow> sm_find (sm_assign k v m) j = (if j = k then Some v else sm_find m j)"
  by (induction k v m rule: sm_assign.induct) (auto simp: sm_find_Cons sm_inv_def)

lemma sm_find_sm_erase: "sm_find (sm_erase k m) j = (if j = k then None else sm_find m j)"
  by (induction m) (auto simp: sm_find_Cons sm_erase_def)

lemma set_sm_emplace: "fst ` set (sm_emplace k v m) = insert k (fst ` set m)"
  by (induction k v m rule: sm_emplace.induct) auto

lemma set_sm_assign: "fst ` set (sm_assign k v m) = insert k (fst ` set m)"
  by (induction k v m rule: sm_assign.induct) auto

lemma sm_inv_Cons: "sm_inv ((a, b) # m) \<longleftrightarrow> (\<forall>x \<in> fst ` set m. a < x) \<and> sm_inv m"
  by (simp add: sm_inv_def)

lemma sm_inv_sm_emplace: "sm_inv m \<Longrightarrow> sm_inv (sm_emplace k v m)"
proof (induction k v m rule: sm_emplace.induct)
  case (1 k v)
  show ?case by (simp add: sm_inv_def)
next
  case (2 k v a b m)
  then show ?case by (auto simp: sm_inv_Cons set_sm_emplace simp del: image_iff)
qed

lemma sm_inv_sm_assign: "sm_inv m \<Longrightarrow> sm_inv (sm_assign k v m)"
proof (induction k v m rule: sm_assign.induct)
  case (1 k v)
  show ?case by (simp add: sm_inv_def)
next
  case (2 k v a b m)
  then show ?case by (auto simp: sm_inv_Cons set_sm_assign simp del: image_iff)
qed

lemma sm_inv_sm_erase: "sm_inv m \<Longrightarrow> sm_inv (sm_erase k m)"
  by (induction m) (auto simp: sm_inv_Cons sm_erase_def)

lemma sm_inv_distinct: "sm_inv m \<Longrightarrow> distinct (map fst m)"
  by (induction m) (fastforce simp: sm_inv_Cons)+

lemma sm_entries_find: "sm_inv m \<Longrightarrow> (k, v) \<in> set m \<longleftrightarrow> sm_find m k = Some v"
  unfolding sm_find_def by (rule map_of_eq_Some_iff [symmetric]) (rule sm_inv_distinct)

lemma sm_entries_inject:
  assumes "sm_inv m" "sm_inv n" "\<And>k. sm_find m k = sm_find n k"
  shows "m = n"
proof -
  have "set m = set n"
    using assms by (auto simp: sm_entries_find)
  moreover have "sorted (map fst m)" "sorted (map fst n)"
    using assms(1,2) by (auto simp: sm_inv_def intro: strict_sorted_imp_sorted)
  ultimately show ?thesis
    using assms(1,2) by (intro map_sorted_distinct_set_unique [of fst])
      (auto dest: sm_inv_distinct simp: inj_on_def sm_entries_find)
qed

lemma sm_inv_Nil [simp]: "sm_inv []"
  by (simp add: sm_inv_def)

interpretation sm: std_map sm_find sm_emplace sm_assign sm_erase "\<lambda>m. m" sm_inv sm_empty
  by unfold_locales
    (simp_all add: sm_find_sm_emplace sm_find_sm_assign sm_find_sm_erase sm_inv_sm_emplace
      sm_inv_sm_assign sm_inv_sm_erase sm_inv_distinct sm_entries_find sm_entries_inject)

lemmas sm_laws [simp] = sm_find_sm_emplace sm_find_sm_assign sm_find_sm_erase
  sm_inv_sm_emplace sm_inv_sm_assign sm_inv_sm_erase

lemma sm_inv_single [simp]: "sm_inv [(k, v)]"
  by (simp add: sm_inv_def)

lemma sm_values: "sm_inv m \<Longrightarrow> v \<in> snd ` set m \<longleftrightarrow> (\<exists>k. sm_find m k = Some v)"
  by (auto simp: image_iff Bex_def sm_entries_find)

lemma sm_ball: "sm_inv m \<Longrightarrow> (\<forall>(k, v) \<in> set m. P k v) \<longleftrightarrow> (\<forall>k v. sm_find m k = Some v \<longrightarrow> P k v)"
  by (auto simp: Ball_def sm_entries_find)

lemma sm_count_zero [simp]: "sm_count m k = 0 \<longleftrightarrow> sm_find m k = None"
  by (simp add: sm_count_def split: option.splits)

end
