(* ===== verification/Filesystem.thy ===== *)
theory Filesystem
  imports Std_Map "HOL-Library.Sublist"
begin

text \<open>
  The part of POSIX and \<open>std::filesystem\<close> that the server relies on: directories and
  plain files under one root, without links.  A disk is the map from the absolute path of
  each entry, a list of names, to a directory or to the contents of a file; the root
  itself is not an entry.  Every operation that reports an error by an exception returns
  an option, \<open>None\<close> for the exception; writing through an \<open>ofstream\<close> that did not open
  is silent, as in the library.  Permissions, full disks and concurrent processes are not
  modelled.
\<close>

type_synonym path = "string list"

datatype node = Dir | File string

type_synonym disk = "(path, node) smap"

section \<open>Paths\<close>

text \<open>The path a string names: split at \<open>/\<close>, with empty names, \<open>.\<close> and \<open>..\<close> resolved.\<close>

fun split_slash :: "string \<Rightarrow> string list" where
  "split_slash [] = [[]]"
| "split_slash (c # cs) =
     (if c = CHR ''/'' then [] # split_slash cs
      else (case split_slash cs of [] \<Rightarrow> [[c]] | w # ws \<Rightarrow> (c # w) # ws))"

definition push_name :: "string \<Rightarrow> path \<Rightarrow> path" where
  "push_name w p =
     (if w = [] \<or> w = ''.'' then p
      else if w = ''..'' then butlast p
      else p @ [w])"

definition resolve :: "string \<Rightarrow> path" where
  "resolve s = fold push_name (split_slash s) []"

text \<open>A string that names one entry of a directory.\<close>

definition plain_name :: "string \<Rightarrow> bool" where
  "plain_name w \<longleftrightarrow> w \<noteq> [] \<and> w \<noteq> ''.'' \<and> w \<noteq> ''..'' \<and> CHR ''/'' \<notin> set w"

lemma split_slash_not_Nil [simp]: "split_slash s \<noteq> []"
  by (cases s) (auto split: list.splits)

lemma split_slash_plain: "CHR ''/'' \<notin> set w \<Longrightarrow> split_slash w = [w]"
  by (induction w) auto

lemma split_slash_append: "split_slash (s @ CHR ''/'' # t) = split_slash s @ split_slash t"
proof (induction s)
  case Nil
  show ?case by simp
next
  case (Cons c s)
  then show ?case by (cases "split_slash s") auto
qed

lemma resolve_append: "resolve (s @ CHR ''/'' # t) = fold push_name (split_slash t) (resolve s)"
  by (simp add: resolve_def split_slash_append)

lemma resolve_append_plain:
  "plain_name w \<Longrightarrow> resolve (s @ CHR ''/'' # w) = resolve s @ [w]"
  by (simp add: resolve_append split_slash_plain plain_name_def push_name_def)

lemma plain_name_temp: "plain_name w \<Longrightarrow> plain_name (w @ ''~'')"
  by (cases w) (auto simp: plain_name_def)

section \<open>Queries\<close>

definition fs_lookup :: "disk \<Rightarrow> path \<Rightarrow> node option" where
  "fs_lookup d p = (if p = [] then Some Dir else sm_find d p)"

definition fs_exists :: "disk \<Rightarrow> path \<Rightarrow> bool" where
  "fs_exists d p \<longleftrightarrow> fs_lookup d p \<noteq> None"

definition fs_is_directory :: "disk \<Rightarrow> path \<Rightarrow> bool" where
  "fs_is_directory d p \<longleftrightarrow> fs_lookup d p = Some Dir"

text \<open>
  \<open>directory_iterator\<close>: the names in a directory.  The library leaves their order open;
  the model uses the order of the names.
\<close>

definition fs_children :: "disk \<Rightarrow> path \<Rightarrow> string list" where
  "fs_children d p = map (last \<circ> fst) (filter (\<lambda>e. fst e \<noteq> [] \<and> butlast (fst e) = p) d)"

text \<open>The contents an \<open>ifstream\<close> gives: empty when the file cannot be opened.\<close>

definition fs_read :: "disk \<Rightarrow> path \<Rightarrow> string" where
  "fs_read d p = (case fs_lookup d p of Some (File c) \<Rightarrow> c | _ \<Rightarrow> [])"

section \<open>Operations\<close>

text \<open>\<open>ofstream f(p); f << c;\<close>\<close>

definition fs_write :: "path \<Rightarrow> string \<Rightarrow> disk \<Rightarrow> disk" where
  "fs_write p c d =
     (if p \<noteq> [] \<and> fs_is_directory d (butlast p) \<and> fs_lookup d p \<noteq> Some Dir
      then sm_assign p (File c) d else d)"

definition fs_create_directory :: "path \<Rightarrow> disk \<Rightarrow> disk option" where
  "fs_create_directory p d =
     (case fs_lookup d p of
        Some Dir \<Rightarrow> Some d
      | Some (File _) \<Rightarrow> None
      | None \<Rightarrow> if fs_is_directory d (butlast p) then Some (sm_assign p Dir d) else None)"

text \<open>\<open>remove\<close> deletes a file or an empty directory; a missing path is no error.\<close>

definition fs_remove :: "path \<Rightarrow> disk \<Rightarrow> disk option" where
  "fs_remove p d =
     (case fs_lookup d p of
        None \<Rightarrow> Some d
      | Some (File _) \<Rightarrow> Some (sm_erase p d)
      | Some Dir \<Rightarrow> if p \<noteq> [] \<and> fs_children d p = [] then Some (sm_erase p d) else None)"

definition fs_remove_all :: "path \<Rightarrow> disk \<Rightarrow> disk" where
  "fs_remove_all p d = filter (\<lambda>e. \<not> prefix p (fst e)) d"

text \<open>
  \<open>rename\<close>: the source must exist, the target's directory must exist, a file may replace
  a file, a directory may replace an empty directory, and a directory cannot move into
  itself.
\<close>

definition fs_can_rename :: "path \<Rightarrow> path \<Rightarrow> disk \<Rightarrow> bool" where
  "fs_can_rename p q d \<longleftrightarrow>
     p \<noteq> [] \<and> q \<noteq> [] \<and> fs_is_directory d (butlast q) \<and> \<not> strict_prefix p q \<and>
     (case (fs_lookup d p, fs_lookup d q) of
        (None, _) \<Rightarrow> False
      | (Some _, None) \<Rightarrow> True
      | (Some (File _), Some (File _)) \<Rightarrow> True
      | (Some Dir, Some Dir) \<Rightarrow> p = q \<or> fs_children d q = []
      | _ \<Rightarrow> False)"

definition fs_rename :: "path \<Rightarrow> path \<Rightarrow> disk \<Rightarrow> disk option" where
  "fs_rename p q d =
     (if fs_can_rename p q d then
        (if p = q then Some d
         else Some (fold (\<lambda>(r, n). sm_assign (q @ drop (length p) r) n)
                (filter (\<lambda>e. prefix p (fst e)) d)
                (filter (\<lambda>e. \<not> prefix p (fst e) \<and> fst e \<noteq> q) d)))
      else None)"

section \<open>Well-formed disks\<close>

text \<open>Every entry lies in a directory of the disk.\<close>

definition fs_wf :: "disk \<Rightarrow> bool" where
  "fs_wf d \<longleftrightarrow> sm_inv d \<and> sm_find d [] = None \<and>
     (\<forall>p. fs_lookup d p \<noteq> None \<longrightarrow> p \<noteq> [] \<longrightarrow> fs_is_directory d (butlast p))"

lemma fs_wf_inv [simp]: "fs_wf d \<Longrightarrow> sm_inv d"
  by (simp add: fs_wf_def)

lemma fs_wf_parent: "fs_wf d \<Longrightarrow> fs_lookup d p = Some n \<Longrightarrow> p \<noteq> [] \<Longrightarrow> fs_lookup d (butlast p) = Some Dir"
  by (simp add: fs_wf_def fs_is_directory_def)

lemma fs_wf_ancestor:
  "fs_wf d \<Longrightarrow> fs_lookup d (p @ s) \<noteq> None \<Longrightarrow> s \<noteq> [] \<Longrightarrow> fs_lookup d p = Some Dir"
proof (induction s rule: rev_induct)
  case Nil
  then show ?case by simp
next
  case (snoc w s)
  then have "fs_lookup d (p @ s) = Some Dir"
    using fs_wf_parent [of d "p @ s @ [w]"] by (auto simp: butlast_append)
  with snoc show ?case by (cases "s = []") auto
qed

lemma fs_wf_only_dir:
  assumes "fs_wf d" "fs_lookup d p \<noteq> Some Dir" "s \<noteq> []"
  shows "fs_lookup d (p @ s) = None"
  using fs_wf_ancestor [OF assms(1) _ assms(3)] assms(2) by blast

lemma fs_wf_below_file:
  "fs_wf d \<Longrightarrow> fs_lookup d p = Some (File c) \<Longrightarrow> prefix p r \<Longrightarrow> fs_lookup d r \<noteq> None \<Longrightarrow> r = p"
  by (auto simp: prefix_def dest: fs_wf_ancestor)

lemma fs_lookup_Nil [simp]: "fs_lookup d [] = Some Dir"
  by (simp add: fs_lookup_def)

lemma fs_children_iff:
  assumes "sm_inv d"
  shows "w \<in> set (fs_children d p) \<longleftrightarrow> fs_lookup d (p @ [w]) \<noteq> None"
proof
  assume "w \<in> set (fs_children d p)"
  then obtain r n where "(r, n) \<in> set d" "r \<noteq> []" "butlast r = p" "w = last r"
    by (auto simp: fs_children_def)
  then show "fs_lookup d (p @ [w]) \<noteq> None"
    using assms by (auto simp: fs_lookup_def sm_entries_find)
next
  assume "fs_lookup d (p @ [w]) \<noteq> None"
  then obtain n where "(p @ [w], n) \<in> set d"
    using assms by (auto simp: fs_lookup_def sm_entries_find)
  then show "w \<in> set (fs_children d p)"
    by (force simp: fs_children_def)
qed

lemma fs_children_empty:
  assumes "fs_wf d" "fs_children d p = []" "s \<noteq> []"
  shows "fs_lookup d (p @ s) = None"
proof (rule ccontr)
  assume s: "fs_lookup d (p @ s) \<noteq> None"
  obtain w t where "s = w # t" using assms(3) by (cases s) auto
  with s have "fs_lookup d ((p @ [w]) @ t) \<noteq> None" by simp
  then have "fs_lookup d (p @ [w]) \<noteq> None"
    using fs_wf_ancestor [OF assms(1), of "p @ [w]" t] by (cases "t = []") auto
  then have "w \<in> set (fs_children d p)"
    using assms(1) by (simp only: fs_children_iff fs_wf_inv not_False_eq_True)
  with assms(2) show False by simp
qed

section \<open>What the operations do to the entries\<close>

lemma fs_lookup_write:
  "sm_inv d \<Longrightarrow> p \<noteq> [] \<Longrightarrow> fs_is_directory d (butlast p) \<Longrightarrow> fs_lookup d p \<noteq> Some Dir \<Longrightarrow>
    fs_lookup (fs_write p c d) r = (if r = p then Some (File c) else fs_lookup d r)"
  by (simp add: fs_write_def fs_lookup_def)

lemma fs_lookup_remove:
  "fs_remove p d = Some d' \<Longrightarrow> fs_lookup d' r = (if r = p then None else fs_lookup d r)"
  by (auto simp: fs_remove_def fs_lookup_def split: option.splits node.splits if_splits)

lemma fs_remove_file: "fs_lookup d p \<noteq> Some Dir \<Longrightarrow> \<exists>d'. fs_remove p d = Some d'"
  by (auto simp: fs_remove_def split: option.splits node.splits)

lemma fs_lookup_create_directory:
  "sm_inv d \<Longrightarrow> fs_create_directory p d = Some d' \<Longrightarrow>
    fs_lookup d' r = (if r = p then Some Dir else fs_lookup d r)"
  by (auto simp: fs_create_directory_def fs_lookup_def split: option.splits node.splits if_splits)

lemma sm_find_filter: "sm_find (filter (\<lambda>e. P (fst e)) d) r = (if P r then sm_find d r else None)"
  by (induction d) (auto simp: sm_find_Cons)

lemma sm_inv_filter: "sm_inv d \<Longrightarrow> sm_inv (filter P d)"
  by (induction d) (auto simp: sm_inv_Cons)

lemma fs_lookup_remove_all:
  "p \<noteq> [] \<Longrightarrow> fs_lookup (fs_remove_all p d) r = (if prefix p r then None else fs_lookup d r)"
  by (simp add: fs_remove_all_def fs_lookup_def sm_find_filter [where P = "\<lambda>r. \<not> prefix p r"])

lemma sm_inv_move: "sm_inv m \<Longrightarrow> sm_inv (fold (\<lambda>(r, n). sm_assign (f r) n) xs m)"
  by (induction xs arbitrary: m) auto

lemma sm_find_move:
  assumes "sm_inv m" "\<forall>e \<in> set xs. prefix p (fst e)" "distinct (map fst xs)"
  shows "sm_find (fold (\<lambda>(r, n). sm_assign (q @ drop (length p) r) n) xs m) k =
    (if prefix q k \<and> sm_find xs (p @ drop (length q) k) \<noteq> None
     then sm_find xs (p @ drop (length q) k) else sm_find m k)"
  using assms
proof (induction xs arbitrary: m)
  case Nil
  then show ?case by simp
next
  case (Cons e xs)
  obtain r n where e: "e = (r, n)" by (cases e)
  from Cons.prems e obtain s where r: "r = p @ s" by (auto simp: prefix_def)
  have None: "sm_find xs r = None"
    using Cons.prems(3) e by (auto simp: sm_find_def map_of_eq_None_iff)
  have "k = q @ s \<longleftrightarrow> prefix q k \<and> p @ drop (length q) k = r"
    using r by (auto simp: prefix_def)
  with Cons e r None show ?case by (auto simp: sm_find_Cons)
qed

lemma fs_lookup_rename:
  assumes "fs_wf d" "fs_rename p q d = Some d'" "p \<noteq> q"
  shows "fs_lookup d' r =
    (if prefix q r \<and> fs_lookup d (p @ drop (length q) r) \<noteq> None
     then fs_lookup d (p @ drop (length q) r)
     else if prefix p r \<or> r = q then None
     else fs_lookup d r)"
proof -
  have c: "fs_can_rename p q d" and
    d': "d' = fold (\<lambda>(r, n). sm_assign (q @ drop (length p) r) n)
       (filter (\<lambda>e. prefix p (fst e)) d) (filter (\<lambda>e. \<not> prefix p (fst e) \<and> fst e \<noteq> q) d)"
    using assms(2,3) by (auto simp: fs_rename_def split: if_splits)
  have pq: "p \<noteq> []" "q \<noteq> []" using c by (auto simp: fs_can_rename_def)
  have "distinct (map fst (filter (\<lambda>e. prefix p (fst e)) d))"
    using assms(1) by (intro sm_inv_distinct sm_inv_filter) simp
  then have "sm_find d' r =
    (if prefix q r \<and> sm_find d (p @ drop (length q) r) \<noteq> None
     then sm_find d (p @ drop (length q) r)
     else if \<not> prefix p r \<and> r \<noteq> q then sm_find d r else None)"
    unfolding d' using assms(1)
    by (subst sm_find_move)
      (auto simp: sm_inv_filter sm_find_filter [where P = "prefix p"]
        sm_find_filter [where P = "\<lambda>r. \<not> prefix p r \<and> r \<noteq> q"])
  with pq show ?thesis by (auto simp: fs_lookup_def)
qed

lemma fs_rename_total: "fs_can_rename p q d \<Longrightarrow> \<exists>d'. fs_rename p q d = Some d'"
  by (simp add: fs_rename_def)

text \<open>Renaming a file.\<close>

lemma fs_rename_file:
  assumes "fs_wf d" "fs_lookup d p = Some (File c)" "p \<noteq> q" "q \<noteq> []"
    and "fs_is_directory d (butlast q)" "fs_lookup d q \<noteq> Some Dir"
  obtains d' where "fs_rename p q d = Some d'"
    and "\<And>r. fs_lookup d' r = (if r = q then Some (File c) else if r = p then None else fs_lookup d r)"
proof -
  have p: "p \<noteq> []" using assms(2) by auto
  have sp: "\<not> strict_prefix p q"
  proof
    assume "strict_prefix p q"
    then have "prefix p (butlast q)" "q \<noteq> p"
      using assms(4) by (auto simp: strict_prefix_def prefix_def butlast_append)
    then have "butlast q = p"
      using fs_wf_below_file [OF assms(1,2), of "butlast q"] assms(5) by (auto simp: fs_is_directory_def)
    with assms(2,5) show False by (simp add: fs_is_directory_def)
  qed
  have c: "fs_can_rename p q d"
    using assms sp p by (auto simp: fs_can_rename_def split: option.splits node.splits)
  then obtain d' where d': "fs_rename p q d = Some d'"
    using assms(3) by (simp add: fs_rename_def)
  have below: "fs_lookup d (p @ s) = None" if "s \<noteq> []" for s
    using assms(2) by (intro fs_wf_only_dir [OF assms(1) _ that]) simp
  have image: "prefix q r \<and> fs_lookup d (p @ drop (length q) r) \<noteq> None \<longleftrightarrow> r = q" for r
    using below [of "drop (length q) r"] assms(2)
    by (cases "drop (length q) r = []") (auto simp: prefix_def)
  have under: "fs_lookup d r = None" if "prefix p r" "r \<noteq> p" for r
    using that by (elim prefixE) (simp add: below)
  have "fs_lookup d' r = (if r = q then Some (File c) else if r = p then None else fs_lookup d r)" for r
    using fs_lookup_rename [OF assms(1) d' assms(3), of r] assms(2) image [of r] under [of r]
    by auto
  with d' show ?thesis by (rule that)
qed

section \<open>The operations keep a disk well-formed\<close>

lemma fs_wfI:
  assumes "sm_inv d" "sm_find d [] = None"
    and "\<And>p. fs_lookup d p \<noteq> None \<Longrightarrow> p \<noteq> [] \<Longrightarrow> fs_lookup d (butlast p) = Some Dir"
  shows "fs_wf d"
  using assms by (simp add: fs_wf_def fs_is_directory_def)

lemma fs_wf_root: "fs_wf d \<Longrightarrow> sm_find d [] = None"
  by (simp add: fs_wf_def)

lemma fs_wf_assign:
  assumes "fs_wf d" "p \<noteq> []" "fs_is_directory d (butlast p)" "fs_lookup d p = Some Dir \<longrightarrow> n = Dir"
  shows "fs_wf (sm_assign p n d)"
proof (rule fs_wfI)
  have lookup: "fs_lookup (sm_assign p n d) r = (if r = p then Some n else fs_lookup d r)" for r
    using assms(1,2) by (simp add: fs_lookup_def)
  show "sm_inv (sm_assign p n d)" using assms(1) by simp
  show "sm_find (sm_assign p n d) [] = None" using assms(1,2) by (simp add: fs_wf_root)
  show "fs_lookup (sm_assign p n d) (butlast r) = Some Dir"
    if "fs_lookup (sm_assign p n d) r \<noteq> None" "r \<noteq> []" for r
    using that assms fs_wf_parent [OF assms(1), of r]
    by (auto simp: lookup fs_is_directory_def split: if_splits)
qed

lemma fs_wf_write: "fs_wf d \<Longrightarrow> fs_wf (fs_write p c d)"
  by (auto simp: fs_write_def intro: fs_wf_assign)

lemma fs_wf_create_directory: "fs_wf d \<Longrightarrow> fs_create_directory p d = Some d' \<Longrightarrow> fs_wf d'"
  by (auto simp: fs_create_directory_def intro!: fs_wf_assign
      split: option.splits node.splits if_splits)

lemma fs_wf_erase:
  assumes "fs_wf d" "\<And>w. fs_lookup d (p @ [w]) = None"
  shows "fs_wf (sm_erase p d)"
proof (rule fs_wfI)
  show "sm_inv (sm_erase p d)" using assms(1) by simp
  show "sm_find (sm_erase p d) [] = None" using assms(1) by (simp add: fs_wf_root)
  show "fs_lookup (sm_erase p d) (butlast r) = Some Dir"
    if "fs_lookup (sm_erase p d) r \<noteq> None" "r \<noteq> []" for r
  proof -
    have r: "fs_lookup d r \<noteq> None"
      using that by (auto simp: fs_lookup_def split: if_splits)
    moreover have "butlast r \<noteq> p"
      using assms(2) [of "last r"] r that(2) by auto
    ultimately show ?thesis
      using fs_wf_parent [OF assms(1), of r] that(2) by (auto simp: fs_lookup_def)
  qed
qed

lemma fs_wf_remove:
  assumes "fs_wf d" "fs_remove p d = Some d'"
  shows "fs_wf d'"
proof (cases "fs_lookup d p")
  case None
  with assms show ?thesis by (simp add: fs_remove_def)
next
  case (Some n)
  have "fs_lookup d (p @ [w]) = None" for w
  proof (cases n)
    case Dir
    with assms Some show ?thesis
      by (auto simp: fs_remove_def fs_children_empty split: if_splits)
  next
    case (File c)
    then show ?thesis
      using fs_wf_below_file [OF assms(1), of p c "p @ [w]"] Some
      by (cases "fs_lookup d (p @ [w])") auto
  qed
  then have "fs_wf (sm_erase p d)" by (rule fs_wf_erase [OF assms(1)])
  with assms Some show ?thesis
    by (auto simp: fs_remove_def split: node.splits if_splits)
qed

lemma fs_wf_remove_all:
  assumes "fs_wf d" "p \<noteq> []"
  shows "fs_wf (fs_remove_all p d)"
proof (rule fs_wfI)
  show "sm_inv (fs_remove_all p d)"
    using assms(1) by (simp add: fs_remove_all_def sm_inv_filter)
  show "sm_find (fs_remove_all p d) [] = None"
    using assms by (simp add: fs_remove_all_def sm_find_filter [where P = "\<lambda>r. \<not> prefix p r"] fs_wf_root)
  show "fs_lookup (fs_remove_all p d) (butlast r) = Some Dir"
    if "fs_lookup (fs_remove_all p d) r \<noteq> None" "r \<noteq> []" for r
  proof -
    have "\<not> prefix p (butlast r)"
      using that assms(2) by (auto simp: fs_lookup_remove_all split: if_splits dest: prefix_order.trans [OF _ prefixeq_butlast])
    then show ?thesis
      using that assms fs_wf_parent [OF assms(1), of r]
      by (auto simp: fs_lookup_remove_all split: if_splits)
  qed
qed

lemma fs_wf_rename:
  assumes wf: "fs_wf d" and ren: "fs_rename p q d = Some d'"
  shows "fs_wf d'"
proof (cases "p = q")
  case True
  with assms show ?thesis by (auto simp: fs_rename_def split: if_splits)
next
  case False
  have can: "fs_can_rename p q d" using ren by (auto simp: fs_rename_def split: if_splits)
  then have ne: "p \<noteq> []" "q \<noteq> []" and qdir: "fs_lookup d (butlast q) = Some Dir"
    and np: "\<not> strict_prefix p q" and p: "fs_lookup d p \<noteq> None"
    by (auto simp: fs_can_rename_def fs_is_directory_def split: option.splits)
  note lookup = fs_lookup_rename [OF wf ren False]
  have qempty: "fs_lookup d (q @ s) = None" if "s \<noteq> []" for s
    using can False fs_children_empty [OF wf _ that, of q] fs_wf_only_dir [OF wf _ that, of q]
    by (cases "fs_lookup d q = Some Dir") (auto simp: fs_can_rename_def split: option.splits node.splits)
  show ?thesis
  proof (rule fs_wfI)
    show "sm_inv d'" using ren wf
      by (auto simp: fs_rename_def sm_inv_move sm_inv_filter split: if_splits)
    show "sm_find d' [] = None"
      using ren wf ne False
      by (auto simp: fs_rename_def sm_find_move sm_inv_filter sm_inv_distinct fs_wf_root
          sm_find_filter [where P = "\<lambda>r. \<not> prefix p r \<and> r \<noteq> q"] split: if_splits)
  next
    fix r assume r: "fs_lookup d' r \<noteq> None" "r \<noteq> []"
    show "fs_lookup d' (butlast r) = Some Dir"
    proof (cases "prefix q r \<and> fs_lookup d (p @ drop (length q) r) \<noteq> None")
      case True
      then obtain s where s: "r = q @ s" "fs_lookup d (p @ s) \<noteq> None" by (auto simp: prefix_def)
      show ?thesis
      proof (cases "s = []")
        case True
        have "\<not> prefix p (butlast q)"
          using np \<open>p \<noteq> q\<close> prefixeq_butlast [of q] by (auto simp: strict_prefix_def)
        moreover have shorter: "length (butlast q) < length q"
          using ne by simp
        then have "\<not> prefix q (butlast q)"
          by (auto dest: prefix_length_le)
        moreover have "butlast q \<noteq> q"
          using shorter by (metis less_irrefl)
        ultimately have "\<not> prefix p (butlast q)" "\<not> prefix q (butlast q)" "butlast q \<noteq> q" .
        with True s qdir show ?thesis by (auto simp: lookup)
      next
        case False
        then have "fs_lookup d (p @ butlast s) = Some Dir"
          using fs_wf_parent [OF wf, of "p @ s"] s by (auto simp: butlast_append)
        with False s show ?thesis by (auto simp: lookup butlast_append)
      qed
    next
      case no_image: False
      then have r': "\<not> prefix p r" "r \<noteq> q" "fs_lookup d r \<noteq> None"
        using r by (auto simp: lookup split: if_splits)
      have "\<not> prefix q r"
      proof
        assume "prefix q r"
        then obtain t where t: "r = q @ t" by (rule prefixE)
        with r' have "fs_lookup d (q @ t) = None" by (intro qempty) auto
        with r' t show False by simp
      qed
      then have "\<not> prefix q (butlast r)" "\<not> prefix p (butlast r)" "butlast r \<noteq> q"
        using r' by (auto dest: prefix_order.trans [OF _ prefixeq_butlast] simp: prefixeq_butlast)
      with r' r(2) show ?thesis
        using fs_wf_parent [OF wf, of r] by (auto simp: lookup)
    qed
  qed
qed

lemmas fs_wf_intros = fs_wf_write fs_wf_create_directory fs_wf_remove fs_wf_remove_all fs_wf_rename

end
