(* ===== verification/Digest.thy ===== *)
theory Digest
  imports Filesystem
begin

unbundle bit_operations_syntax

text \<open>
  \<open>src/common/utils.cpp\<close>: the digest of a file and its text form.  The hash function
  (\<open>xxh::hash_state_t<64>\<close>, a package fetched by the build) is a parameter: a function from
  all the bytes the stream was updated with to a 64-bit value.
\<close>

definition DIGEST_SIZE :: nat where "DIGEST_SIZE = 8"

definition CHUNK_SIZE :: nat where "CHUNK_SIZE = 1024 * 1024 * 2"

type_synonym digest = "64 word"

section \<open>The text form\<close>

definition hex_char :: "nat \<Rightarrow> char" where
  "hex_char d = (if d < 10 then char_of (48 + d) else char_of (87 + d))"

text \<open>\<open>s << std::hex << (int) b\<close> for a byte: no leading zero.\<close>

definition hex_byte :: "nat \<Rightarrow> string" where
  "hex_byte b = (if b < 16 then [hex_char b] else [hex_char (b div 16), hex_char (b mod 16)])"

definition digest_to_string :: "digest \<Rightarrow> string" where
  "digest_to_string md = concat (map hex_byte (bytes_of md))"

section \<open>Reading a file in chunks\<close>

text \<open>
  One turn of the loop: \<open>read\<close> stores the next bytes at the front of the buffer, and the
  hash stream is updated with the whole buffer.
\<close>

function digest_loop :: "nat \<Rightarrow> string \<Rightarrow> string \<Rightarrow> string \<Rightarrow> string" where
  "digest_loop chunk buffer rest stream =
     (let got = take chunk rest in
      if got = [] then stream
      else let buffer' = got @ drop (length got) buffer in
        digest_loop chunk buffer' (drop chunk rest) (stream @ buffer'))"
  by pat_completeness auto
termination
  by (relation "measure (\<lambda>(chunk, buffer, rest, stream). length rest)") auto

declare digest_loop.simps [simp del]

definition hashed_bytes :: "nat \<Rightarrow> string \<Rightarrow> string" where
  "hashed_bytes chunk c = digest_loop chunk (replicate chunk (CHR 0x00)) c []"

text \<open>\<open>getFileDigest\<close>: the value 0 when the file cannot be opened.\<close>

definition getFileDigest :: "(string \<Rightarrow> digest) \<Rightarrow> disk \<Rightarrow> path \<Rightarrow> digest" where
  "getFileDigest xxh64 d p =
     (case fs_lookup d p of
        Some (File c) \<Rightarrow> xxh64 (hashed_bytes CHUNK_SIZE c)
      | Some Dir \<Rightarrow> xxh64 []
      | None \<Rightarrow> 0)"

text \<open>The digest text that \<open>getFileDigest\<close> gives for a file with the contents \<open>c\<close>.\<close>

definition content_hash :: "(string \<Rightarrow> digest) \<Rightarrow> string \<Rightarrow> string" where
  "content_hash xxh64 c = digest_to_string (xxh64 (hashed_bytes CHUNK_SIZE c))"

section \<open>Facts\<close>

lemma digest_of_file:
  "fs_lookup d p = Some (File c) \<Longrightarrow>
    digest_to_string (getFileDigest xxh64 d p) = content_hash xxh64 c"
  by (simp add: getFileDigest_def content_hash_def)

lemma hashed_bytes_Nil: "hashed_bytes chunk [] = []"
  by (simp add: hashed_bytes_def digest_loop.simps)

text \<open>A file that fits in one chunk is hashed with its padding.\<close>

lemma hashed_bytes_one_chunk:
  assumes "c \<noteq> []" "length c \<le> chunk"
  shows "hashed_bytes chunk c = c @ replicate (chunk - length c) (CHR 0x00)"
  using assms
  by (simp add: hashed_bytes_def digest_loop.simps [of chunk _ c] digest_loop.simps [of chunk _ "[]"] Let_def)

text \<open>A file whose length is a multiple of the chunk size is hashed as it is.\<close>

lemma digest_loop_full:
  "length rest = k * chunk \<Longrightarrow> length buffer = chunk \<Longrightarrow> digest_loop chunk buffer rest stream = stream @ rest"
proof (induction k arbitrary: buffer rest stream)
  case 0
  then show ?case by (simp add: digest_loop.simps)
next
  case (Suc k)
  have len: "length (take chunk rest) = chunk" "length (drop chunk rest) = k * chunk"
    using Suc.prems(1) by auto
  show ?case
  proof (cases "rest = [] \<or> chunk = 0")
    case True
    with Suc.prems show ?thesis by (auto simp: digest_loop.simps [of chunk buffer])
  next
    case False
    then have "digest_loop chunk buffer rest stream =
        digest_loop chunk (take chunk rest) (drop chunk rest) (stream @ take chunk rest)"
      using Suc.prems len(1) by (simp add: digest_loop.simps [of chunk buffer] Let_def)
    also have "\<dots> = (stream @ take chunk rest) @ drop chunk rest"
      by (rule Suc.IH) (use len in auto)
    finally show ?thesis by simp
  qed
qed

lemma hashed_bytes_full: "length c = k * chunk \<Longrightarrow> hashed_bytes chunk c = c"
  using digest_loop_full [of c k chunk "replicate chunk (CHR 0x00)" "[]"]
  by (simp add: hashed_bytes_def)

section \<open>Properties of the digest\<close>

text \<open>
  Two files that fit in one chunk and differ only in trailing zero bytes are hashed
  alike, whatever the hash function is: the stream is updated with the whole buffer, not
  with the bytes that \<open>read\<close> returned.
\<close>

lemma digest_ignores_trailing_zeros:
  assumes "c \<noteq> []" "length c + k \<le> CHUNK_SIZE"
    and "fs_lookup d p = Some (File c)"
    and "fs_lookup d q = Some (File (c @ replicate k (CHR 0x00)))"
  shows "getFileDigest xxh64 d p = getFileDigest xxh64 d q"
proof -
  have "replicate k x @ replicate (CHUNK_SIZE - length c - k) x = replicate (CHUNK_SIZE - length c) x" for x :: char
    using assms(2) by (simp add: replicate_add [symmetric])
  with assms show ?thesis
    by (simp add: getFileDigest_def hashed_bytes_one_chunk)
qed

text \<open>
  The text form drops the leading zero of a byte below 16, so it is not injective; on
  digests without such a byte it is.
\<close>

lemma digest_to_string_collision:
  "digest_to_string 0x1001 = digest_to_string 0x0011 \<and> (0x1001 :: digest) \<noteq> 0x0011"
proof -
  have "bytes_of 0x1001 = [1, 16, 0, 0, 0, 0, 0, 0]" "bytes_of 0x0011 = [17, 0, 0, 0, 0, 0, 0, 0]"
    by (simp_all add: bytes_of_def)
  moreover have "(0x1001 :: digest) \<noteq> 0x0011" by simp
  ultimately show ?thesis by (simp add: digest_to_string_def hex_byte_def)
qed

definition no_small_byte :: "digest \<Rightarrow> bool" where
  "no_small_byte md \<longleftrightarrow> (\<forall>b \<in> set (bytes_of md). 16 \<le> b)"

lemma of_char_hex_char:
  "d < 16 \<Longrightarrow> (of_char (hex_char d) :: nat) = (if d < 10 then 48 + d else 87 + d)"
  by (simp add: hex_char_def of_char_of)

lemma hex_char_inject:
  assumes "c < 16" "d < 16" "hex_char c = hex_char d"
  shows "c = d"
proof -
  have "(of_char (hex_char c) :: nat) = of_char (hex_char d)"
    using assms(3) by simp
  with assms(1,2) show ?thesis
    by (simp add: of_char_hex_char split: if_splits)
qed

lemma hex_byte_inject:
  assumes "16 \<le> b" "b < 256" "16 \<le> c" "c < 256" "hex_byte b = hex_byte c"
  shows "b = c"
proof -
  have "hex_char (b div 16) = hex_char (c div 16)" "hex_char (b mod 16) = hex_char (c mod 16)"
    using assms by (auto simp: hex_byte_def)
  then have "b div 16 = c div 16" "b mod 16 = c mod 16"
    using assms by (auto intro: hex_char_inject)
  then show ?thesis by (metis div_mult_mod_eq)
qed

lemma digest_to_string_inject:
  assumes "no_small_byte v" "no_small_byte w" "digest_to_string v = digest_to_string w"
  shows "v = w"
proof -
  let ?B = "set (bytes_of v) \<union> set (bytes_of w)"
  have B: "\<forall>b \<in> ?B. 16 \<le> b \<and> b < 256"
    using assms by (auto simp: no_small_byte_def dest: bytes_of_small)
  then have "\<forall>b \<in> ?B. length (hex_byte b) = 2"
    by (auto simp: hex_byte_def not_less [symmetric] dest!: bspec)
  moreover have "inj_on hex_byte ?B"
    by (intro inj_onI hex_byte_inject) (use B in auto)
  ultimately have "bytes_of v = bytes_of w"
    using assms(3) by (intro concat_map_inject [of _ _ hex_byte 2]) (auto simp: digest_to_string_def)
  then show ?thesis by (simp add: bytes_of_inject)
qed

lemma digest_to_string_length: "8 \<le> length (digest_to_string md) \<and> length (digest_to_string md) \<le> 16"
proof -
  have "length bs \<le> length (concat (map hex_byte bs)) \<and> length (concat (map hex_byte bs)) \<le> 2 * length bs" for bs
    by (induction bs) (auto simp: hex_byte_def add_increasing)
  from this [of "bytes_of md"] show ?thesis by (simp add: digest_to_string_def)
qed

end
