(* ===== verification/Wire.thy ===== *)
theory Wire
  imports Prelude
begin

text \<open>
  \<open>src/common/MessageComunication.h\<close>: the header in front of every message, the message
  buffer and the sealed message.  A \<open>char*\<close> argument is an optional buffer, \<open>None\<close> for
  the null pointer; an access outside the buffer is an error value, as is an \<open>int\<close> that
  overflows.
\<close>

section \<open>Header\<close>

record header =
  hdr_magic :: string
  hdr_msg_size :: "64 word"
  hdr_session_id :: "64 word"

definition MAGIC :: string where
  "MAGIC = ''VINIPROTOCOL v0.1'' @ [CHR 0x00]"

definition Header_default :: header where
  "Header_default = \<lparr>hdr_magic = MAGIC, hdr_msg_size = 0, hdr_session_id = 0\<rparr>"

definition Header :: "int \<Rightarrow> int \<Rightarrow> header" where
  "Header n sid =
     \<lparr>hdr_magic = MAGIC, hdr_msg_size = word_of_int n, hdr_session_id = word_of_int sid\<rparr>"

text \<open>\<open>sizeof(header) + sizeof(msg_size) + sizeof(session_id)\<close>\<close>

definition getHeaderSize :: nat where
  "getHeaderSize = 18 + 8 + 8"

definition word_chars :: "64 word \<Rightarrow> string" where
  "word_chars w = map char_of (bytes_of w)"

definition chars_word :: "string \<Rightarrow> 64 word" where
  "chars_word s = word_of_bytes (map of_char s)"

definition writeIntoBuffer :: "header \<Rightarrow> string option \<Rightarrow> ub + string option" where
  "writeIntoBuffer h buffer =
     (case buffer of
        None \<Rightarrow> Inr None
      | Some b \<Rightarrow>
          if length b < getHeaderSize then Inl OutOfBounds
          else Inr (Some (take 18 (hdr_magic h) @ word_chars (hdr_msg_size h) @
                 word_chars (hdr_session_id h) @ drop getHeaderSize b)))"

definition loadFromBuffer :: "header \<Rightarrow> string option \<Rightarrow> ub + int \<times> header" where
  "loadFromBuffer h buffer =
     (case buffer of
        None \<Rightarrow> Inr (-1, h)
      | Some b \<Rightarrow>
          if length b < 18 then Inl OutOfBounds
          else if take 18 b \<noteq> take 18 (hdr_magic h) then Inr (-1, h)
          else if length b < getHeaderSize then Inl OutOfBounds
          else Inr (0, h\<lparr>hdr_msg_size := chars_word (take 8 (drop 18 b)),
                         hdr_session_id := chars_word (take 8 (drop 26 b))\<rparr>))"

lemma chars_word_word_chars [simp]: "chars_word (word_chars w) = w"
proof -
  have "map (of_char \<circ> char_of) (bytes_of w) = bytes_of w"
    by (rule map_idI) (auto dest: bytes_of_small)
  then show ?thesis by (simp add: chars_word_def word_chars_def)
qed

lemma length_word_chars [simp]: "length (word_chars w) = 8"
  by (simp add: word_chars_def)

lemma length_MAGIC [simp]: "length MAGIC = 18"
  by (simp add: MAGIC_def)

lemma Header_magic [simp]: "hdr_magic (Header n sid) = MAGIC" "hdr_magic Header_default = MAGIC"
  by (simp_all add: Header_def Header_default_def)

text \<open>Loading what was written gives the header back, in any buffer that is large enough.\<close>

lemma load_write_header:
  assumes "hdr_magic h = MAGIC" "hdr_magic g = MAGIC" "getHeaderSize \<le> length b"
  shows "\<exists>b'. writeIntoBuffer h (Some b) = Inr (Some b') \<and> length b' = length b \<and>
    loadFromBuffer g (Some b') = Inr (0, h)"
  using assms
  by (cases h, cases g) (auto simp: writeIntoBuffer_def loadFromBuffer_def getHeaderSize_def)

section \<open>Messages and sealed messages\<close>

type_synonym message = string

text \<open>\<open>getSize\<close> converts the length to an \<open>int\<close>.\<close>

definition getSize :: "message \<Rightarrow> int" where
  "getSize m = to_int32 (int (length m))"

text \<open>\<open>Message(char *buffer, int size)\<close>, reading at an offset of a buffer.\<close>

definition Message_at :: "string \<Rightarrow> nat \<Rightarrow> int \<Rightarrow> ub + message" where
  "Message_at b off n =
     (if n < 0 \<or> length b < off + nat n then Inl OutOfBounds else Inr (take (nat n) (drop off b)))"

record sealed =
  sl_message :: message
  sl_header :: header

definition SealedMessage_default :: sealed where
  "SealedMessage_default = \<lparr>sl_message = [], sl_header = Header_default\<rparr>"

definition SealedMessage :: "message \<Rightarrow> int \<Rightarrow> sealed" where
  "SealedMessage m sid = \<lparr>sl_message = m, sl_header = Header (getSize m) sid\<rparr>"

definition getFromBuffer :: "string \<Rightarrow> ub + sealed" where
  "getFromBuffer b =
     (case loadFromBuffer (sl_header SealedMessage_default) (Some b) of
        Inl u \<Rightarrow> Inl u
      | Inr (rc, h) \<Rightarrow>
          (case Message_at b getHeaderSize (to_int32 (uint (hdr_msg_size h))) of
             Inl u \<Rightarrow> Inl u
           | Inr m \<Rightarrow> Inr \<lparr>sl_message = m, sl_header = h\<rparr>))"

definition getSealedMessageSize :: "sealed \<Rightarrow> ub + int" where
  "getSealedMessageSize sm =
     (let n = int getHeaderSize + getSize (sl_message sm) in
      if 2 ^ 31 \<le> n then Inl IntegerOverflow else Inr n)"

definition getSealedMessagePtr :: "sealed \<Rightarrow> ub + string" where
  "getSealedMessagePtr sm =
     (case getSealedMessageSize sm of
        Inl u \<Rightarrow> Inl u
      | Inr n \<Rightarrow>
          (case writeIntoBuffer (sl_header sm) (Some (replicate (nat n) (CHR 0x00))) of
             Inl u \<Rightarrow> Inl u
           | Inr None \<Rightarrow> Inl OutOfBounds
           | Inr (Some b) \<Rightarrow>
               if getSize (sl_message sm) < 0 then Inl OutOfBounds
               else Inr (take getHeaderSize b @ take (nat (getSize (sl_message sm))) (sl_message sm))))"

definition MAX_MESSAGE :: nat where
  "MAX_MESSAGE = 2 ^ 31 - 1 - getHeaderSize"

lemma getSize_small [simp]: "length m \<le> MAX_MESSAGE \<Longrightarrow> getSize m = int (length m)"
  by (simp add: getSize_def MAX_MESSAGE_def getHeaderSize_def)

text \<open>The bytes of a sealed message, and their length.\<close>

definition sealed_bytes :: "message \<Rightarrow> int \<Rightarrow> string" where
  "sealed_bytes m sid =
     MAGIC @ word_chars (word_of_nat (length m)) @ word_chars (word_of_int sid) @ m"

lemma sealed_ptr:
  assumes "length m \<le> MAX_MESSAGE"
  shows "getSealedMessagePtr (SealedMessage m sid) = Inr (sealed_bytes m sid)"
  using assms
  by (simp add: getSealedMessagePtr_def getSealedMessageSize_def SealedMessage_def Header_def
      writeIntoBuffer_def sealed_bytes_def getHeaderSize_def MAX_MESSAGE_def nat_add_distrib)

lemma length_sealed_bytes [simp]: "length (sealed_bytes m sid) = getHeaderSize + length m"
  by (simp add: sealed_bytes_def getHeaderSize_def)

lemma load_sealed_bytes:
  "hdr_magic h = MAGIC \<Longrightarrow>
    loadFromBuffer h (Some (take getHeaderSize (sealed_bytes m sid))) =
      Inr (0, Header (int (length m)) sid)"
  by (cases h) (simp add: loadFromBuffer_def sealed_bytes_def getHeaderSize_def Header_def)

lemma MAX_MESSAGE_word: "length m \<le> MAX_MESSAGE \<Longrightarrow> unat (word_of_nat (length m) :: 64 word) = length m"
  by (simp add: MAX_MESSAGE_def unat_of_nat take_bit_nat_eq_self)

theorem seal_roundtrip:
  assumes "length m \<le> MAX_MESSAGE"
  shows "\<exists>b. getSealedMessagePtr (SealedMessage m sid) = Inr b \<and>
    getSealedMessageSize (SealedMessage m sid) = Inr (int (length b)) \<and>
    getFromBuffer b = Inr (SealedMessage m sid)"
proof (intro exI conjI)
  let ?b = "sealed_bytes m sid"
  show "getSealedMessagePtr (SealedMessage m sid) = Inr ?b"
    using assms by (rule sealed_ptr)
  show "getSealedMessageSize (SealedMessage m sid) = Inr (int (length ?b))"
    using assms by (simp add: getSealedMessageSize_def SealedMessage_def getHeaderSize_def MAX_MESSAGE_def)
  have "loadFromBuffer Header_default (Some ?b) = Inr (0, Header (int (length m)) sid)"
    by (simp add: loadFromBuffer_def sealed_bytes_def getHeaderSize_def Header_def Header_default_def)
  moreover have "to_int32 (uint (hdr_msg_size (Header (int (length m)) sid))) = int (length m)"
    using assms MAX_MESSAGE_word [OF assms]
    by (simp add: Header_def uint_nat MAX_MESSAGE_def)
  moreover have "Message_at ?b getHeaderSize (int (length m)) = Inr m"
    by (simp add: Message_at_def) (simp add: sealed_bytes_def getHeaderSize_def)
  ultimately show "getFromBuffer ?b = Inr (SealedMessage m sid)"
    using assms by (simp add: getFromBuffer_def SealedMessage_default_def SealedMessage_def)
qed

end
