(* ===== verification/Server_State.thy ===== *)
theory Server_State
  imports Digest Wire
begin

text \<open>
  \<open>src/server/ServerState.h\<close> and \<open>ServerState.cpp\<close>: the replicated state of a server, its
  queries and updates, the paths of its files, and \<open>init\<close>, which rebuilds the state from
  the disk when a server starts.  The process environment (the \<open>HOME\<close> variable), the
  static \<open>serverDir\<close> and the hash function are the record \<open>env\<close>.
\<close>

record env =
  env_home :: string
  env_serverDir :: string
  env_xxh64 :: "string \<Rightarrow> digest"

record user_file =
  uf_filename :: string
  uf_hash :: string
  uf_last_tid :: int
  uf_size :: int
  uf_deleted :: bool

record frontend_connection =
  fc_hostname :: string
  fc_port :: int

type_synonym user_file_list = "(string, user_file) smap"

record server_state =
  senhas :: "(string, string) smap"
  logged_user_sessions :: "(int, string) smap"
  users_last_tid :: "(string, int) smap"
  user_files :: "(string, user_file_list) smap"
  frontend_connections :: "frontend_connection list"
  ss_last_tid :: int

definition empty_state :: server_state where
  "empty_state = \<lparr>senhas = sm_empty, logged_user_sessions = sm_empty, users_last_tid = sm_empty,
     user_files = sm_empty, frontend_connections = [], ss_last_tid = 0\<rparr>"

section \<open>Queries\<close>

definition isValid :: "server_state \<Rightarrow> bool" where
  "isValid s = True"

definition hasUser :: "server_state \<Rightarrow> string \<Rightarrow> bool" where
  "hasUser s username \<longleftrightarrow> sm_find (senhas s) username \<noteq> None"

definition checkPassword :: "server_state \<Rightarrow> string \<Rightarrow> string \<Rightarrow> bool" where
  "checkPassword s username password \<longleftrightarrow>
     sm_count (senhas s) username \<noteq> 0 \<and> sm_find (senhas s) username = Some password"

text \<open>
  \<open>SessionId\<close> is \<open>int\<close>: \<open>isSessionValid\<close> narrows its argument when the caller passes the
  \<open>long\<close> of a header, and so does the look-up in \<open>getUserFromSesssion\<close>.
\<close>

definition isSessionValid :: "server_state \<Rightarrow> int \<Rightarrow> bool" where
  "isSessionValid s session_id \<longleftrightarrow>
     sm_count (logged_user_sessions s) (to_int32 session_id) \<noteq> 0"

definition getUserFromSesssion :: "server_state \<Rightarrow> int \<Rightarrow> string" where
  "getUserFromSesssion s session =
     (case sm_find (logged_user_sessions s) (to_int32 session) of None \<Rightarrow> [] | Some u \<Rightarrow> u)"

definition getLastTid :: "server_state \<Rightarrow> int" where
  "getLastTid s = ss_last_tid s"

definition getUserLastTid :: "server_state \<Rightarrow> string \<Rightarrow> int" where
  "getUserLastTid s username =
     (case sm_find (users_last_tid s) username of None \<Rightarrow> 0 | Some t \<Rightarrow> t)"

definition getUserFilesSince :: "server_state \<Rightarrow> string \<Rightarrow> int \<Rightarrow> user_file list" where
  "getUserFilesSince s user tid =
     (case sm_find (user_files s) user of
        None \<Rightarrow> []
      | Some files \<Rightarrow> map snd (filter (\<lambda>e. uf_last_tid (snd e) > tid) files))"

definition getUserFiles :: "server_state \<Rightarrow> string \<Rightarrow> user_file list" where
  "getUserFiles s user =
     (case sm_find (user_files s) user of None \<Rightarrow> [] | Some files \<Rightarrow> map snd files)"

definition findFile :: "server_state \<Rightarrow> string \<Rightarrow> string \<Rightarrow> user_file option" where
  "findFile s user name =
     (case sm_find (user_files s) user of None \<Rightarrow> None | Some files \<Rightarrow> sm_find files name)"

definition hasFile :: "server_state \<Rightarrow> string \<Rightarrow> string \<Rightarrow> bool" where
  "hasFile s username filename \<longleftrightarrow>
     (case sm_find (user_files s) username of
        None \<Rightarrow> False
      | Some files \<Rightarrow> sm_count files filename \<noteq> 0)"

definition getFileHash :: "server_state \<Rightarrow> string \<Rightarrow> string \<Rightarrow> string" where
  "getFileHash s user filename =
     (case sm_find (user_files s) user of
        None \<Rightarrow> []
      | Some files \<Rightarrow> (case sm_find files filename of None \<Rightarrow> [] | Some f \<Rightarrow> uf_hash f))"

definition getUserSessions :: "server_state \<Rightarrow> string \<Rightarrow> int list" where
  "getUserSessions s username =
     map fst (filter (\<lambda>e. snd e = username) (logged_user_sessions s))"

definition getFrontends :: "server_state \<Rightarrow> frontend_connection list" where
  "getFrontends s = frontend_connections s"

section \<open>Updates\<close>

definition addSession :: "int \<Rightarrow> string \<Rightarrow> server_state \<Rightarrow> server_state" where
  "addSession session_id username s =
     s\<lparr>logged_user_sessions := sm_emplace (to_int32 session_id) username (logged_user_sessions s)\<rparr>"

definition addUser :: "string \<Rightarrow> string \<Rightarrow> server_state \<Rightarrow> server_state" where
  "addUser username password s = s\<lparr>senhas := sm_emplace username password (senhas s)\<rparr>"

definition removeSession :: "int \<Rightarrow> server_state \<Rightarrow> server_state" where
  "removeSession session_id s =
     s\<lparr>logged_user_sessions := sm_erase (to_int32 session_id) (logged_user_sessions s)\<rparr>"

definition setUserLastTid :: "string \<Rightarrow> int \<Rightarrow> server_state \<Rightarrow> server_state" where
  "setUserLastTid username tid s =
     s\<lparr>users_last_tid := sm_emplace username tid (users_last_tid s)\<rparr>"

definition setLastTid :: "int \<Rightarrow> server_state \<Rightarrow> server_state" where
  "setLastTid tid s = s\<lparr>ss_last_tid := tid\<rparr>"

definition removeFile :: "string \<Rightarrow> string \<Rightarrow> server_state \<Rightarrow> server_state" where
  "removeFile user filename s =
     (case sm_find (user_files s) user of
        None \<Rightarrow> s
      | Some files \<Rightarrow>
          if sm_count files filename = 0 then s
          else s\<lparr>user_files := sm_assign user (sm_erase filename files) (user_files s)\<rparr>)"

definition updateFile :: "string \<Rightarrow> string \<Rightarrow> user_file \<Rightarrow> server_state \<Rightarrow> server_state" where
  "updateFile user filename f s =
     (case sm_find (user_files s) user of
        None \<Rightarrow> s
      | Some files \<Rightarrow>
          if sm_count files filename = 0 then s
          else s\<lparr>user_files := sm_assign user (sm_assign filename f files) (user_files s)\<rparr>)"

definition addFile :: "string \<Rightarrow> string \<Rightarrow> user_file \<Rightarrow> server_state \<Rightarrow> server_state" where
  "addFile user filename f s =
     (let m = (if sm_count (user_files s) user = 0
               then sm_emplace user sm_empty (user_files s) else user_files s)
      in case sm_find m user of
           None \<Rightarrow> s
         | Some files \<Rightarrow> s\<lparr>user_files := sm_assign user (sm_emplace filename f files) m\<rparr>)"

definition addFrontend :: "string \<Rightarrow> int \<Rightarrow> server_state \<Rightarrow> server_state" where
  "addFrontend hostname port s =
     s\<lparr>frontend_connections := frontend_connections s @ [\<lparr>fc_hostname = hostname, fc_port = port\<rparr>]\<rparr>"

section \<open>Paths\<close>

definition getServersDir :: "env \<Rightarrow> string" where
  "getServersDir e = env_home e @ ''/'' @ env_serverDir e"

definition getUserDir :: "env \<Rightarrow> string \<Rightarrow> string" where
  "getUserDir e user = getServersDir e @ user"

definition getFilePath :: "env \<Rightarrow> string \<Rightarrow> string \<Rightarrow> string" where
  "getFilePath e username filename = getUserDir e username @ ''/'' @ filename"

definition getTidPath :: "env \<Rightarrow> string" where
  "getTidPath e = getServersDir e @ ''tid''"

section \<open>init\<close>

text \<open>One entry of a user directory.\<close>

definition initFile ::
  "env \<Rightarrow> string \<Rightarrow> path \<Rightarrow> string \<Rightarrow> (disk \<times> server_state, unit) cpp" where
  "initFile e username dir filename =
     bindC (getC fst) (\<lambda>d.
       let file_path = dir @ [filename] in
       if fs_is_directory d file_path then retC ()
       else if last filename = CHR ''~'' then
         (case fs_remove file_path d of
            None \<Rightarrow> throwC
          | Some d' \<Rightarrow> modifyC (\<lambda>(_, s). (d', s)))
       else if filename = ''.password'' then
         modifyC (\<lambda>(d, s). (d, addUser username (read_word (fs_read d file_path)) s))
       else
         let c = fs_read d file_path;
             f = \<lparr>uf_filename = filename,
                  uf_hash = digest_to_string (getFileDigest (env_xxh64 e) d file_path),
                  uf_last_tid = 0, uf_size = to_int32 (int (length c)), uf_deleted = False\<rparr>
         in modifyC (\<lambda>(d, s). (d, addFile username filename f s)))"

text \<open>One entry of the server directory.\<close>

definition initEntry :: "env \<Rightarrow> path \<Rightarrow> string \<Rightarrow> (disk \<times> server_state, unit) cpp" where
  "initEntry e dir username =
     bindC (getC fst) (\<lambda>d.
       let user_dir = dir @ [username] in
       if last username = CHR ''~'' then
         (case fs_remove user_dir d of
            None \<Rightarrow> throwC
          | Some d' \<Rightarrow> modifyC (\<lambda>(_, s). (d', s)))
       else if fs_is_directory d user_dir then
         forC (fs_children d user_dir) (initFile e username user_dir)
       else if username = ''tid'' then
         modifyC (\<lambda>(d, s). (d, setLastTid (read_int (fs_read d user_dir)) s))
       else retC ())"

definition init :: "env \<Rightarrow> (disk \<times> server_state, unit) cpp" where
  "init e =
     bindC (getC fst) (\<lambda>d.
       let servers_dir = resolve (getServersDir e) in
       case fs_create_directory servers_dir d of
         None \<Rightarrow> throwC
       | Some d' \<Rightarrow>
           seqC (modifyC (\<lambda>(_, s). (d', s)))
             (forC (fs_children d' servers_dir) (initEntry e servers_dir)))"

text \<open>The constructor: \<open>init\<close> on the members' default values.\<close>

definition ServerState :: "env \<Rightarrow> disk \<Rightarrow> (disk \<times> server_state, unit) outcome" where
  "ServerState e d = init e (d, empty_state)"

section \<open>The files of the users\<close>

text \<open>The maps of a state are maps: sorted, with each key once.\<close>

definition state_inv :: "server_state \<Rightarrow> bool" where
  "state_inv s \<longleftrightarrow>
     sm_inv (senhas s) \<and> sm_inv (logged_user_sessions s) \<and> sm_inv (users_last_tid s) \<and>
     sm_inv (user_files s) \<and> (\<forall>e \<in> set (user_files s). sm_inv (snd e))"

lemma state_invD:
  assumes "state_inv s"
  shows "sm_inv (senhas s)" "sm_inv (logged_user_sessions s)" "sm_inv (users_last_tid s)"
    "sm_inv (user_files s)"
    "sm_find (user_files s) u = Some files \<Longrightarrow> sm_inv files"
  using assms sm.entries_find [of "user_files s" u files] by (force simp: state_inv_def)+

lemma state_inv_empty [simp]: "state_inv empty_state"
  by (simp add: state_inv_def empty_state_def)

lemma hasFile_findFile: "hasFile s u n \<longleftrightarrow> findFile s u n \<noteq> None"
  by (auto simp: hasFile_def findFile_def sm_count_def split: option.splits)

lemma getFileHash_findFile:
  "getFileHash s u n = (case findFile s u n of None \<Rightarrow> [] | Some f \<Rightarrow> uf_hash f)"
  by (simp add: getFileHash_def findFile_def split: option.splits)

lemma findFile_entry:
  assumes "state_inv s"
  shows "(\<exists>files. (u, files) \<in> set (user_files s) \<and> (n, f) \<in> set files) \<longleftrightarrow> findFile s u n = Some f"
  using assms
  by (auto simp: findFile_def state_invD sm_entries_find split: option.splits)

lemma state_inv_files:
  assumes "state_inv s" "sm_inv files"
  shows "state_inv (s\<lparr>user_files := sm_assign u files (user_files s)\<rparr>)"
  using assms
  by (auto simp: state_inv_def sm_entries_find split: if_splits)

lemma removeFile_alt:
  "removeFile u n s =
     (case sm_find (user_files s) u of
        None \<Rightarrow> s
      | Some files \<Rightarrow>
          if sm_find files n = None then s
          else s\<lparr>user_files := sm_assign u (sm_erase n files) (user_files s)\<rparr>)"
  by (simp add: removeFile_def split: option.splits)

lemma addFile_alt:
  assumes "state_inv s"
  shows "addFile u n f s =
    s\<lparr>user_files := sm_assign u
        (sm_emplace n f (case sm_find (user_files s) u of None \<Rightarrow> sm_empty | Some files \<Rightarrow> files))
        (user_files s)\<rparr>"
  using assms
  by (simp add: addFile_def state_invD sm.emplace_absent sm.assign_assign split: option.splits)

lemma state_inv_addFile: "state_inv s \<Longrightarrow> state_inv (addFile u n f s)"
  by (auto simp: addFile_alt state_invD intro!: state_inv_files split: option.splits)

lemma state_inv_updateFile: "state_inv s \<Longrightarrow> state_inv (updateFile u n f s)"
  by (auto simp: updateFile_def state_invD intro!: state_inv_files split: option.splits)

lemma state_inv_removeFile: "state_inv s \<Longrightarrow> state_inv (removeFile u n s)"
  by (auto simp: removeFile_def state_invD intro!: state_inv_files split: option.splits)

lemma findFile_addFile:
  "state_inv s \<Longrightarrow> findFile (addFile u n f s) v m =
     (if v = u \<and> m = n \<and> findFile s u n = None then Some f else findFile s v m)"
  by (auto simp: addFile_alt findFile_def state_invD split: option.splits)

lemma findFile_updateFile:
  "state_inv s \<Longrightarrow> findFile (updateFile u n f s) v m =
     (if v = u \<and> m = n \<and> findFile s u n \<noteq> None then Some f else findFile s v m)"
  by (auto simp: updateFile_def findFile_def state_invD split: option.splits)

lemma findFile_removeFile:
  "state_inv s \<Longrightarrow> findFile (removeFile u n s) v m = (if v = u \<and> m = n then None else findFile s v m)"
  by (auto simp: removeFile_alt findFile_def state_invD split: option.splits)

text \<open>
  The contract the file transactions rely on: a table of files per user in which a file is
  added only when absent, updated only when present, and removed.
\<close>

locale file_table =
  fixes find_file :: "'s \<Rightarrow> string \<Rightarrow> string \<Rightarrow> 'f option"
    and has :: "'s \<Rightarrow> string \<Rightarrow> string \<Rightarrow> bool"
    and add :: "string \<Rightarrow> string \<Rightarrow> 'f \<Rightarrow> 's \<Rightarrow> 's"
    and update :: "string \<Rightarrow> string \<Rightarrow> 'f \<Rightarrow> 's \<Rightarrow> 's"
    and remove :: "string \<Rightarrow> string \<Rightarrow> 's \<Rightarrow> 's"
    and ok :: "'s \<Rightarrow> bool"
  assumes has_find: "has s u n \<longleftrightarrow> find_file s u n \<noteq> None"
    and find_add: "ok s \<Longrightarrow> find_file (add u n f s) v m =
        (if v = u \<and> m = n \<and> find_file s u n = None then Some f else find_file s v m)"
    and find_update: "ok s \<Longrightarrow> find_file (update u n f s) v m =
        (if v = u \<and> m = n \<and> find_file s u n \<noteq> None then Some f else find_file s v m)"
    and find_remove: "ok s \<Longrightarrow> find_file (remove u n s) v m =
        (if v = u \<and> m = n then None else find_file s v m)"
    and ok_add: "ok s \<Longrightarrow> ok (add u n f s)"
    and ok_update: "ok s \<Longrightarrow> ok (update u n f s)"
    and ok_remove: "ok s \<Longrightarrow> ok (remove u n s)"
begin

text \<open>Update-or-add, as a file transaction does it, stores the file.\<close>

lemma find_put:
  "ok s \<Longrightarrow> find_file (if has s u n then update u n f s else add u n f s) v m =
     (if v = u \<and> m = n then Some f else find_file s v m)"
  by (simp add: has_find find_add find_update)

lemma ok_put: "ok s \<Longrightarrow> ok (if has s u n then update u n f s else add u n f s)"
  by (simp add: ok_add ok_update)

lemma find_put_remove:
  "ok s \<Longrightarrow> find_file (remove u n (if has s u n then update u n f s else add u n f s)) v m =
     (if v = u \<and> m = n then None else find_file s v m)"
  by (subst find_remove [OF ok_put]) (simp_all add: find_put)

end

interpretation ft: file_table findFile hasFile addFile updateFile removeFile state_inv
  by unfold_locales
    (simp_all add: hasFile_findFile findFile_addFile findFile_updateFile findFile_removeFile
      state_inv_addFile state_inv_updateFile state_inv_removeFile)

section \<open>What each update changes\<close>

named_theorems state_frames \<open>the fields an update leaves alone\<close>

lemma file_updates_frame [state_frames]:
  "senhas (addFile u n f s) = senhas s" "senhas (updateFile u n f s) = senhas s"
  "senhas (removeFile u n s) = senhas s"
  "logged_user_sessions (addFile u n f s) = logged_user_sessions s"
  "logged_user_sessions (updateFile u n f s) = logged_user_sessions s"
  "logged_user_sessions (removeFile u n s) = logged_user_sessions s"
  "users_last_tid (addFile u n f s) = users_last_tid s"
  "users_last_tid (updateFile u n f s) = users_last_tid s"
  "users_last_tid (removeFile u n s) = users_last_tid s"
  "frontend_connections (addFile u n f s) = frontend_connections s"
  "frontend_connections (updateFile u n f s) = frontend_connections s"
  "frontend_connections (removeFile u n s) = frontend_connections s"
  "ss_last_tid (addFile u n f s) = ss_last_tid s" "ss_last_tid (updateFile u n f s) = ss_last_tid s"
  "ss_last_tid (removeFile u n s) = ss_last_tid s"
  by (auto simp: addFile_def updateFile_def removeFile_def Let_def split: option.splits)

lemma table_updates_frame [state_frames]:
  "findFile (addUser u p s) v m = findFile s v m" "findFile (addSession i u s) v m = findFile s v m"
  "findFile (removeSession i s) v m = findFile s v m" "findFile (setUserLastTid u t s) v m = findFile s v m"
  "findFile (setLastTid t s) v m = findFile s v m" "findFile (addFrontend h port s) v m = findFile s v m"
  by (simp_all add: findFile_def addUser_def addSession_def removeSession_def setUserLastTid_def
      setLastTid_def addFrontend_def)

lemma state_inv_updates [simp]:
  assumes "state_inv s"
  shows "state_inv (addUser u p s)" "state_inv (addSession i u s)" "state_inv (removeSession i s)"
    "state_inv (setUserLastTid u t s)" "state_inv (setLastTid t s)" "state_inv (addFrontend h port s)"
  using assms
  by (simp_all add: state_inv_def addUser_def addSession_def removeSession_def setUserLastTid_def
      setLastTid_def addFrontend_def)

text \<open>Users and sessions.\<close>

lemma hasUser_addUser: "state_inv s \<Longrightarrow> hasUser (addUser u p s) v \<longleftrightarrow> v = u \<or> hasUser s v"
  by (auto simp: hasUser_def addUser_def state_invD)

lemma checkPassword_iff: "checkPassword s u p \<longleftrightarrow> sm_find (senhas s) u = Some p"
  by (auto simp: checkPassword_def sm_count_def)

lemma checkPassword_addUser:
  "state_inv s \<Longrightarrow> \<not> hasUser s u \<Longrightarrow> checkPassword (addUser u p s) u q \<longleftrightarrow> q = p"
  by (auto simp: checkPassword_iff hasUser_def addUser_def state_invD)

lemma isSessionValid_iff:
  "isSessionValid s i \<longleftrightarrow> sm_find (logged_user_sessions s) (to_int32 i) \<noteq> None"
  by (simp add: isSessionValid_def)

lemma isSessionValid_addSession:
  "state_inv s \<Longrightarrow> isSessionValid (addSession i u s) j \<longleftrightarrow> to_int32 j = to_int32 i \<or> isSessionValid s j"
  by (auto simp: isSessionValid_iff addSession_def state_invD)

lemma isSessionValid_removeSession:
  "isSessionValid (removeSession i s) j \<longleftrightarrow> to_int32 j \<noteq> to_int32 i \<and> isSessionValid s j"
  by (simp add: isSessionValid_iff removeSession_def)

lemma getUserFromSesssion_addSession:
  "state_inv s \<Longrightarrow> \<not> isSessionValid s i \<Longrightarrow> getUserFromSesssion (addSession i u s) i = u"
  by (simp add: isSessionValid_iff getUserFromSesssion_def addSession_def state_invD)

lemma getUserSessions_iff:
  "state_inv s \<Longrightarrow> i \<in> set (getUserSessions s u) \<longleftrightarrow> sm_find (logged_user_sessions s) i = Some u"
  using sm.filtered_keys(1) [of "logged_user_sessions s" "\<lambda>e. snd e = u"]
  by (auto simp: getUserSessions_def state_invD)

text \<open>\<open>getUserFilesSince\<close> and \<open>getUserFiles\<close> list the files of the table.\<close>

lemma getUserFilesSince_iff:
  assumes "state_inv s"
  shows "f \<in> set (getUserFilesSince s u t) \<longleftrightarrow> (\<exists>n. findFile s u n = Some f \<and> t < uf_last_tid f)"
proof (cases "sm_find (user_files s) u")
  case None
  then show ?thesis by (simp add: getUserFilesSince_def findFile_def)
next
  case (Some files)
  then have "f \<in> set (getUserFilesSince s u t) \<longleftrightarrow> f \<in> snd ` set files \<and> t < uf_last_tid f"
    by (auto simp: getUserFilesSince_def)
  with Some assms show ?thesis by (simp add: findFile_def sm_values state_invD)
qed

lemma getUserFiles_iff:
  assumes "state_inv s"
  shows "f \<in> set (getUserFiles s u) \<longleftrightarrow> (\<exists>n. findFile s u n = Some f)"
proof (cases "sm_find (user_files s) u")
  case None
  then show ?thesis by (simp add: getUserFiles_def findFile_def)
next
  case (Some files)
  then have "f \<in> set (getUserFiles s u) \<longleftrightarrow> f \<in> snd ` set files"
    by (simp add: getUserFiles_def)
  with Some assms show ?thesis by (simp add: findFile_def sm_values state_invD)
qed

section \<open>Consistency of a state\<close>

text \<open>
  Every session belongs to a user, its id is an \<open>int\<close>, a file is stored under its own
  name, it is not marked deleted, and no file is newer than the state.
\<close>

definition state_wf :: "server_state \<Rightarrow> bool" where
  "state_wf s \<longleftrightarrow>
     state_inv s \<and>
     (\<forall>(i, u) \<in> set (logged_user_sessions s). hasUser s u \<and> to_int32 i = i) \<and>
     (\<forall>(u, files) \<in> set (user_files s). \<forall>(n, f) \<in> set files.
        uf_filename f = n \<and> \<not> uf_deleted f \<and> uf_last_tid f \<le> ss_last_tid s)"

lemma state_wf_inv [simp]: "state_wf s \<Longrightarrow> state_inv s"
  by (simp add: state_wf_def)

lemma state_wf_iff:
  "state_wf s \<longleftrightarrow> state_inv s \<and>
     (\<forall>i u. sm_find (logged_user_sessions s) i = Some u \<longrightarrow> hasUser s u \<and> to_int32 i = i) \<and>
     (\<forall>u n f. findFile s u n = Some f \<longrightarrow>
        uf_filename f = n \<and> \<not> uf_deleted f \<and> uf_last_tid f \<le> ss_last_tid s)"
proof (cases "state_inv s")
  case False
  then show ?thesis by (simp add: state_wf_def)
next
  case True
  have files: "(\<forall>(u, files) \<in> set (user_files s). \<forall>(n, f) \<in> set files. P n f) \<longleftrightarrow>
      (\<forall>u n f. findFile s u n = Some f \<longrightarrow> P n f)" for P
    unfolding findFile_entry [OF True, symmetric] by blast
  have sessions: "(\<forall>(i, u) \<in> set (logged_user_sessions s). P i u) \<longleftrightarrow>
      (\<forall>i u. sm_find (logged_user_sessions s) i = Some u \<longrightarrow> P i u)" for P
    by (rule sm_ball) (rule state_invD [OF True])
  show ?thesis
    unfolding state_wf_def files sessions ..
qed

lemma state_wf_empty [simp]: "state_wf empty_state"
  by (simp add: state_wf_def empty_state_def state_inv_def)

lemma state_wf_file:
  "state_wf s \<Longrightarrow> findFile s u n = Some f \<Longrightarrow> uf_filename f = n \<and> \<not> uf_deleted f \<and> uf_last_tid f \<le> ss_last_tid s"
  by (simp add: state_wf_iff)

lemma state_wf_session:
  "state_wf s \<Longrightarrow> sm_find (logged_user_sessions s) i = Some u \<Longrightarrow> hasUser s u \<and> to_int32 i = i"
  by (simp add: state_wf_iff)

end
