(* ===== verification/Transaction.thy ===== *)
theory Transaction
  imports Server_State
begin

text \<open>
  \<open>src/server/transactions/Transaction.{h,cpp}\<close> and the five kinds of transaction: the
  life of one transaction on one server.  A transaction works on a private copy of the
  server state and on temporary files; \<open>commit\<close> publishes both, \<open>rollback\<close> discards
  both.  The subclass of a \<open>Transaction\<close> object and its members are the datatype
  \<open>txn_kind\<close>; virtual methods are case distinctions on it.  The private copy is an
  optional state, \<open>None\<close> once it is deleted: using it then is undefined behaviour.
\<close>

datatype txn_kind =
    CreateUserTransaction (cu_username: string) (cu_password: string)
  | CreateSessionTransaction (cs_sessionID: int) (cs_username: string)
  | RemoveSessionTransaction (rs_sessionID: int)
  | FileChangeTransaction (fch_username: string) (fch_filename: string) (fch_deleted: bool)
      (fch_content: string)
  | NewFrontendTransaction (nf_hostname: string) (nf_port: int)

record transaction =
  t_kind :: txn_kind
  t_tid :: int
  t_work_state :: "server_state option"
  t_hasRollback :: bool
  t_is_committed :: bool
  t_has_began :: bool
  t_is_prepared :: bool

text \<open>The constructors leave the flags clear; \<open>tid\<close> is set before its first use.\<close>

definition new_transaction :: "txn_kind \<Rightarrow> transaction" where
  "new_transaction k =
     \<lparr>t_kind = k, t_tid = 0, t_work_state = None, t_hasRollback = False, t_is_committed = False,
      t_has_began = False, t_is_prepared = False\<rparr>"

text \<open>What a method of a transaction can reach: the disk, the shared state behind the
  write lock, and the object itself.  The managers extend this record.\<close>

record world =
  w_disk :: disk
  w_shared :: server_state
  w_txn :: transaction

datatype transaction_status = COMMITTED | ROLLBACK_STATUS | PREPARED | RUNNING | NOT_RUNNING

section \<open>Access to the object, its work state and the disk\<close>

definition getTxn :: "(transaction \<Rightarrow> 'b) \<Rightarrow> ('a world_scheme, 'b) cpp" where
  "getTxn f = getC (\<lambda>w. f (w_txn w))"

definition setTxn :: "(transaction \<Rightarrow> transaction) \<Rightarrow> ('a world_scheme, unit) cpp" where
  "setTxn f = modifyC (w_txn_update f)"

definition readWork :: "(server_state \<Rightarrow> 'b) \<Rightarrow> ('a world_scheme, 'b) cpp" where
  "readWork f w =
     (case t_work_state (w_txn w) of
        None \<Rightarrow> Undefined UseAfterFree
      | Some s \<Rightarrow> Returns (f s) w)"

definition updateWork :: "(server_state \<Rightarrow> server_state) \<Rightarrow> ('a world_scheme, unit) cpp" where
  "updateWork f w =
     (case t_work_state (w_txn w) of
        None \<Rightarrow> Undefined UseAfterFree
      | Some s \<Rightarrow> Returns () (w\<lparr>w_txn := w_txn w\<lparr>t_work_state := Some (f s)\<rparr>\<rparr>))"

text \<open>A call of \<open>std::filesystem\<close> that may throw, and one that does not.\<close>

definition tryDisk :: "(disk \<Rightarrow> disk option) \<Rightarrow> ('a world_scheme, unit) cpp" where
  "tryDisk f w = (case f (w_disk w) of None \<Rightarrow> Throws w | Some d \<Rightarrow> Returns () (w\<lparr>w_disk := d\<rparr>))"

definition onDisk :: "(disk \<Rightarrow> disk) \<Rightarrow> ('a world_scheme, unit) cpp" where
  "onDisk f = modifyC (w_disk_update f)"

section \<open>The paths of a transaction\<close>

definition tid_path :: "env \<Rightarrow> path" where
  "tid_path e = resolve (getTidPath e)"

definition tid_temp :: "env \<Rightarrow> path" where
  "tid_temp e = resolve (getTidPath e @ ''~'')"

definition user_path :: "env \<Rightarrow> string \<Rightarrow> path" where
  "user_path e u = resolve (getUserDir e u)"

definition user_temp :: "env \<Rightarrow> string \<Rightarrow> path" where
  "user_temp e u = resolve (getUserDir e u @ ''~'')"

definition password_temp :: "env \<Rightarrow> string \<Rightarrow> path" where
  "password_temp e u = resolve (getUserDir e u @ ''~/.password'')"

definition file_path :: "env \<Rightarrow> string \<Rightarrow> string \<Rightarrow> path" where
  "file_path e u n = resolve (getUserDir e u @ ''/'' @ n)"

definition file_temp :: "env \<Rightarrow> string \<Rightarrow> string \<Rightarrow> path" where
  "file_temp e u n = resolve (getUserDir e u @ ''/'' @ n @ ''~'')"

section \<open>rollback\<close>

definition rollbackCreateUser :: "env \<Rightarrow> string \<Rightarrow> ('a world_scheme, unit) cpp" where
  "rollbackCreateUser e u = onDisk (fs_remove_all (user_temp e u))"

definition rollbackFileChange :: "env \<Rightarrow> string \<Rightarrow> string \<Rightarrow> bool \<Rightarrow> ('a world_scheme, unit) cpp" where
  "rollbackFileChange e u n deleted =
     bindC (getC (\<lambda>w. fs_exists (w_disk w) (file_temp e u n))) (\<lambda>there.
       if deleted then whenC there (tryDisk (fs_rename (file_temp e u n) (file_path e u n)))
       else whenC there (tryDisk (fs_remove (file_temp e u n))))"

definition rollbackHook :: "env \<Rightarrow> txn_kind \<Rightarrow> ('a world_scheme, unit) cpp" where
  "rollbackHook e k =
     (case k of
        CreateUserTransaction u p \<Rightarrow> rollbackCreateUser e u
      | FileChangeTransaction u n deleted c \<Rightarrow> rollbackFileChange e u n deleted
      | _ \<Rightarrow> retC ())"

definition deleteWorkState :: "('a world_scheme, unit) cpp" where
  "deleteWorkState =
     seqC (readWork (\<lambda>_. ())) (setTxn (t_work_state_update (\<lambda>_. None)))"

definition rollback :: "env \<Rightarrow> ('a world_scheme, unit) cpp" where
  "rollback e =
     bindC (getTxn (\<lambda>t. t)) (\<lambda>t.
       if t_has_began t then
         (if t_hasRollback t then retC ()
          else seqC (setTxn (t_hasRollback_update (\<lambda>_. True)))
              (seqC (tryDisk (fs_remove (tid_temp e)))
                (seqC (rollbackHook e (t_kind t)) deleteWorkState)))
       else retC ())"

section \<open>execute\<close>

definition executeCreateUser :: "env \<Rightarrow> int \<Rightarrow> string \<Rightarrow> string \<Rightarrow> ('a world_scheme, unit) cpp" where
  "executeCreateUser e tid username password =
     seqC (whenC (username = [] \<or> password = []) (rollback e))
    (bindC (readWork (\<lambda>s. hasUser s username)) (\<lambda>exists.
     seqC (whenC exists (rollback e))
    (seqC (updateWork (addUser username password))
    (seqC (updateWork (setUserLastTid username tid))
    (seqC (tryDisk (fs_create_directory (user_temp e username)))
          (onDisk (fs_write (password_temp e username) password)))))))"

definition executeCreateSession :: "env \<Rightarrow> int \<Rightarrow> int \<Rightarrow> string \<Rightarrow> ('a world_scheme, unit) cpp" where
  "executeCreateSession e tid sessionID username =
     bindC (readWork (\<lambda>s. isSessionValid s sessionID)) (\<lambda>valid.
     seqC (whenC valid (rollback e))
    (bindC (readWork (\<lambda>s. hasUser s username)) (\<lambda>known.
     seqC (whenC (\<not> known) (rollback e))
    (seqC (updateWork (addSession sessionID username))
          (updateWork (setUserLastTid username tid))))))"

definition executeRemoveSession :: "env \<Rightarrow> int \<Rightarrow> int \<Rightarrow> ('a world_scheme, unit) cpp" where
  "executeRemoveSession e tid sessionID =
     bindC (readWork (\<lambda>s. isSessionValid s sessionID)) (\<lambda>valid.
       if \<not> valid then rollback e
       else seqC (updateWork (removeSession sessionID))
           (bindC (readWork (\<lambda>s. getUserFromSesssion s sessionID)) (\<lambda>user.
              updateWork (setUserLastTid user tid))))"

definition executeFileChange ::
  "env \<Rightarrow> int \<Rightarrow> string \<Rightarrow> string \<Rightarrow> bool \<Rightarrow> string \<Rightarrow> ('a world_scheme, unit) cpp" where
  "executeFileChange e tid username filename deleted content =
     (if deleted then
        bindC (readWork (\<lambda>s. hasFile s username filename)) (\<lambda>there.
          if there then
            seqC (updateWork (removeFile username filename))
              (tryDisk (fs_rename (file_path e username filename) (file_temp e username filename)))
          else rollback e)
      else
        seqC (onDisk (fs_write (file_temp e username filename) content))
       (bindC (getC (\<lambda>w. digest_to_string
                 (getFileDigest (env_xxh64 e) (w_disk w) (file_temp e username filename)))) (\<lambda>hash.
          let f = \<lparr>uf_filename = filename, uf_hash = hash, uf_last_tid = tid,
                   uf_size = to_int32 (int (length content)), uf_deleted = False\<rparr> in
          bindC (readWork (\<lambda>s. hasFile s username filename)) (\<lambda>there.
            if there then updateWork (updateFile username filename f)
            else updateWork (addFile username filename f)))))"

definition executeNewFrontend :: "string \<Rightarrow> int \<Rightarrow> ('a world_scheme, unit) cpp" where
  "executeNewFrontend hostname port = updateWork (addFrontend hostname port)"

definition execute :: "env \<Rightarrow> ('a world_scheme, unit) cpp" where
  "execute e =
     bindC (getTxn (\<lambda>t. t)) (\<lambda>t.
       case t_kind t of
         CreateUserTransaction u p \<Rightarrow> executeCreateUser e (t_tid t) u p
       | CreateSessionTransaction i u \<Rightarrow> executeCreateSession e (t_tid t) i u
       | RemoveSessionTransaction i \<Rightarrow> executeRemoveSession e (t_tid t) i
       | FileChangeTransaction u n del c \<Rightarrow> executeFileChange e (t_tid t) u n del c
       | NewFrontendTransaction h p \<Rightarrow> executeNewFrontend h p)"

section \<open>run, commit and the rest of the interface\<close>

definition begin_txn :: "env \<Rightarrow> ('a world_scheme, unit) cpp" where
  "begin_txn e =
     seqC (setTxn (t_has_began_update (\<lambda>_. True)))
    (bindC (getTxn t_tid) (\<lambda>tid. onDisk (fs_write (tid_temp e) (show_int tid))))"

definition prepareCommit :: "('a world_scheme, bool) cpp" where
  "prepareCommit =
     bindC (readWork isValid) (\<lambda>valid.
       if valid then seqC (setTxn (t_is_prepared_update (\<lambda>_. True))) (retC True)
       else retC False)"

definition run :: "env \<Rightarrow> ('a world_scheme, bool) cpp" where
  "run e =
     bindC (getTxn (\<lambda>t. t)) (\<lambda>t.
       if t_has_began t then throwC
       else seqC (begin_txn e)
           (seqC (catchC (seqC (updateWork (setLastTid (t_tid t))) (execute e)) (rollback e))
             (bindC (getTxn t_hasRollback) (\<lambda>rolled.
                if \<not> rolled then prepareCommit else retC False))))"

definition commitCreateUser :: "env \<Rightarrow> string \<Rightarrow> ('a world_scheme, unit) cpp" where
  "commitCreateUser e u = tryDisk (fs_rename (user_temp e u) (user_path e u))"

definition commitFileChange :: "env \<Rightarrow> string \<Rightarrow> string \<Rightarrow> bool \<Rightarrow> ('a world_scheme, unit) cpp" where
  "commitFileChange e u n deleted =
     (if deleted then tryDisk (fs_remove (file_temp e u n))
      else tryDisk (fs_rename (file_temp e u n) (file_path e u n)))"

definition commitHook :: "env \<Rightarrow> txn_kind \<Rightarrow> ('a world_scheme, unit) cpp" where
  "commitHook e k =
     (case k of
        CreateUserTransaction u p \<Rightarrow> commitCreateUser e u
      | FileChangeTransaction u n deleted c \<Rightarrow> commitFileChange e u n deleted
      | _ \<Rightarrow> retC ())"

definition publish :: "('a world_scheme, unit) cpp" where
  "publish = bindC (readWork (\<lambda>s. s)) (\<lambda>s. modifyC (w_shared_update (\<lambda>_. s)))"

definition commit :: "env \<Rightarrow> ('a world_scheme, bool) cpp" where
  "commit e =
     bindC (getTxn (\<lambda>t. t)) (\<lambda>t.
       if \<not> t_hasRollback t then
         (if \<not> t_is_prepared t then throwC
          else seqC (setTxn (t_is_committed_update (\<lambda>_. True)))
              (seqC (tryDisk (fs_remove (tid_path e)))
              (seqC (tryDisk (fs_rename (tid_temp e) (tid_path e)))
              (seqC (commitHook e (t_kind t))
              (seqC publish (retC True))))))
       else retC False)"

definition forceRollback :: "env \<Rightarrow> ('a world_scheme, unit) cpp" where
  "forceRollback e =
     bindC (getTxn t_is_committed) (\<lambda>committed. whenC (\<not> committed) (rollback e))"

definition setTid :: "int \<Rightarrow> ('a world_scheme, unit) cpp" where
  "setTid i = setTxn (t_tid_update (\<lambda>_. i))"

definition setState :: "('a world_scheme, int) cpp" where
  "setState =
     bindC (getC w_shared) (\<lambda>s. seqC (setTxn (t_work_state_update (\<lambda>_. Some s))) (retC 0))"

definition getStatus :: "transaction \<Rightarrow> transaction_status" where
  "getStatus t =
     (if t_is_committed t then COMMITTED
      else if t_hasRollback t then ROLLBACK_STATUS
      else if t_is_prepared t then PREPARED
      else if t_has_began t then RUNNING
      else NOT_RUNNING)"

end
