(* ===== verification/Transaction_Disk.thy ===== *)
theory Transaction_Disk
  imports Transaction
begin

text \<open>
  What the steps of a transaction do to the disk.  The staged files of a transaction
  (written by \<open>execute\<close>), the published files (after \<open>commitHook\<close>) and the discarded ones
  (after \<open>rollbackHook\<close>) are described by functions on the contents of the disk, a map
  from paths to entries; the lemmas show that the operations succeed and produce them.
\<close>

type_synonym view = "path \<Rightarrow> node option"

section \<open>The paths\<close>

text \<open>The configured directory ends with a slash, as in the example configuration.\<close>

definition env_ok :: "env \<Rightarrow> bool" where
  "env_ok e \<longleftrightarrow> env_serverDir e = [] \<or> last (env_serverDir e) = CHR ''/''"

definition servers_path :: "env \<Rightarrow> path" where
  "servers_path e = resolve (getServersDir e)"

text \<open>User names that name one directory and do not collide with the tid files.\<close>

definition user_name_ok :: "string \<Rightarrow> bool" where
  "user_name_ok u \<longleftrightarrow> plain_name u \<and> u \<noteq> ''tid'' \<and> u \<noteq> ''tid~''"

lemma env_ok_split:
  assumes "env_ok e"
  obtains b where "getServersDir e = b @ ''/''"
proof
  show "getServersDir e = butlast (getServersDir e) @ ''/''"
  proof (cases "env_serverDir e = []")
    case True
    then show ?thesis by (simp add: getServersDir_def butlast_append)
  next
    case False
    with assms have "env_serverDir e = butlast (env_serverDir e) @ ''/''"
      using append_butlast_last_id [OF False] by (simp add: env_ok_def)
    with False show ?thesis by (simp add: getServersDir_def butlast_append)
  qed
qed

lemma resolve_in_servers_dir:
  assumes "env_ok e" "plain_name w"
  shows "resolve (getServersDir e @ w) = servers_path e @ [w]"
proof -
  obtain b where b: "getServersDir e = b @ ''/''" using assms(1) by (rule env_ok_split)
  have "resolve (b @ ''/'') = resolve b"
    using resolve_append [of b "[]"] by (simp add: push_name_def)
  with b assms(2) show ?thesis
    using resolve_append_plain [of w b] by (simp add: servers_path_def)
qed

lemma plain_tid [simp]: "plain_name ''tid''" "plain_name ''tid~''" "plain_name ''.password''"
  by (simp_all add: plain_name_def)

lemma user_name_plain: "user_name_ok u \<Longrightarrow> plain_name u" "user_name_ok u \<Longrightarrow> plain_name (u @ ''~'')"
  by (simp_all add: user_name_ok_def plain_name_temp)

lemma txn_paths:
  assumes "env_ok e"
  shows "tid_path e = servers_path e @ [''tid'']"
    and "tid_temp e = servers_path e @ [''tid~'']"
    and "user_name_ok u \<Longrightarrow> user_path e u = servers_path e @ [u]"
    and "user_name_ok u \<Longrightarrow> user_temp e u = servers_path e @ [u @ ''~'']"
    and "user_name_ok u \<Longrightarrow> password_temp e u = servers_path e @ [u @ ''~'', ''.password'']"
    and "user_name_ok u \<Longrightarrow> plain_name n \<Longrightarrow> file_path e u n = servers_path e @ [u, n]"
    and "user_name_ok u \<Longrightarrow> plain_name n \<Longrightarrow> file_temp e u n = servers_path e @ [u, n @ ''~'']"
proof -
  note dir = resolve_in_servers_dir [OF assms]
  show "tid_path e = servers_path e @ [''tid'']" "tid_temp e = servers_path e @ [''tid~'']"
    using dir [of "''tid''"] dir [of "''tid~''"]
    by (simp_all add: tid_path_def tid_temp_def getTidPath_def)
  assume u: "user_name_ok u"
  show user: "user_path e u = servers_path e @ [u]" and temp: "user_temp e u = servers_path e @ [u @ ''~'']"
    using dir [of u] dir [of "u @ ''~''"] user_name_plain [OF u]
    by (simp_all add: user_path_def user_temp_def getUserDir_def)
  show "password_temp e u = servers_path e @ [u @ ''~'', ''.password'']"
    using resolve_append_plain [of "''.password''" "getUserDir e u @ ''~''"] temp
    by (simp add: password_temp_def user_temp_def)
  assume n: "plain_name n"
  show "file_path e u n = servers_path e @ [u, n]" "file_temp e u n = servers_path e @ [u, n @ ''~'']"
    using resolve_append_plain [of n "getUserDir e u"] user n
      resolve_append_plain [OF plain_name_temp [OF n], of "getUserDir e u"]
    by (simp_all add: file_path_def file_temp_def user_path_def)
qed

section \<open>Disks a transaction can start on\<close>

text \<open>Between transactions there is no temporary tid file.\<close>

definition disk_idle :: "env \<Rightarrow> disk \<Rightarrow> bool" where
  "disk_idle e d \<longleftrightarrow>
     fs_wf d \<and> fs_is_directory d (servers_path e) \<and>
     fs_lookup d (tid_path e) \<noteq> Some Dir \<and> fs_lookup d (tid_temp e) = None"

text \<open>The files that a transaction touches are as its code expects them.\<close>

definition kind_ready :: "env \<Rightarrow> view \<Rightarrow> txn_kind \<Rightarrow> bool" where
  "kind_ready e L k \<longleftrightarrow>
     (case k of
        CreateUserTransaction u p \<Rightarrow>
          user_name_ok u \<and> L (user_temp e u) = None \<and> L (user_path e u) = None
      | FileChangeTransaction u n deleted c \<Rightarrow>
          user_name_ok u \<and> plain_name n \<and> L (user_path e u) = Some Dir \<and>
          L (file_temp e u n) = None \<and>
          (if deleted then L (file_path e u n) \<noteq> None else True) \<and>
          L (file_path e u n) \<noteq> Some Dir
      | _ \<Rightarrow> True)"

section \<open>Staging, publishing and discarding\<close>

definition stage :: "env \<Rightarrow> txn_kind \<Rightarrow> disk \<Rightarrow> disk option" where
  "stage e k d =
     (case k of
        CreateUserTransaction u p \<Rightarrow>
          map_option (fs_write (password_temp e u) p) (fs_create_directory (user_temp e u) d)
      | FileChangeTransaction u n deleted c \<Rightarrow>
          if deleted then fs_rename (file_path e u n) (file_temp e u n) d
          else Some (fs_write (file_temp e u n) c d)
      | _ \<Rightarrow> Some d)"

definition staged_view :: "env \<Rightarrow> txn_kind \<Rightarrow> view \<Rightarrow> view" where
  "staged_view e k L =
     (case k of
        CreateUserTransaction u p \<Rightarrow>
          L(user_temp e u := Some Dir, user_temp e u @ [''.password''] := Some (File p))
      | FileChangeTransaction u n deleted c \<Rightarrow>
          if deleted then L(file_path e u n := None, file_temp e u n := L (file_path e u n))
          else L(file_temp e u n := Some (File c))
      | _ \<Rightarrow> L)"

text \<open>The contents of the disk after a commit, without the tid file.\<close>

definition published_view :: "env \<Rightarrow> txn_kind \<Rightarrow> view \<Rightarrow> view" where
  "published_view e k L =
     (case k of
        CreateUserTransaction u p \<Rightarrow>
          L(user_path e u := Some Dir, user_path e u @ [''.password''] := Some (File p))
      | FileChangeTransaction u n deleted c \<Rightarrow>
          L(file_path e u n := (if deleted then None else Some (File c)))
      | _ \<Rightarrow> L)"

definition publish_hook :: "env \<Rightarrow> txn_kind \<Rightarrow> disk \<Rightarrow> disk option" where
  "publish_hook e k d =
     (case k of
        CreateUserTransaction u p \<Rightarrow> fs_rename (user_temp e u) (user_path e u) d
      | FileChangeTransaction u n deleted c \<Rightarrow>
          if deleted then fs_remove (file_temp e u n) d
          else fs_rename (file_temp e u n) (file_path e u n) d
      | _ \<Rightarrow> Some d)"

definition discard_hook :: "env \<Rightarrow> txn_kind \<Rightarrow> disk \<Rightarrow> disk option" where
  "discard_hook e k d =
     (case k of
        CreateUserTransaction u p \<Rightarrow> Some (fs_remove_all (user_temp e u) d)
      | FileChangeTransaction u n deleted c \<Rightarrow>
          if fs_exists d (file_temp e u n)
          then (if deleted then fs_rename (file_temp e u n) (file_path e u n) d
                else fs_remove (file_temp e u n) d)
          else Some d
      | _ \<Rightarrow> Some d)"

lemma fs_below_absent:
  assumes "fs_wf d" "fs_lookup d p \<noteq> Some Dir"
  shows "s \<noteq> [] \<Longrightarrow> fs_lookup d (p @ s) = None"
  using assms by (rule fs_wf_only_dir)

lemma fs_create_directory_ok:
  "fs_lookup d p = None \<Longrightarrow> fs_is_directory d (butlast p) \<Longrightarrow>
    fs_create_directory p d = Some (sm_assign p Dir d)"
  by (simp add: fs_create_directory_def)

lemma stage_file_write:
  assumes "env_ok e" "fs_wf d" "kind_ready e (fs_lookup d) (FileChangeTransaction u n False c)"
  shows "fs_lookup (fs_write (file_temp e u n) c d) = (fs_lookup d)(file_temp e u n := Some (File c))"
proof
  fix r
  have "file_temp e u n = user_path e u @ [n @ ''~'']"
    using assms by (simp add: kind_ready_def txn_paths)
  with assms show "fs_lookup (fs_write (file_temp e u n) c d) r =
      ((fs_lookup d)(file_temp e u n := Some (File c))) r"
    by (simp add: fs_lookup_write kind_ready_def fs_is_directory_def)
qed

lemma stage_ok:
  assumes "env_ok e" "fs_wf d" "fs_is_directory d (servers_path e)" "kind_ready e (fs_lookup d) k"
  shows "\<exists>d'. stage e k d = Some d' \<and> fs_wf d' \<and> fs_lookup d' = staged_view e k (fs_lookup d)"
proof (cases k)
  case (CreateUserTransaction u p)
  have u: "user_name_ok u" and none: "fs_lookup d (user_temp e u) = None"
    using assms(4) CreateUserTransaction by (simp_all add: kind_ready_def)
  have dir: "fs_is_directory d (butlast (user_temp e u))"
    using assms(1,3) u by (simp add: txn_paths)
  let ?d1 = "sm_assign (user_temp e u) Dir d"
  have mk: "fs_create_directory (user_temp e u) d = Some ?d1"
    using none dir by (rule fs_create_directory_ok)
  have wf1: "fs_wf ?d1" by (rule fs_wf_create_directory [OF assms(2) mk])
  have l1: "fs_lookup ?d1 r = (if r = user_temp e u then Some Dir else fs_lookup d r)" for r
    using assms(2) mk by (intro fs_lookup_create_directory) simp_all
  have pw: "password_temp e u = user_temp e u @ [''.password'']"
    using assms(1) u by (simp add: txn_paths)
  have absent: "fs_lookup d (user_temp e u @ [''.password'']) = None"
    by (rule fs_wf_only_dir [OF assms(2)]) (simp_all add: none)
  have "fs_lookup (fs_write (password_temp e u) p ?d1) r =
      (if r = password_temp e u then Some (File p) else fs_lookup ?d1 r)" for r
    using wf1 by (intro fs_lookup_write) (simp_all add: pw l1 absent fs_is_directory_def)
  then have "fs_lookup (fs_write (password_temp e u) p ?d1) = staged_view e k (fs_lookup d)"
    by (auto simp: CreateUserTransaction staged_view_def l1 pw)
  with mk wf1 show ?thesis
    by (simp add: CreateUserTransaction stage_def fs_wf_write)
next
  case (FileChangeTransaction u n deleted c)
  note ready = assms(4) [unfolded FileChangeTransaction]
  show ?thesis
  proof (cases deleted)
    case False
    with ready stage_file_write [OF assms(1,2)] show ?thesis
      by (simp add: FileChangeTransaction stage_def staged_view_def fs_wf_write assms(2))
  next
    case True
    have u: "user_name_ok u" "plain_name n" using ready by (auto simp: kind_ready_def)
    obtain c' where c': "fs_lookup d (file_path e u n) = Some (File c')"
      using ready True by (cases "fs_lookup d (file_path e u n)" rule: option.exhaust)
        (auto simp: kind_ready_def, metis node.exhaust)
    have ne: "file_path e u n \<noteq> file_temp e u n" "file_temp e u n \<noteq> []"
      "butlast (file_temp e u n) = user_path e u"
      using assms(1) u by (simp_all add: txn_paths butlast_append)
    obtain d' where "fs_rename (file_path e u n) (file_temp e u n) d = Some d'"
      "\<And>r. fs_lookup d' r = (if r = file_temp e u n then Some (File c')
          else if r = file_path e u n then None else fs_lookup d r)"
      by (rule fs_rename_file [OF assms(2) c' ne(1,2)])
        (use ready ne in \<open>auto simp: kind_ready_def fs_is_directory_def\<close>)
    with True c' ne show ?thesis
      using fs_wf_rename [OF assms(2)]
      by (auto simp: FileChangeTransaction stage_def staged_view_def)
  qed
qed (use assms in \<open>simp_all add: stage_def staged_view_def\<close>)

text \<open>A well-formed disk is determined by its contents.\<close>

lemma fs_wf_inject:
  assumes "fs_wf d" "fs_wf b" "fs_lookup d = fs_lookup b"
  shows "d = b"
proof (rule sm.entries_inject)
  show "sm_find d p = sm_find b p" for p
    using assms(1,2) fun_cong [OF assms(3), of p] by (cases "p = []") (simp_all add: fs_wf_root fs_lookup_def)
qed (use assms in auto)

lemma view_is_file:
  "fs_lookup d p \<noteq> None \<Longrightarrow> fs_lookup d p \<noteq> Some Dir \<Longrightarrow> \<exists>c. fs_lookup d p = Some (File c)"
  by (metis node.exhaust option.exhaust)

lemma file_change_paths:
  assumes "env_ok e" "kind_ready e L (FileChangeTransaction u n deleted c)"
  shows "file_path e u n \<noteq> file_temp e u n" "file_path e u n \<noteq> []" "file_temp e u n \<noteq> []"
    "butlast (file_path e u n) = user_path e u" "butlast (file_temp e u n) = user_path e u"
    "user_path e u \<noteq> file_path e u n" "user_path e u \<noteq> file_temp e u n"
  using assms by (simp_all add: kind_ready_def txn_paths butlast_append)

lemma publish_user:
  assumes "env_ok e" "fs_wf d" "fs_wf b" "fs_is_directory b (servers_path e)"
    "kind_ready e (fs_lookup b) (CreateUserTransaction u p)"
    "fs_lookup d = staged_view e (CreateUserTransaction u p) (fs_lookup b)"
  shows "\<exists>d'. fs_rename (user_temp e u) (user_path e u) d = Some d' \<and> fs_wf d' \<and>
    fs_lookup d' = published_view e (CreateUserTransaction u p) (fs_lookup b)"
proof -
  let ?t = "user_temp e u" and ?q = "user_path e u"
  have u: "user_name_ok u" and none: "fs_lookup b ?t = None" "fs_lookup b ?q = None"
    using assms(5) by (simp_all add: kind_ready_def)
  have p: "?q = servers_path e @ [u]" "?t = servers_path e @ [u @ ''~'']"
    using assms(1) u by (simp_all add: txn_paths)
  have L: "fs_lookup d r = (if r = ?t @ [''.password''] then Some (File p) else if r = ?t then Some Dir
      else fs_lookup b r)" for r
    using assms(6) by (simp add: staged_view_def)
  have below: "fs_lookup b (?t @ s) = None" "fs_lookup b (?q @ s) = None" for s
    using fs_wf_only_dir [OF assms(3), of ?t s] fs_wf_only_dir [OF assms(3), of ?q s] none
    by (cases s; simp)+
  have can: "fs_can_rename ?t ?q d"
    using assms(4) none by (simp add: fs_can_rename_def L p fs_is_directory_def strict_prefix_def)
  then obtain d' where d': "fs_rename ?t ?q d = Some d'"
    using fs_rename_total by blast
  have ne: "?t \<noteq> ?q" by (simp add: p)
  have "fs_lookup d' r = published_view e (CreateUserTransaction u p) (fs_lookup b) r" for r
  proof (cases "prefix ?q r")
    case True
    then obtain s where r: "r = ?q @ s" by (rule prefixE)
    then show ?thesis
      using below(2) [of s] fs_lookup_rename [OF assms(2) d' ne, of r] below(1) [of s]
      by (auto simp: L published_view_def)
  next
    case False
    then have "r \<noteq> ?q" "r \<noteq> ?q @ [''.password'']" by auto
    moreover have "fs_lookup b r = None" if "prefix ?t r"
      using that below(1) by (auto elim: prefixE)
    moreover have "fs_lookup d r = fs_lookup b r" if "\<not> prefix ?t r"
      using that by (auto simp: L)
    ultimately show ?thesis
      using False fs_lookup_rename [OF assms(2) d' ne, of r] by (auto simp: published_view_def)
  qed
  with d' fs_wf_rename [OF assms(2) d'] show ?thesis by blast
qed

lemma publish_ok:
  assumes "env_ok e" "fs_wf d" "fs_wf b" "fs_is_directory b (servers_path e)"
    "kind_ready e (fs_lookup b) k" "fs_lookup d = staged_view e k (fs_lookup b)"
  shows "\<exists>d'. publish_hook e k d = Some d' \<and> fs_wf d' \<and> fs_lookup d' = published_view e k (fs_lookup b)"
proof (cases k)
  case (CreateUserTransaction u p)
  with publish_user [of e d b u p] assms show ?thesis by (simp add: publish_hook_def)
next
  case (FileChangeTransaction u n deleted c)
  note ready = assms(5) [unfolded FileChangeTransaction]
  note paths = file_change_paths [OF assms(1) ready]
  show ?thesis
  proof (cases deleted)
    case True
    then obtain c' where c': "fs_lookup b (file_path e u n) = Some (File c')"
      using ready view_is_file [of b "file_path e u n"] by (auto simp: kind_ready_def)
    with True paths have "fs_lookup d (file_temp e u n) \<noteq> Some Dir"
      by (simp add: assms(6) FileChangeTransaction staged_view_def)
    then obtain d' where d': "fs_remove (file_temp e u n) d = Some d'"
      using fs_remove_file by blast
    have "fs_lookup d' = published_view e k (fs_lookup b)"
      using True ready paths
      by (auto simp: fs_lookup_remove [OF d'] assms(6) FileChangeTransaction staged_view_def
          published_view_def kind_ready_def)
    with True d' fs_wf_remove [OF assms(2) d'] show ?thesis
      by (simp add: FileChangeTransaction publish_hook_def)
  next
    case False
    have c: "fs_lookup d (file_temp e u n) = Some (File c)"
      using False by (simp add: assms(6) FileChangeTransaction staged_view_def)
    obtain d' where d': "fs_rename (file_temp e u n) (file_path e u n) d = Some d'"
      "\<And>r. fs_lookup d' r = (if r = file_path e u n then Some (File c)
          else if r = file_temp e u n then None else fs_lookup d r)"
      by (rule fs_rename_file [OF assms(2) c])
        (use False ready paths in \<open>auto simp: kind_ready_def fs_is_directory_def assms(6)
          FileChangeTransaction staged_view_def\<close>)
    have "fs_lookup d' = published_view e k (fs_lookup b)"
      using False ready paths
      by (auto simp: d'(2) assms(6) FileChangeTransaction staged_view_def published_view_def kind_ready_def)
    with False d' fs_wf_rename [OF assms(2) d'(1)] show ?thesis
      by (simp add: FileChangeTransaction publish_hook_def)
  qed
qed (use assms in \<open>simp_all add: publish_hook_def published_view_def staged_view_def\<close>)

lemma discard_view:
  assumes "env_ok e" "fs_wf d" "fs_wf b" "kind_ready e (fs_lookup b) k"
    "fs_lookup d = staged_view e k (fs_lookup b)"
  shows "\<exists>d'. discard_hook e k d = Some d' \<and> fs_wf d' \<and> fs_lookup d' = fs_lookup b"
proof (cases k)
  case (CreateUserTransaction u p)
  then have u: "user_name_ok u" and none: "fs_lookup b (user_temp e u) = None"
    using assms(4) by (simp_all add: kind_ready_def)
  have ne: "user_temp e u \<noteq> []" using assms(1) u by (simp add: txn_paths)
  have below: "fs_lookup b r = None" if "prefix (user_temp e u) r" for r
  proof -
    from that obtain s where "r = user_temp e u @ s" by (rule prefixE)
    with fs_wf_only_dir [OF assms(3), of "user_temp e u" s] none show ?thesis by (cases s) auto
  qed
  have "fs_lookup (fs_remove_all (user_temp e u) d) = fs_lookup b"
    using below by (auto simp: fs_lookup_remove_all ne assms(5) CreateUserTransaction staged_view_def)
  with CreateUserTransaction show ?thesis
    by (simp add: discard_hook_def fs_wf_remove_all assms(2) ne)
next
  case (FileChangeTransaction u n deleted c)
  note ready = assms(4) [unfolded FileChangeTransaction]
  note paths = file_change_paths [OF assms(1) ready]
  show ?thesis
  proof (cases deleted)
    case True
    then obtain c' where c': "fs_lookup b (file_path e u n) = Some (File c')"
      using ready view_is_file [of b "file_path e u n"] by (auto simp: kind_ready_def)
    with True have t: "fs_lookup d (file_temp e u n) = Some (File c')"
      by (simp add: assms(5) FileChangeTransaction staged_view_def)
    obtain d' where d': "fs_rename (file_temp e u n) (file_path e u n) d = Some d'"
      "\<And>r. fs_lookup d' r = (if r = file_path e u n then Some (File c')
          else if r = file_temp e u n then None else fs_lookup d r)"
      by (rule fs_rename_file [OF assms(2) t])
        (use True ready paths in \<open>auto simp: kind_ready_def fs_is_directory_def assms(5)
          FileChangeTransaction staged_view_def\<close>)
    have "fs_lookup d' = fs_lookup b"
      using True ready paths c'
      by (auto simp: d'(2) assms(5) FileChangeTransaction staged_view_def kind_ready_def)
    with True t d' fs_wf_rename [OF assms(2) d'(1)] show ?thesis
      by (simp add: FileChangeTransaction discard_hook_def fs_exists_def)
  next
    case False
    have t: "fs_lookup d (file_temp e u n) = Some (File c)"
      using False by (simp add: assms(5) FileChangeTransaction staged_view_def)
    then obtain d' where d': "fs_remove (file_temp e u n) d = Some d'"
      using fs_remove_file [of d "file_temp e u n"] by auto
    have "fs_lookup d' = fs_lookup b"
      using False ready
      by (auto simp: fs_lookup_remove [OF d'] assms(5) FileChangeTransaction staged_view_def kind_ready_def)
    with False t d' fs_wf_remove [OF assms(2) d'] show ?thesis
      by (simp add: FileChangeTransaction discard_hook_def fs_exists_def)
  qed
qed (use assms in \<open>simp_all add: discard_hook_def staged_view_def\<close>)

lemma discard_ok:
  assumes "env_ok e" "fs_wf d" "fs_wf b" "kind_ready e (fs_lookup b) k"
    "fs_lookup d = staged_view e k (fs_lookup b)"
  shows "discard_hook e k d = Some b"
  using discard_view [OF assms] fs_wf_inject [OF _ assms(3)] by auto

end
