(* ===== verification/Transaction_Run.thy ===== *)
theory Transaction_Run
  imports Transaction_Disk
begin

text \<open>
  What \<open>run\<close>, \<open>commit\<close> and \<open>rollback\<close> do.  \<open>txn_effect\<close> is the abstract meaning of a
  transaction: a partial function on server states, undefined when the transaction is
  refused.  A transaction that is accepted prepares with its effect in the work state and
  its files staged; \<open>commit\<close> publishes both and \<open>rollback\<close> restores the disk.
\<close>

section \<open>The abstract meaning\<close>

definition the_file :: "env \<Rightarrow> int \<Rightarrow> string \<Rightarrow> string \<Rightarrow> user_file" where
  "the_file e tid n c =
     \<lparr>uf_filename = n, uf_hash = content_hash (env_xxh64 e) c, uf_last_tid = tid,
      uf_size = to_int32 (int (length c)), uf_deleted = False\<rparr>"

definition kind_effect :: "env \<Rightarrow> int \<Rightarrow> txn_kind \<Rightarrow> server_state \<Rightarrow> server_state option" where
  "kind_effect e tid k s =
     (case k of
        CreateUserTransaction u p \<Rightarrow>
          if u = [] \<or> p = [] \<or> hasUser s u then None
          else Some (setUserLastTid u tid (addUser u p s))
      | CreateSessionTransaction i u \<Rightarrow>
          if isSessionValid s i \<or> \<not> hasUser s u then None
          else Some (setUserLastTid u tid (addSession i u s))
      | RemoveSessionTransaction i \<Rightarrow>
          if \<not> isSessionValid s i then None
          else Some (setUserLastTid [] tid (removeSession i s))
      | FileChangeTransaction u n deleted c \<Rightarrow>
          if deleted then (if hasFile s u n then Some (removeFile u n s) else None)
          else Some (if hasFile s u n then updateFile u n (the_file e tid n c) s
                     else addFile u n (the_file e tid n c) s)
      | NewFrontendTransaction h p \<Rightarrow> Some (addFrontend h p s))"

definition txn_effect :: "env \<Rightarrow> int \<Rightarrow> txn_kind \<Rightarrow> server_state \<Rightarrow> server_state option" where
  "txn_effect e tid k s = kind_effect e tid k (setLastTid tid s)"

text \<open>The kinds whose \<open>execute\<close> returns at once after a \<open>rollback\<close>.\<close>

definition refuses_cleanly :: "txn_kind \<Rightarrow> bool" where
  "refuses_cleanly k \<longleftrightarrow>
     (case k of RemoveSessionTransaction i \<Rightarrow> True | FileChangeTransaction u n deleted c \<Rightarrow> True | _ \<Rightarrow> False)"

section \<open>Executing the primitives\<close>

lemma getTxn_simp [cpp_simps]: "getTxn f w = Returns (f (w_txn w)) w"
  and setTxn_simp [cpp_simps]: "setTxn g w = Returns () (w\<lparr>w_txn := g (w_txn w)\<rparr>)"
  and onDisk_simp [cpp_simps]: "onDisk h w = Returns () (w\<lparr>w_disk := h (w_disk w)\<rparr>)"
  by (simp_all add: getTxn_def setTxn_def onDisk_def cpp_simps)

lemma work_simps [cpp_simps]:
  "t_work_state (w_txn w) = Some s \<Longrightarrow> readWork f w = Returns (f s) w"
  "t_work_state (w_txn w) = None \<Longrightarrow> readWork f w = Undefined UseAfterFree"
  "t_work_state (w_txn w) = Some s \<Longrightarrow>
     updateWork g w = Returns () (w\<lparr>w_txn := w_txn w\<lparr>t_work_state := Some (g s)\<rparr>\<rparr>)"
  "t_work_state (w_txn w) = None \<Longrightarrow> updateWork g w = Undefined UseAfterFree"
  by (simp_all add: readWork_def updateWork_def)

lemma tryDisk_simps [cpp_simps]:
  "f (w_disk w) = Some d \<Longrightarrow> tryDisk f w = Returns () (w\<lparr>w_disk := d\<rparr>)"
  "f (w_disk w) = None \<Longrightarrow> tryDisk f w = Throws w"
  by (simp_all add: tryDisk_def)

text \<open>The hooks are the operations of \<^theory_text>\<open>Transaction_Disk\<close>.\<close>

lemma commitHook_disk: "commitHook e k = tryDisk (publish_hook e k)"
  by (rule ext, cases k) (auto simp: commitHook_def commitCreateUser_def commitFileChange_def publish_hook_def tryDisk_def cpp_simps)

lemma rollbackHook_disk: "rollbackHook e k = tryDisk (discard_hook e k)"
  by (rule ext, cases k)
    (auto simp: rollbackHook_def rollbackCreateUser_def rollbackFileChange_def discard_hook_def tryDisk_def cpp_simps onDisk_def bindC_def whenC_def)

section \<open>execute\<close>

text \<open>A running transaction with a work state.\<close>

definition running :: "'a world_scheme \<Rightarrow> txn_kind \<Rightarrow> int \<Rightarrow> server_state \<Rightarrow> bool" where
  "running w k tid s \<longleftrightarrow>
     t_kind (w_txn w) = k \<and> t_tid (w_txn w) = tid \<and> t_work_state (w_txn w) = Some s \<and>
     t_has_began (w_txn w) \<and> \<not> t_hasRollback (w_txn w) \<and> \<not> t_is_committed (w_txn w)"

definition set_work :: "server_state option \<Rightarrow> 'a world_scheme \<Rightarrow> 'a world_scheme" where
  "set_work s w = w\<lparr>w_txn := w_txn w\<lparr>t_work_state := s\<rparr>\<rparr>"

lemma getUser_removed: "getUserFromSesssion (removeSession i s) i = []"
  by (simp add: getUserFromSesssion_def removeSession_def)

lemma execute_accepts:
  assumes "env_ok e" "running w k tid s" "fs_wf (w_disk w)" "fs_is_directory (w_disk w) (servers_path e)"
    and "kind_ready e (fs_lookup (w_disk w)) k" "kind_effect e tid k s = Some s'"
  shows "\<exists>d. stage e k (w_disk w) = Some d \<and>
    execute e w = Returns () (set_work (Some s') (w\<lparr>w_disk := d\<rparr>))"
proof -
  obtain d where d: "stage e k (w_disk w) = Some d"
    using stage_ok [OF assms(1,3,4,5)] by blast
  note run = assms(2) [unfolded running_def]
  show ?thesis
  proof (cases k)
    case (CreateUserTransaction u p)
    then obtain d1 where d1: "fs_create_directory (user_temp e u) (w_disk w) = Some d1"
      "d = fs_write (password_temp e u) p d1"
      using d by (auto simp: stage_def)
    with CreateUserTransaction run assms(6) d show ?thesis
      by (auto simp: execute_def executeCreateUser_def kind_effect_def set_work_def cpp_simps
          split: if_splits)
  next
    case (CreateSessionTransaction i u)
    with run assms(6) d show ?thesis
      by (auto simp: execute_def executeCreateSession_def kind_effect_def set_work_def stage_def
          cpp_simps split: if_splits)
  next
    case (RemoveSessionTransaction i)
    with run assms(6) d show ?thesis
      by (auto simp: execute_def executeRemoveSession_def kind_effect_def set_work_def stage_def
          getUser_removed cpp_simps split: if_splits)
  next
    case (FileChangeTransaction u n deleted c)
    show ?thesis
    proof (cases deleted)
      case True
      with FileChangeTransaction run assms(6) d show ?thesis
        by (auto simp: execute_def executeFileChange_def kind_effect_def set_work_def stage_def
            cpp_simps split: if_splits)
    next
      case False
      with FileChangeTransaction d have "d = fs_write (file_temp e u n) c (w_disk w)"
        by (simp add: stage_def)
      moreover from this have "fs_lookup d (file_temp e u n) = Some (File c)"
        using False FileChangeTransaction assms(5) stage_file_write [OF assms(1,3), of u n c] by simp
      ultimately show ?thesis
        using False FileChangeTransaction run assms(6) d
        by (auto simp: execute_def executeFileChange_def kind_effect_def set_work_def the_file_def
            digest_of_file cpp_simps Let_def split: if_splits)
    qed
  next
    case (NewFrontendTransaction h p)
    with run assms(6) d show ?thesis
      by (auto simp: execute_def executeNewFrontend_def kind_effect_def set_work_def stage_def cpp_simps)
  qed
qed

section \<open>The tid files do not meet the files of a transaction\<close>

lemma tid_paths_differ:
  assumes "env_ok e" "q = tid_path e \<or> q = tid_temp e" "user_name_ok u"
  shows "user_path e u \<noteq> q" "user_temp e u \<noteq> q" "user_path e u @ [w] \<noteq> q" "user_temp e u @ [w] \<noteq> q"
    "plain_name n \<Longrightarrow> file_path e u n \<noteq> q" "plain_name n \<Longrightarrow> file_temp e u n \<noteq> q"
proof -
  have "u @ ''~'' \<noteq> ''tid''" by (cases u rule: rev_cases) auto
  moreover have "u @ ''~'' \<noteq> ''tid~''"
    using assms(3) append_same_eq [of u "''~''" "''tid''"] by (simp add: user_name_ok_def)
  moreover have "u \<noteq> ''tid''" "u \<noteq> ''tid~''" using assms(3) by (auto simp: user_name_ok_def)
  ultimately show "user_path e u \<noteq> q" "user_temp e u \<noteq> q" "user_path e u @ [w] \<noteq> q"
    "user_temp e u @ [w] \<noteq> q" "plain_name n \<Longrightarrow> file_path e u n \<noteq> q" "plain_name n \<Longrightarrow> file_temp e u n \<noteq> q"
    using assms by (auto simp: txn_paths)
qed

lemma tid_path_neq_temp: "env_ok e \<Longrightarrow> tid_path e \<noteq> tid_temp e"
  by (simp add: txn_paths)

lemma kind_ready_tid:
  assumes "env_ok e" "q = tid_path e \<or> q = tid_temp e"
  shows "kind_ready e (L(q := x)) k \<longleftrightarrow> kind_ready e L k"
proof (cases k)
  case (CreateUserTransaction u p)
  then show ?thesis
    by (cases "user_name_ok u") (simp_all add: kind_ready_def tid_paths_differ [OF assms])
next
  case (FileChangeTransaction u n deleted c)
  then show ?thesis
    by (cases "user_name_ok u \<and> plain_name n") (auto simp: kind_ready_def tid_paths_differ [OF assms])
qed (simp_all add: kind_ready_def)

lemma staged_view_tid:
  assumes "env_ok e" "q = tid_path e \<or> q = tid_temp e" "kind_ready e L k"
  shows "staged_view e k (L(q := x)) = (staged_view e k L)(q := x)"
    and "published_view e k (L(q := x)) = (published_view e k L)(q := x)"
proof -
  have "staged_view e k (L(q := x)) = (staged_view e k L)(q := x) \<and>
    published_view e k (L(q := x)) = (published_view e k L)(q := x)"
  proof (cases k)
    case (CreateUserTransaction u p)
    with assms(3) have "user_name_ok u" by (simp add: kind_ready_def)
    note differ = tid_paths_differ [OF assms(1,2) this]
    show ?thesis
      by (auto simp: CreateUserTransaction staged_view_def published_view_def fun_eq_iff differ)
  next
    case (FileChangeTransaction u n deleted c)
    with assms(3) have "user_name_ok u" and n: "plain_name n" by (simp_all add: kind_ready_def)
    note differ = tid_paths_differ(5,6) [OF assms(1,2) this(1) n]
    show ?thesis
      by (auto simp: FileChangeTransaction staged_view_def published_view_def fun_eq_iff differ)
  qed (simp_all add: staged_view_def published_view_def)
  then show "staged_view e k (L(q := x)) = (staged_view e k L)(q := x)"
    and "published_view e k (L(q := x)) = (published_view e k L)(q := x)" by auto
qed

lemmas published_view_tid = staged_view_tid(2)

lemma staged_view_at_tid:
  assumes "env_ok e" "q = tid_path e \<or> q = tid_temp e" "kind_ready e L k"
  shows "staged_view e k L q = L q"
  using fun_cong [OF staged_view_tid(1) [OF assms, of "L q"], of q] by simp

lemma disk_idle_begin:
  assumes "env_ok e" "disk_idle e d"
  shows "fs_wf (fs_write (tid_temp e) c d)"
    "fs_lookup (fs_write (tid_temp e) c d) = (fs_lookup d)(tid_temp e := Some (File c))"
    "fs_is_directory (fs_write (tid_temp e) c d) (servers_path e)"
proof -
  show "fs_wf (fs_write (tid_temp e) c d)"
    using assms by (simp add: disk_idle_def fs_wf_write)
  show l: "fs_lookup (fs_write (tid_temp e) c d) = (fs_lookup d)(tid_temp e := Some (File c))"
    by (rule ext, subst fs_lookup_write) (use assms in \<open>auto simp: disk_idle_def txn_paths\<close>)
  show "fs_is_directory (fs_write (tid_temp e) c d) (servers_path e)"
    using assms by (simp add: fs_is_directory_def l disk_idle_def) (simp add: txn_paths)
qed

section \<open>run\<close>

definition fresh :: "'a world_scheme \<Rightarrow> txn_kind \<Rightarrow> int \<Rightarrow> server_state \<Rightarrow> bool" where
  "fresh w k tid s \<longleftrightarrow>
     w_txn w = (new_transaction k)\<lparr>t_tid := tid, t_work_state := Some s\<rparr>"

definition prepared_txn :: "txn_kind \<Rightarrow> int \<Rightarrow> server_state \<Rightarrow> transaction" where
  "prepared_txn k tid s =
     (new_transaction k)\<lparr>t_tid := tid, t_work_state := Some s, t_has_began := True, t_is_prepared := True\<rparr>"

definition tid_text :: "int \<Rightarrow> node option" where
  "tid_text tid = Some (File (show_int tid))"

text \<open>The contents of the disk while a transaction is prepared.\<close>

definition prepared_view :: "env \<Rightarrow> txn_kind \<Rightarrow> int \<Rightarrow> view \<Rightarrow> view" where
  "prepared_view e k tid L = (staged_view e k L)(tid_temp e := tid_text tid)"

text \<open>The contents of the disk after a commit.\<close>

definition committed_view :: "env \<Rightarrow> txn_kind \<Rightarrow> int \<Rightarrow> view \<Rightarrow> view" where
  "committed_view e k tid L = (published_view e k L)(tid_path e := tid_text tid)"

lemma isValid_True [simp]: "isValid s"
  by (simp add: isValid_def)

lemma run_prepares:
  assumes "env_ok e" "fresh w k tid s" "disk_idle e (w_disk w)"
    and "kind_ready e (fs_lookup (w_disk w)) k" "txn_effect e tid k s = Some s'"
  shows "\<exists>d. run e w = Returns True (w\<lparr>w_disk := d, w_txn := prepared_txn k tid s'\<rparr>) \<and>
    fs_wf d \<and> fs_lookup d = prepared_view e k tid (fs_lookup (w_disk w))"
proof -
  let ?d1 = "fs_write (tid_temp e) (show_int tid) (w_disk w)"
  let ?t1 = "(new_transaction k)\<lparr>t_tid := tid, t_work_state := Some (setLastTid tid s), t_has_began := True\<rparr>"
  let ?w1 = "w\<lparr>w_disk := ?d1, w_txn := ?t1\<rparr>"
  note b = disk_idle_begin [OF assms(1,3), of "show_int tid"]
  have ready: "kind_ready e (fs_lookup ?d1) k"
    using assms(1,4) by (simp add: b(2) kind_ready_tid)
  have running: "running ?w1 k tid (setLastTid tid s)"
    by (simp add: running_def new_transaction_def)
  obtain d where d: "stage e k ?d1 = Some d"
    and ex: "execute e ?w1 = Returns () (set_work (Some s') (?w1\<lparr>w_disk := d\<rparr>))"
    using execute_accepts [OF assms(1) running _ _ _ assms(5) [unfolded txn_effect_def]] b ready by auto
  have "fs_wf d" "fs_lookup d = staged_view e k (fs_lookup ?d1)"
    using stage_ok [OF assms(1) b(1) b(3) ready] d by auto
  moreover have "run e w = Returns True (w\<lparr>w_disk := d, w_txn := prepared_txn k tid s'\<rparr>)"
    using assms(2) ex
    by (cases w) (simp add: run_def begin_txn_def prepareCommit_def cpp_simps fresh_def new_transaction_def
        set_work_def prepared_txn_def)
  ultimately show ?thesis
    using assms(1,4) by (auto simp: b(2) staged_view_tid prepared_view_def tid_text_def)
qed

section \<open>commit\<close>

text \<open>Replacing the tid file by the temporary one.\<close>

lemma rotate_tid:
  assumes "env_ok e" "fs_wf d" "fs_lookup d (tid_temp e) = Some (File t)"
    and "fs_lookup d (tid_path e) \<noteq> Some Dir" "fs_lookup d (servers_path e) = Some Dir"
  obtains d1 d2 where "fs_remove (tid_path e) d = Some d1"
    and "fs_rename (tid_temp e) (tid_path e) d1 = Some d2" and "fs_wf d2"
    and "fs_lookup d2 = (fs_lookup d)(tid_temp e := None, tid_path e := Some (File t))"
proof -
  have ne: "tid_path e \<noteq> tid_temp e" using assms(1) by (rule tid_path_neq_temp)
  obtain d1 where d1: "fs_remove (tid_path e) d = Some d1"
    using fs_remove_file assms(4) by blast
  note l1 = fs_lookup_remove [OF d1] and wf1 = fs_wf_remove [OF assms(2) d1]
  obtain d2 where d2: "fs_rename (tid_temp e) (tid_path e) d1 = Some d2"
    and l2: "\<And>r. fs_lookup d2 r = (if r = tid_path e then Some (File t)
        else if r = tid_temp e then None else fs_lookup d1 r)"
    by (rule fs_rename_file [OF wf1, of "tid_temp e" t "tid_path e"])
      (use ne assms in \<open>auto simp: l1 fs_is_directory_def txn_paths\<close>)
  have "fs_lookup d2 = (fs_lookup d)(tid_temp e := None, tid_path e := Some (File t))"
    using ne by (auto simp: l2 l1)
  with d1 d2 fs_wf_rename [OF wf1 d2] show ?thesis by (intro that)
qed

lemma commit_publishes:
  assumes "env_ok e" "disk_idle e b" "kind_ready e (fs_lookup b) k"
    and "w_txn w = prepared_txn k tid s" "fs_wf (w_disk w)"
    and "fs_lookup (w_disk w) = prepared_view e k tid (fs_lookup b)"
  shows "\<exists>d. commit e w = Returns True
      (w\<lparr>w_disk := d, w_txn := (prepared_txn k tid s)\<lparr>t_is_committed := True\<rparr>, w_shared := s\<rparr>) \<and>
    fs_wf d \<and> fs_lookup d = committed_view e k tid (fs_lookup b)"
proof -
  let ?L = "fs_lookup b" and ?tid = "tid_path e" and ?tmp = "tid_temp e"
  have ne: "?tid \<noteq> ?tmp" using assms(1) by (rule tid_path_neq_temp)
  have idle: "?L ?tmp = None" "?L ?tid \<noteq> Some Dir" "fs_lookup b (servers_path e) = Some Dir"
    using assms(2) by (auto simp: disk_idle_def fs_is_directory_def)
  have at_tid: "staged_view e k ?L ?tid = ?L ?tid" "staged_view e k ?L ?tmp = ?L ?tmp"
    using assms(1,3) by (simp_all add: staged_view_at_tid)
  have dir: "staged_view e k ?L (servers_path e) = Some Dir"
    using assms(1,3) idle(3) by (cases k) (auto simp: staged_view_def kind_ready_def txn_paths)
  obtain d1 d2 where d1: "fs_remove ?tid (w_disk w) = Some d1" and d2: "fs_rename ?tmp ?tid d1 = Some d2"
    and wf2: "fs_wf d2"
    and l2: "fs_lookup d2 = (fs_lookup (w_disk w))(?tmp := None, ?tid := Some (File (show_int tid)))"
    by (rule rotate_tid [OF assms(1,5), of "show_int tid"])
      (use ne idle at_tid dir assms(1) in \<open>simp_all add: assms(6) prepared_view_def tid_text_def txn_paths\<close>)
  let ?b = "sm_assign ?tid (File (show_int tid)) b"
  have wfb: "fs_wf ?b"
    using assms(1,2) by (intro fs_wf_assign) (auto simp: disk_idle_def txn_paths)
  have Lb: "fs_lookup ?b = ?L(?tid := tid_text tid)"
    using assms(1,2) by (auto simp: fs_lookup_def tid_text_def disk_idle_def txn_paths)
  have view2: "fs_lookup d2 = staged_view e k (fs_lookup ?b)"
    using assms(1,3) at_tid idle(1)
    by (auto simp: fun_eq_iff l2 Lb staged_view_tid(1) assms(6) prepared_view_def tid_text_def)
  have "fs_is_directory ?b (servers_path e)" "kind_ready e (fs_lookup ?b) k"
    using assms(1,3) idle(3) by (simp_all add: fs_is_directory_def Lb kind_ready_tid) (simp add: txn_paths)
  then obtain d where d: "publish_hook e k d2 = Some d" "fs_wf d"
    "fs_lookup d = published_view e k (fs_lookup ?b)"
    using publish_ok [OF assms(1) wf2 wfb _ _ view2] by blast
  moreover have "commit e w = Returns True
      (w\<lparr>w_disk := d, w_txn := (prepared_txn k tid s)\<lparr>t_is_committed := True\<rparr>, w_shared := s\<rparr>)"
    using assms(4) d1 d2 d(1)
    by (simp add: commit_def publish_def commitHook_disk cpp_simps prepared_txn_def new_transaction_def)
  ultimately show ?thesis
    using assms(1,3) by (auto simp: Lb published_view_tid committed_view_def)
qed

section \<open>rollback\<close>

definition rolled_back_txn :: "transaction \<Rightarrow> transaction" where
  "rolled_back_txn t = t\<lparr>t_hasRollback := True, t_work_state := None\<rparr>"

lemma rollback_restores:
  assumes "env_ok e" "disk_idle e b" "kind_ready e (fs_lookup b) (t_kind (w_txn w))"
    and "t_has_began (w_txn w)" "\<not> t_hasRollback (w_txn w)" "t_work_state (w_txn w) = Some s"
    and "fs_wf (w_disk w)" "fs_lookup (w_disk w) = prepared_view e (t_kind (w_txn w)) tid (fs_lookup b)"
  shows "rollback e w = Returns () (w\<lparr>w_disk := b, w_txn := rolled_back_txn (w_txn w)\<rparr>)"
proof -
  let ?k = "t_kind (w_txn w)" and ?L = "fs_lookup b" and ?tmp = "tid_temp e"
  have wfb: "fs_wf b" and none: "?L ?tmp = None"
    using assms(2) by (auto simp: disk_idle_def)
  obtain d1 where d1: "fs_remove ?tmp (w_disk w) = Some d1"
    using fs_remove_file [of "w_disk w" ?tmp] assms(8) by (auto simp: prepared_view_def tid_text_def)
  have "staged_view e ?k ?L ?tmp = None"
    using staged_view_at_tid [OF assms(1) _ assms(3), of ?tmp] none by simp
  then have "fs_lookup d1 = staged_view e ?k ?L"
    by (auto simp: fs_lookup_remove [OF d1] assms(8) prepared_view_def)
  then have "discard_hook e ?k d1 = Some b"
    by (rule discard_ok [OF assms(1) fs_wf_remove [OF assms(7) d1] wfb assms(3)])
  with assms(4-6) d1 show ?thesis
    by (simp add: rollback_def deleteWorkState_def rollbackHook_disk cpp_simps rolled_back_txn_def)
qed

section \<open>Transactions that are refused\<close>

text \<open>No temporary file of the transaction is left over from an earlier one.\<close>

definition temp_absent :: "env \<Rightarrow> view \<Rightarrow> txn_kind \<Rightarrow> bool" where
  "temp_absent e L k \<longleftrightarrow>
     (case k of
        CreateUserTransaction u p \<Rightarrow> u = [] \<or> user_name_ok u \<and> L (user_temp e u) = None
      | FileChangeTransaction u n deleted c \<Rightarrow>
          user_name_ok u \<and> plain_name n \<and> L (file_temp e u n) = None
      | _ \<Rightarrow> True)"

lemma kind_ready_temp_absent: "kind_ready e L k \<Longrightarrow> temp_absent e L k"
  by (cases k) (auto simp: kind_ready_def temp_absent_def)

lemma disk_idle_no_tid_temp: "disk_idle e b \<Longrightarrow> fs_lookup b (tid_temp e) = None" "disk_idle e b \<Longrightarrow> fs_wf b"
  by (simp_all add: disk_idle_def)

lemma remove_tid_temp:
  assumes "env_ok e" "disk_idle e b"
  shows "fs_remove (tid_temp e) (fs_write (tid_temp e) c b) = Some b"
proof -
  note l = disk_idle_begin(2) [OF assms, of c] and wf = disk_idle_begin(1) [OF assms, of c]
  obtain d where d: "fs_remove (tid_temp e) (fs_write (tid_temp e) c b) = Some d"
    using fs_remove_file [of "fs_write (tid_temp e) c b" "tid_temp e"] l by auto
  have "fs_lookup d = fs_lookup b"
    using disk_idle_no_tid_temp(1) [OF assms(2)] by (auto simp: fs_lookup_remove [OF d] l)
  with d show ?thesis
    using fs_wf_inject [OF fs_wf_remove [OF wf d] disk_idle_no_tid_temp(2) [OF assms(2)]] by simp
qed

text \<open>A user directory for the empty name is the server directory itself with a \<open>~\<close>.\<close>

lemma discard_unstaged:
  assumes "env_ok e" "fs_wf b" "temp_absent e (fs_lookup b) k"
    and "\<And>u p. k = CreateUserTransaction u p \<Longrightarrow> u \<noteq> []"
  shows "discard_hook e k b = Some b"
proof (cases k)
  case (CreateUserTransaction u p)
  then have u: "user_name_ok u" and none: "fs_lookup b (user_temp e u) = None"
    using assms(3,4) by (auto simp: temp_absent_def)
  have ne: "user_temp e u \<noteq> []" using assms(1) u by (simp add: txn_paths)
  have "fs_lookup b r = None" if "prefix (user_temp e u) r" for r
  proof -
    from that obtain s where "r = user_temp e u @ s" by (rule prefixE)
    with fs_wf_only_dir [OF assms(2), of "user_temp e u" s] none show ?thesis by (cases s) auto
  qed
  then have "fs_lookup (fs_remove_all (user_temp e u) b) = fs_lookup b"
    by (auto simp: fs_lookup_remove_all ne)
  with CreateUserTransaction show ?thesis
    using fs_wf_inject [OF fs_wf_remove_all [OF assms(2) ne] assms(2)] by (simp add: discard_hook_def)
next
  case (FileChangeTransaction u n deleted c)
  with assms(3) show ?thesis by (simp add: discard_hook_def fs_exists_def temp_absent_def)
qed (simp_all add: discard_hook_def)

lemma rollback_unstaged:
  assumes "env_ok e" "disk_idle e b" "temp_absent e (fs_lookup b) (t_kind (w_txn w))"
    and "\<And>u p. t_kind (w_txn w) = CreateUserTransaction u p \<Longrightarrow> u \<noteq> []"
    and "t_has_began (w_txn w)" "\<not> t_hasRollback (w_txn w)" "t_work_state (w_txn w) = Some s"
    and "w_disk w = fs_write (tid_temp e) c b"
  shows "rollback e w = Returns () (w\<lparr>w_disk := b, w_txn := rolled_back_txn (w_txn w)\<rparr>)"
  using assms(5-8) remove_tid_temp [OF assms(1,2), of c]
    discard_unstaged [OF assms(1) disk_idle_no_tid_temp(2) [OF assms(2)] assms(3,4)]
  by (simp add: rollback_def deleteWorkState_def rollbackHook_disk cpp_simps rolled_back_txn_def)

text \<open>The world in which \<open>execute\<close> starts.\<close>

definition begun :: "env \<Rightarrow> txn_kind \<Rightarrow> int \<Rightarrow> server_state \<Rightarrow> 'a world_scheme \<Rightarrow> 'a world_scheme" where
  "begun e k tid s w = w\<lparr>w_disk := fs_write (tid_temp e) (show_int tid) (w_disk w),
     w_txn := (new_transaction k)\<lparr>t_tid := tid, t_work_state := Some (setLastTid tid s), t_has_began := True\<rparr>\<rparr>"

definition refused_txn :: "txn_kind \<Rightarrow> int \<Rightarrow> transaction" where
  "refused_txn k tid =
     (new_transaction k)\<lparr>t_tid := tid, t_has_began := True, t_hasRollback := True\<rparr>"

lemma rollback_begun:
  assumes "env_ok e" "disk_idle e (w_disk w)" "temp_absent e (fs_lookup (w_disk w)) k"
    and "\<And>u p. k = CreateUserTransaction u p \<Longrightarrow> u \<noteq> []"
  shows "rollback e (begun e k tid s w) = Returns () (w\<lparr>w_txn := refused_txn k tid\<rparr>)"
  using rollback_unstaged [OF assms(1,2), of "begun e k tid s w" "setLastTid tid s" "show_int tid"] assms(3,4)
  by (simp add: begun_def new_transaction_def rolled_back_txn_def refused_txn_def)

lemma run_begun:
  assumes "fresh w k tid s"
  shows "run e w = seqC (catchC (execute e) (rollback e))
      (bindC (getTxn t_hasRollback) (\<lambda>rolled. if \<not> rolled then prepareCommit else retC False))
      (begun e k tid s w)"
  using assms
  by (cases w) (simp add: run_def begin_txn_def cpp_simps fresh_def new_transaction_def begun_def)

lemma run_refuses:
  assumes "env_ok e" "fresh w k tid s" "disk_idle e (w_disk w)"
    and "temp_absent e (fs_lookup (w_disk w)) k"
    and "txn_effect e tid k s = None" "refuses_cleanly k"
  shows "run e w = Returns False (w\<lparr>w_txn := refused_txn k tid\<rparr>)"
proof -
  have "rollback e (begun e k tid s w) = Returns () (w\<lparr>w_txn := refused_txn k tid\<rparr>)"
    using assms by (intro rollback_begun) (auto simp: refuses_cleanly_def)
  moreover from this have "execute e (begun e k tid s w) = rollback e (begun e k tid s w)"
    using assms(5,6)
    by (cases k) (auto simp: refuses_cleanly_def execute_def executeRemoveSession_def executeFileChange_def
        txn_effect_def kind_effect_def begun_def new_transaction_def cpp_simps split: if_splits)
  ultimately show ?thesis
    using assms(2) by (simp add: run_begun cpp_simps refused_txn_def)
qed

text \<open>
  The other refusals go on using the work state that \<open>rollback\<close> has deleted.
\<close>

lemma run_refused_uses_deleted_state:
  assumes "env_ok e" "fresh w k tid s" "disk_idle e (w_disk w)"
    and "temp_absent e (fs_lookup (w_disk w)) k"
    and "txn_effect e tid k s = None" "\<not> refuses_cleanly k"
    and "\<And>u p. k = CreateUserTransaction u p \<Longrightarrow> u \<noteq> []"
  shows "run e w = Undefined UseAfterFree"
proof -
  have rb: "rollback e (begun e k tid s w) = Returns () (w\<lparr>w_txn := refused_txn k tid\<rparr>)"
    using assms by (intro rollback_begun) auto
  have "execute e (begun e k tid s w) = Undefined UseAfterFree"
    using assms(5-7) rb
    by (cases k) (auto simp: refuses_cleanly_def execute_def executeCreateUser_def executeCreateSession_def
        txn_effect_def kind_effect_def begun_def refused_txn_def new_transaction_def cpp_simps split: if_splits)
  then show ?thesis
    using assms(2) by (simp add: run_begun cpp_simps)
qed

section \<open>A file whose directory is missing\<close>

text \<open>
  When the directory of the file does not exist, the write is lost without an error:
  every server prepares, and the rename in \<open>commitHook\<close> throws after the tid file was
  replaced and before the state is published.
\<close>

lemma lost_write:
  assumes "env_ok e" "disk_idle e b" "\<not> fs_is_directory b (butlast p)" "p \<noteq> tid_temp e"
  shows "fs_write p c (fs_write (tid_temp e) t b) = fs_write (tid_temp e) t b"
    "fs_lookup b p = None"
proof -
  have "fs_lookup b (butlast p) \<noteq> Some Dir" using assms(3) by (simp add: fs_is_directory_def)
  then have "p \<noteq> []" by auto
  then show "fs_lookup b p = None"
    using fs_wf_parent [OF disk_idle_no_tid_temp(2) [OF assms(2)], of p] assms(3)
    by (cases "fs_lookup b p") (auto simp: fs_is_directory_def)
  show "fs_write p c (fs_write (tid_temp e) t b) = fs_write (tid_temp e) t b"
    using assms(3) by (auto simp: fs_write_def [of p] fs_is_directory_def disk_idle_begin(2) [OF assms(1,2)] split: if_splits)
qed

lemma lost_file_commit:
  assumes "env_ok e" "fresh w (FileChangeTransaction u n False c) tid s" "disk_idle e (w_disk w)"
    and "\<not> fs_is_directory (w_disk w) (butlast (file_temp e u n))"
    and "file_temp e u n \<noteq> tid_temp e" "file_temp e u n \<noteq> tid_path e"
  shows "\<exists>d t d'. run e w = Returns True (w\<lparr>w_disk := d, w_txn := t\<rparr>) \<and> t_tid t = tid \<and> t_is_prepared t \<and>
    (\<forall>v :: 'b world_scheme. w_disk v = d \<longrightarrow> w_txn v = t \<longrightarrow>
       commit e v = Throws (v\<lparr>w_disk := d', w_txn := t\<lparr>t_is_committed := True\<rparr>\<rparr>)) \<and>
    fs_lookup d' (tid_path e) = tid_text tid"
proof -
  let ?k = "FileChangeTransaction u n False c" and ?t = "file_temp e u n"
  let ?d = "fs_write (tid_temp e) (show_int tid) (w_disk w)"
  note lost = lost_write [OF assms(1,3,4,5)] and b = disk_idle_begin [OF assms(1,3), of "show_int tid"]
  have "\<exists>s'. run e w = Returns True (w\<lparr>w_disk := ?d, w_txn := prepared_txn ?k tid s'\<rparr>)"
    using assms(2) lost(1) [of c "show_int tid"]
    by (auto simp: run_begun begun_def execute_def executeFileChange_def prepareCommit_def
        prepared_txn_def new_transaction_def cpp_simps Let_def)
  then obtain s' where run: "run e w = Returns True (w\<lparr>w_disk := ?d, w_txn := prepared_txn ?k tid s'\<rparr>)" ..
  obtain d1 d2 where d1: "fs_remove (tid_path e) ?d = Some d1"
    and d2: "fs_rename (tid_temp e) (tid_path e) d1 = Some d2"
    and l2: "fs_lookup d2 = (fs_lookup ?d)(tid_temp e := None, tid_path e := Some (File (show_int tid)))"
    by (rule rotate_tid [OF assms(1) b(1), of "show_int tid"])
      (use assms(1,3) b in \<open>auto simp: fs_is_directory_def disk_idle_def tid_path_neq_temp\<close>)
  have "fs_lookup d2 ?t = None"
    using assms(5,6) lost(2) by (simp add: l2 b(2))
  then have hook: "publish_hook e ?k d2 = None"
    by (simp add: publish_hook_def fs_rename_def fs_can_rename_def)
  have "commit e v = Throws (v\<lparr>w_disk := d2, w_txn := (prepared_txn ?k tid s')\<lparr>t_is_committed := True\<rparr>\<rparr>)"
    if "w_disk v = ?d" "w_txn v = prepared_txn ?k tid s'" for v :: "'b world_scheme"
    using that d1 d2 hook
    by (simp add: commit_def commitHook_disk cpp_simps prepared_txn_def new_transaction_def)
  with run show ?thesis
    by (intro exI [of _ ?d] exI [of _ "prepared_txn ?k tid s'"] exI [of _ d2])
      (simp add: l2 tid_text_def prepared_txn_def new_transaction_def)
qed

section \<open>A file name that leaves the user's directory\<close>

lemma file_path_escape:
  assumes "env_ok e" "user_name_ok u" "user_name_ok v" "plain_name n"
  shows "file_path e u (''../'' @ v @ ''/'' @ n) = file_path e v n"
proof -
  have v: "plain_name v" "CHR ''/'' \<notin> set v" "CHR ''/'' \<notin> set n"
    using assms(3,4) by (auto simp: user_name_ok_def plain_name_def)
  have "split_slash (''../'' @ v @ ''/'' @ n) = [''..'', v, n]"
    using split_slash_append [of "''..''" "v @ ''/'' @ n"] split_slash_append [of v n] v
    by (simp add: split_slash_plain)
  moreover have "push_name n (push_name v (push_name ''..'' (servers_path e @ [u]))) = servers_path e @ [v, n]"
    using v(1) assms(4) by (simp add: push_name_def plain_name_def)
  ultimately have "fold push_name (split_slash (''../'' @ v @ ''/'' @ n)) (user_path e u) = servers_path e @ [v, n]"
    using txn_paths(3) [OF assms(1,2)] by simp
  then show ?thesis
    using resolve_append [of "getUserDir e u" "''../'' @ v @ ''/'' @ n"] txn_paths(6) [OF assms(1,3,4)]
    by (simp add: file_path_def user_path_def)
qed

section \<open>The effect keeps a state consistent\<close>

lemma setLastTid_wf: "state_wf s \<Longrightarrow> ss_last_tid s \<le> tid \<Longrightarrow> state_wf (setLastTid tid s)"
  by (simp add: state_wf_iff state_frames) (fastforce simp: setLastTid_def hasUser_def)

lemma user_updates_wf:
  assumes "state_wf s"
  shows "state_wf (addUser u p s)" "state_wf (setUserLastTid v t s)" "state_wf (addFrontend h port s)"
    "state_wf (removeSession i s)" "hasUser s u \<Longrightarrow> state_wf (addSession i u s)"
proof -
  note wf = assms [unfolded state_wf_iff]
  have inv: "state_inv s" using assms by simp
  show "state_wf (addUser u p s)"
    using wf by (simp add: state_wf_iff state_frames hasUser_addUser) (simp add: addUser_def)
  show "state_wf (setUserLastTid v t s)"
    using wf by (simp add: state_wf_iff state_frames) (simp add: setUserLastTid_def hasUser_def)
  show "state_wf (addFrontend h port s)"
    using wf by (simp add: state_wf_iff state_frames) (simp add: addFrontend_def hasUser_def)
  show "state_wf (removeSession i s)"
    using wf by (simp add: state_wf_iff state_frames) (simp add: removeSession_def hasUser_def)
  assume "hasUser s u"
  with wf inv show "state_wf (addSession i u s)"
    by (simp add: state_wf_iff state_frames)
      (auto simp: addSession_def hasUser_def state_invD split: if_splits)
qed

lemma file_updates_wf:
  assumes "state_wf s" "ss_last_tid s = tid"
  shows "state_wf (removeFile u n s)"
    "hasFile s u n \<Longrightarrow> state_wf (updateFile u n (the_file e tid n c) s)"
    "\<not> hasFile s u n \<Longrightarrow> state_wf (addFile u n (the_file e tid n c) s)"
proof -
  note wf = assms(1) [unfolded state_wf_iff]
  show "state_wf (removeFile u n s)"
    using wf by (simp add: state_wf_iff ft.ok_remove ft.find_remove state_frames hasUser_def)
  let ?s = "if hasFile s u n then updateFile u n (the_file e tid n c) s
               else addFile u n (the_file e tid n c) s"
  have "state_inv ?s" using wf by (intro ft.ok_put) simp
  moreover have "logged_user_sessions ?s = logged_user_sessions s" "senhas ?s = senhas s"
    "ss_last_tid ?s = ss_last_tid s" by (simp_all add: state_frames)
  moreover have "findFile ?s v m = (if v = u \<and> m = n then Some (the_file e tid n c) else findFile s v m)" for v m
    using wf by (intro ft.find_put) simp
  ultimately have "state_wf ?s"
    using wf assms(2) by (auto simp only: state_wf_iff hasUser_def the_file_def user_file.simps split: if_splits)
  then show "hasFile s u n \<Longrightarrow> state_wf (updateFile u n (the_file e tid n c) s)"
    and "\<not> hasFile s u n \<Longrightarrow> state_wf (addFile u n (the_file e tid n c) s)" by simp_all
qed

lemma txn_effect_last_tid: "txn_effect e tid k s = Some s' \<Longrightarrow> ss_last_tid s' = tid"
  by (cases k) (auto simp: txn_effect_def kind_effect_def setLastTid_def setUserLastTid_def addUser_def
      addSession_def removeSession_def addFrontend_def state_frames split: if_splits)

theorem txn_effect_wf:
  assumes "state_wf s" "ss_last_tid s \<le> tid" "txn_effect e tid k s = Some s'"
  shows "state_wf s'"
proof -
  have wf: "state_wf (setLastTid tid s)" using assms(1,2) by (rule setLastTid_wf)
  have tid: "ss_last_tid (setLastTid tid s) = tid" by (simp add: setLastTid_def)
  show ?thesis
    using assms(3) user_updates_wf [OF wf] file_updates_wf [OF wf tid] user_updates_wf(2)
    by (cases k) (auto simp: txn_effect_def kind_effect_def split: if_splits)
qed

end
