(* ===== verification/Transaction_Message.thy ===== *)
theory Transaction_Message
  imports Transaction
begin

text \<open>
  The messages between servers (\<open>proto/message.proto\<close>) and the \<open>serialize\<close> and
  \<open>deserialize\<close> methods of the five transactions, with the dispatch on the message type
  in \<open>TransactionRequestHandler::handleRequest\<close>.  An optional field is an option; reading
  an unset field gives the default of its type, as the generated accessors do.  The byte
  encoding of protobuf is not part of the repository and is not modelled.
\<close>

datatype transaction_type = CREATE_USER | CREATE_SESSION | REMOVE_SESSION | FILE_CHANGE | NEW_FRONTEND

datatype transaction_vote = COMMIT_VOTE | ROLLBACK_VOTE

record create_user_msg =
  cum_username :: string
  cum_password :: string

record create_session_msg =
  csm_session_id :: int
  csm_username :: string

record file_change_msg =
  fcm_filename :: string
  fcm_user :: string
  fcm_deleted :: bool
  fcm_data :: string

record new_frontend_msg =
  nfm_hostname :: string
  nfm_port :: int

record transaction_msg =
  tm_type :: transaction_type
  tm_transaction_id :: int
  tm_create_user :: "create_user_msg option"
  tm_create_session :: "create_session_msg option"
  tm_remove_session :: "int option"
  tm_file_change :: "file_change_msg option"
  tm_new_frontend :: "new_frontend_msg option"

text \<open>A message that no field was set in.\<close>

definition empty_transaction_msg :: transaction_msg where
  "empty_transaction_msg =
     \<lparr>tm_type = CREATE_USER, tm_transaction_id = 0, tm_create_user = None, tm_create_session = None,
      tm_remove_session = None, tm_file_change = None, tm_new_frontend = None\<rparr>"

datatype outer_msg =
    TransactionMsg transaction_msg
  | VoteMsg transaction_vote int
  | ResultMsg transaction_vote int
  | OkAckMsg

text \<open>The accessors of the nested messages: the default instance when unset.\<close>

definition get_create_user :: "transaction_msg \<Rightarrow> create_user_msg" where
  "get_create_user m =
     (case tm_create_user m of None \<Rightarrow> \<lparr>cum_username = [], cum_password = []\<rparr> | Some x \<Rightarrow> x)"

definition get_create_session :: "transaction_msg \<Rightarrow> create_session_msg" where
  "get_create_session m =
     (case tm_create_session m of None \<Rightarrow> \<lparr>csm_session_id = 0, csm_username = []\<rparr> | Some x \<Rightarrow> x)"

definition get_remove_session :: "transaction_msg \<Rightarrow> int" where
  "get_remove_session m = (case tm_remove_session m of None \<Rightarrow> 0 | Some x \<Rightarrow> x)"

definition get_file_change :: "transaction_msg \<Rightarrow> file_change_msg" where
  "get_file_change m =
     (case tm_file_change m of
        None \<Rightarrow> \<lparr>fcm_filename = [], fcm_user = [], fcm_deleted = False, fcm_data = []\<rparr>
      | Some x \<Rightarrow> x)"

definition get_new_frontend :: "transaction_msg \<Rightarrow> new_frontend_msg" where
  "get_new_frontend m =
     (case tm_new_frontend m of None \<Rightarrow> \<lparr>nfm_hostname = [], nfm_port = 0\<rparr> | Some x \<Rightarrow> x)"

section \<open>serialize\<close>

definition serializeCreateUser :: "int \<Rightarrow> string \<Rightarrow> string \<Rightarrow> transaction_msg \<Rightarrow> transaction_msg" where
  "serializeCreateUser tid username password out =
     out\<lparr>tm_transaction_id := tid, tm_type := CREATE_USER,
         tm_create_user := Some \<lparr>cum_username = username, cum_password = password\<rparr>\<rparr>"

definition serializeCreateSession :: "int \<Rightarrow> int \<Rightarrow> string \<Rightarrow> transaction_msg \<Rightarrow> transaction_msg" where
  "serializeCreateSession tid sessionID username out =
     out\<lparr>tm_transaction_id := tid, tm_type := CREATE_SESSION,
         tm_create_session := Some \<lparr>csm_session_id = sessionID, csm_username = username\<rparr>\<rparr>"

definition serializeRemoveSession :: "int \<Rightarrow> int \<Rightarrow> transaction_msg \<Rightarrow> transaction_msg" where
  "serializeRemoveSession tid sessionID out =
     out\<lparr>tm_type := REMOVE_SESSION, tm_transaction_id := tid, tm_remove_session := Some sessionID\<rparr>"

definition serializeFileChange ::
  "int \<Rightarrow> string \<Rightarrow> string \<Rightarrow> bool \<Rightarrow> string \<Rightarrow> transaction_msg \<Rightarrow> transaction_msg" where
  "serializeFileChange tid username filename deleted content out =
     out\<lparr>tm_transaction_id := tid, tm_type := FILE_CHANGE,
         tm_file_change := Some \<lparr>fcm_filename = filename, fcm_user = username,
           fcm_deleted = deleted, fcm_data = content\<rparr>\<rparr>"

definition serializeNewFrontend :: "int \<Rightarrow> string \<Rightarrow> int \<Rightarrow> transaction_msg \<Rightarrow> transaction_msg" where
  "serializeNewFrontend tid hostname port out =
     out\<lparr>tm_type := NEW_FRONTEND, tm_transaction_id := tid,
         tm_new_frontend := Some \<lparr>nfm_hostname = hostname, nfm_port = port\<rparr>\<rparr>"

definition serialize :: "transaction \<Rightarrow> transaction_msg \<Rightarrow> transaction_msg" where
  "serialize t =
     (case t_kind t of
        CreateUserTransaction u p \<Rightarrow> serializeCreateUser (t_tid t) u p
      | CreateSessionTransaction i u \<Rightarrow> serializeCreateSession (t_tid t) i u
      | RemoveSessionTransaction i \<Rightarrow> serializeRemoveSession (t_tid t) i
      | FileChangeTransaction u n deleted c \<Rightarrow> serializeFileChange (t_tid t) u n deleted c
      | NewFrontendTransaction h p \<Rightarrow> serializeNewFrontend (t_tid t) h p)"

section \<open>deserialize\<close>

definition deserializeCreateUser :: "transaction_msg \<Rightarrow> txn_kind" where
  "deserializeCreateUser m =
     CreateUserTransaction (cum_username (get_create_user m)) (cum_password (get_create_user m))"

definition deserializeCreateSession :: "transaction_msg \<Rightarrow> txn_kind" where
  "deserializeCreateSession m =
     CreateSessionTransaction (csm_session_id (get_create_session m)) (csm_username (get_create_session m))"

definition deserializeRemoveSession :: "transaction_msg \<Rightarrow> txn_kind" where
  "deserializeRemoveSession m = RemoveSessionTransaction (get_remove_session m)"

definition deserializeFileChange :: "transaction_msg \<Rightarrow> txn_kind" where
  "deserializeFileChange m =
     FileChangeTransaction (fcm_user (get_file_change m)) (fcm_filename (get_file_change m))
       (fcm_deleted (get_file_change m)) (fcm_data (get_file_change m))"

definition deserializeNewFrontend :: "transaction_msg \<Rightarrow> txn_kind" where
  "deserializeNewFrontend m =
     NewFrontendTransaction (nfm_hostname (get_new_frontend m)) (nfm_port (get_new_frontend m))"

text \<open>A received transaction: the object of the class its type names, deserialized.\<close>

definition receivedTransaction :: "transaction_msg \<Rightarrow> transaction" where
  "receivedTransaction m =
     (new_transaction
        (case tm_type m of
           CREATE_USER \<Rightarrow> deserializeCreateUser m
         | CREATE_SESSION \<Rightarrow> deserializeCreateSession m
         | REMOVE_SESSION \<Rightarrow> deserializeRemoveSession m
         | FILE_CHANGE \<Rightarrow> deserializeFileChange m
         | NEW_FRONTEND \<Rightarrow> deserializeNewFrontend m))\<lparr>t_tid := tm_transaction_id m\<rparr>"

lemmas serialize_defs = serialize_def serializeCreateUser_def serializeCreateSession_def
  serializeRemoveSession_def serializeFileChange_def serializeNewFrontend_def

lemmas deserialize_defs = receivedTransaction_def deserializeCreateUser_def deserializeCreateSession_def
  deserializeRemoveSession_def deserializeFileChange_def deserializeNewFrontend_def
  get_create_user_def get_create_session_def get_remove_session_def get_file_change_def
  get_new_frontend_def

text \<open>What a replica reconstructs is the transaction of the coordinator, before it runs.\<close>

lemma received_serialize:
  "receivedTransaction (serialize t m) = (new_transaction (t_kind t))\<lparr>t_tid := t_tid t\<rparr>"
  by (cases "t_kind t") (simp_all add: serialize_defs deserialize_defs)

end
