(* ===== verification/Descriptors.thy ===== *)
theory Descriptors
  imports Std_Map "HOL-Library.Infinite_Set" "HOL-Library.Sublist"
begin

text \<open>
  The life of a \<open>Connection\<close> (\<open>src/common/Connection.h\<close>): its constructor, the copy and the
  move constructor and the destructor, on the table of the descriptors that the process has
  open.  A \<open>std::vector\<close> of connections moves its elements when it grows; the move
  constructor is the default one, which copies the number of the descriptor, and the
  destructor of the element that was moved from closes it.  What this does to
  \<open>TransactionManager::sendResult\<close> is \<open>reached\<close>.
\<close>

datatype connection_state = NOT_INITIALIZED | CONNECTED | CONNECTION_CLOSED | CONNECTION_FAILURE

text \<open>What a descriptor is open on: a connection to a server, or something else.\<close>

datatype opened = Local | Peer int

type_synonym descriptors = "(nat, opened) smap"

text \<open>A connection object; \<open>None\<close> is the descriptor \<open>-1\<close>.\<close>

record conn =
  cv_fd :: "nat option"
  cv_state :: connection_state
  cv_peer :: int

section \<open>Construction and destruction\<close>

text \<open>\<open>socket\<close> gives the lowest descriptor that is not open.\<close>

definition lowest_free :: "descriptors \<Rightarrow> nat" where
  "lowest_free ds = hd (filter (\<lambda>n. sm_find ds n = None) [0..<Suc (length ds)])"

text \<open>
  The addresses of a host: \<open>socket\<close> fails, \<open>connect\<close> fails, or the connection is made.
  \<open>getaddrinfo\<close> gives a list of them, or fails.
\<close>

datatype address = Unsupported | Unreachable | Reachable

fun try_addresses :: "address list \<Rightarrow> conn \<Rightarrow> descriptors \<Rightarrow> conn \<times> descriptors" where
  "try_addresses [] c ds = (c\<lparr>cv_state := CONNECTION_FAILURE\<rparr>, ds)"
| "try_addresses (Unsupported # as) c ds =
     try_addresses as (c\<lparr>cv_fd := None, cv_state := CONNECTION_FAILURE\<rparr>) ds"
| "try_addresses (Unreachable # as) c ds =
     (let fd = lowest_free ds in
      try_addresses as (c\<lparr>cv_fd := Some fd, cv_state := CONNECTION_FAILURE\<rparr>)
        (sm_erase fd (sm_assign fd (Peer (cv_peer c)) ds)))"
| "try_addresses (Reachable # as) c ds =
     (let fd = lowest_free ds in
      (c\<lparr>cv_fd := Some fd, cv_state := CONNECTED\<rparr>, sm_assign fd (Peer (cv_peer c)) ds))"

definition newConnection :: "int \<Rightarrow> address list option \<Rightarrow> descriptors \<Rightarrow> conn \<times> descriptors" where
  "newConnection peer addrs ds =
     (let c = \<lparr>cv_fd = Some 0, cv_state = NOT_INITIALIZED, cv_peer = peer\<rparr> in
      case addrs of
        None \<Rightarrow> (c\<lparr>cv_state := CONNECTION_FAILURE\<rparr>, ds)
      | Some as \<Rightarrow> try_addresses as c ds)"

text \<open>The copy constructor connects again, to the address of the other object.\<close>

definition copyConnection :: "conn \<Rightarrow> address list option \<Rightarrow> descriptors \<Rightarrow> conn \<times> descriptors" where
  "copyConnection other addrs ds =
     (let c = \<lparr>cv_fd = Some 0, cv_state = NOT_INITIALIZED, cv_peer = cv_peer other\<rparr> in
      case addrs of
        None \<Rightarrow> (c\<lparr>cv_state := CONNECTION_FAILURE\<rparr>, ds)
      | Some as \<Rightarrow> try_addresses as c ds)"

text \<open>The default move constructor: the new object, and the one that was moved from.\<close>

definition moveConnection :: "conn \<Rightarrow> conn \<times> conn" where
  "moveConnection other = (other, other)"

definition destroyConnection :: "conn \<Rightarrow> descriptors \<Rightarrow> descriptors" where
  "destroyConnection c ds =
     (if cv_state c = CONNECTED then (case cv_fd c of None \<Rightarrow> ds | Some fd \<Rightarrow> sm_erase fd ds) else ds)"

text \<open>
  \<open>sendRequest\<close> for a message that is short enough for one \<open>send\<close>: the server that the
  descriptor leads to, if any; \<open>send\<close> fails on a descriptor that is closed.
\<close>

definition conn_sendRequest :: "conn \<Rightarrow> descriptors \<Rightarrow> int option \<times> conn" where
  "conn_sendRequest c ds =
     (if cv_state c \<noteq> CONNECTED then (None, c)
      else case cv_fd c of
        None \<Rightarrow> (None, c\<lparr>cv_state := CONNECTION_FAILURE\<rparr>)
      | Some fd \<Rightarrow>
          (case sm_find ds fd of
             Some (Peer i) \<Rightarrow> (Some i, c)
           | _ \<Rightarrow> (None, c\<lparr>cv_state := CONNECTION_FAILURE\<rparr>)))"

section \<open>A vector of connections\<close>

record conn_vector =
  vec_elems :: "conn list"
  vec_capacity :: nat

definition empty_vector :: conn_vector where
  "empty_vector = \<lparr>vec_elems = [], vec_capacity = 0\<rparr>"

text \<open>
  \<open>std::vector::emplace_back\<close>: when the vector is full its capacity is doubled; the new
  element is constructed in the new storage, then the others are moved there and the old
  ones destroyed.
\<close>

definition emplace_back :: "int \<Rightarrow> address list option \<Rightarrow> conn_vector \<Rightarrow> descriptors \<Rightarrow> conn_vector \<times> descriptors" where
  "emplace_back peer addrs v ds =
     (let (c, ds) = newConnection peer addrs ds in
      if length (vec_elems v) < vec_capacity v then (v\<lparr>vec_elems := vec_elems v @ [c]\<rparr>, ds)
      else (\<lparr>vec_elems = map (fst \<circ> moveConnection) (vec_elems v) @ [c],
             vec_capacity = (if vec_capacity v = 0 then 1 else 2 * vec_capacity v)\<rparr>,
            fold (destroyConnection \<circ> snd \<circ> moveConnection) (vec_elems v) ds))"

definition destroy_vector :: "conn_vector \<Rightarrow> descriptors \<Rightarrow> descriptors" where
  "destroy_vector v ds = fold destroyConnection (vec_elems v) ds"

text \<open>
  The loop of \<open>sendResult\<close> over the active servers, all of which accept the connection: the
  servers that the result is delivered to.
\<close>

fun result_loop :: "int list \<Rightarrow> conn_vector \<Rightarrow> descriptors \<Rightarrow> int list" where
  "result_loop [] v ds = []"
| "result_loop (s # servers) v ds =
     (let (v, ds) = emplace_back s (Some [Reachable]) v ds;
          (delivered, c) = conn_sendRequest (last (vec_elems v)) ds;
          rest = result_loop servers (v\<lparr>vec_elems := butlast (vec_elems v) @ [c]\<rparr>) ds
      in case delivered of None \<Rightarrow> rest | Some i \<Rightarrow> i # rest)"

text \<open>Descriptors 0, 1 and 2 are the streams of the process; \<open>result_loop_table\<close> shows that
  it does not matter what else is open.\<close>

definition std_streams :: descriptors where
  "std_streams = [(0, Local), (1, Local), (2, Local)]"

definition reached :: "int list \<Rightarrow> int list" where
  "reached servers = result_loop servers empty_vector std_streams"

section \<open>Descriptors\<close>

lemma finite_open: "finite {n. sm_find ds n \<noteq> None}"
proof -
  have "{n. sm_find ds n \<noteq> None} = fst ` set ds"
    by (force simp: sm_find_def map_of_eq_None_iff)
  then show ?thesis by simp
qed

lemma lowest_free:
  "sm_find ds (lowest_free ds) = None" "sm_find ds m = None \<Longrightarrow> lowest_free ds \<le> m"
proof -
  let ?free = "filter (\<lambda>n. sm_find ds n = None) [0..<Suc (length ds)]"
  have "\<exists>n \<in> set [0..<Suc (length ds)]. sm_find ds n = None"
  proof (rule ccontr)
    assume "\<not> ?thesis"
    then have "{0..<Suc (length ds)} \<subseteq> fst ` set ds"
      by (auto simp: sm_find_def map_of_eq_None_iff simp del: upt_Suc)
    then have "Suc (length ds) \<le> card (fst ` set ds)" using card_mono [of "fst ` set ds" "{0..<Suc (length ds)}"] by simp
    also have "\<dots> \<le> length ds" using card_image_le [of "set ds" fst] card_length [of ds] by simp
    finally show False by simp
  qed
  then have ne: "?free \<noteq> []" by (simp add: filter_empty_conv del: upt_Suc)
  then have mem: "lowest_free ds \<in> set ?free" unfolding lowest_free_def by (rule hd_in_set)
  then show "sm_find ds (lowest_free ds) = None" by (simp del: upt_Suc)
  show "lowest_free ds \<le> m" if "sm_find ds m = None"
  proof (rule ccontr)
    assume less: "\<not> lowest_free ds \<le> m"
    with that mem have m: "m \<in> set ?free" by (auto simp del: upt_Suc)
    obtain x xs where free: "?free = x # xs" using ne by (cases ?free) auto
    have "sorted ?free" by (simp add: sorted_wrt_filter del: upt_Suc)
    with m free have "lowest_free ds \<le> m" by (auto simp: lowest_free_def simp del: upt_Suc)
    with less show False by simp
  qed
qed

lemma lowest_free_eqI:
  assumes "sm_find ds n = None" "\<And>m. m < n \<Longrightarrow> sm_find ds m \<noteq> None"
  shows "lowest_free ds = n"
  using assms lowest_free [where ds = ds] by (metis antisym_conv1 le_less)

lemma open_close: "sm_inv ds \<Longrightarrow> sm_erase (lowest_free ds) (sm_assign (lowest_free ds) x ds) = ds"
  using sm.erase_emplace [where m = ds and k = "lowest_free ds" and v = x]
    sm.emplace_absent [where m = ds and k = "lowest_free ds" and v = x] lowest_free(1) [of ds]
  by simp

text \<open>A connection is open on its peer exactly when the constructor says so, and leaks nothing.\<close>

lemma try_addresses_opens:
  assumes "sm_inv ds" "try_addresses as c ds = (c', ds')"
  shows "cv_peer c' = cv_peer c \<and>
    (if Reachable \<in> set as
     then cv_state c' = CONNECTED \<and> cv_fd c' = Some (lowest_free ds) \<and>
       ds' = sm_assign (lowest_free ds) (Peer (cv_peer c)) ds
     else cv_state c' = CONNECTION_FAILURE \<and> ds' = ds)"
  using assms
  by (induction as c ds rule: try_addresses.induct) (auto simp: Let_def open_close split: if_splits)

lemma newConnection_opens:
  assumes "sm_inv ds" "newConnection peer addrs ds = (c, ds')"
  shows "cv_peer c = peer \<and>
    (if \<exists>as. addrs = Some as \<and> Reachable \<in> set as
     then cv_state c = CONNECTED \<and> cv_fd c = Some (lowest_free ds) \<and>
       ds' = sm_assign (lowest_free ds) (Peer peer) ds
     else cv_state c = CONNECTION_FAILURE \<and> ds' = ds)"
proof (cases addrs)
  case None
  with assms show ?thesis by (auto simp: newConnection_def)
next
  case (Some as)
  with assms(2) have "try_addresses as \<lparr>cv_fd = Some 0, cv_state = NOT_INITIALIZED, cv_peer = peer\<rparr> ds = (c, ds')"
    by (simp add: newConnection_def)
  from try_addresses_opens [OF assms(1) this] Some show ?thesis by simp
qed

lemma connection_closes_itself:
  assumes "sm_inv ds" "newConnection peer addrs ds = (c, ds')"
  shows "destroyConnection c ds' = ds"
  using newConnection_opens [OF assms] assms(1)
  by (auto simp: destroyConnection_def open_close split: if_splits)

text \<open>The destructor of an object that was moved from closes the connection of the new one.\<close>

lemma moved_connection_is_closed:
  assumes "moveConnection c = (new, old)" "cv_state c = CONNECTED"
  shows "fst (conn_sendRequest new (destroyConnection old ds)) = None"
  using assms
  by (auto simp: moveConnection_def destroyConnection_def conn_sendRequest_def sm_find_sm_erase split: option.splits)

section \<open>What else is open does not matter\<close>

text \<open>Two tables whose free descriptors correspond in their order.\<close>

definition renames :: "(nat \<Rightarrow> nat) \<Rightarrow> descriptors \<Rightarrow> descriptors \<Rightarrow> bool" where
  "renames f ds ds' \<longleftrightarrow>
     sm_inv ds \<and> sm_inv ds' \<and> strict_mono f \<and> (\<forall>n. sm_find ds' (f n) = sm_find ds n) \<and> (\<forall>m. m \<notin> range f \<longrightarrow> sm_find ds' m \<noteq> None)"

definition rename_conn :: "(nat \<Rightarrow> nat) \<Rightarrow> conn \<Rightarrow> conn" where
  "rename_conn f c = c\<lparr>cv_fd := map_option f (cv_fd c)\<rparr>"

lemma rename_conn_simps [simp]:
  "cv_fd (rename_conn f c) = map_option f (cv_fd c)" "cv_state (rename_conn f c) = cv_state c"
  "cv_peer (rename_conn f c) = cv_peer c"
  by (simp_all add: rename_conn_def)

lemma rename_lowest: "renames f ds ds' \<Longrightarrow> lowest_free ds' = f (lowest_free ds)"
  using lowest_free(1) [of ds]
  by (intro lowest_free_eqI) (auto simp: renames_def, metis lowest_free(2) not_le option.exhaust rangeE strict_mono_less)

lemma rename_assign: "renames f ds ds' \<Longrightarrow> renames f (sm_assign n x ds) (sm_assign (f n) x ds')"
  by (auto simp: renames_def sm_find_sm_assign sm_inv_sm_assign strict_mono_eq)

lemma rename_erase: "renames f ds ds' \<Longrightarrow> renames f (sm_erase n ds) (sm_erase (f n) ds')"
  by (auto simp: renames_def sm_find_sm_erase sm_inv_sm_erase strict_mono_eq)

lemma rename_destroy: "renames f ds ds' \<Longrightarrow> renames f (destroyConnection c ds) (destroyConnection (rename_conn f c) ds')"
  by (auto simp: destroyConnection_def rename_erase split: option.split)

lemma rename_destroy_all:
  "renames f ds ds' \<Longrightarrow> renames f (fold destroyConnection cs ds) (fold destroyConnection (map (rename_conn f) cs) ds')"
  by (induction cs arbitrary: ds ds') (auto intro: rename_destroy)

lemma rename_send:
  "renames f ds ds' \<Longrightarrow> conn_sendRequest (rename_conn f c) ds' =
    (fst (conn_sendRequest c ds), rename_conn f (snd (conn_sendRequest c ds)))"
  by (auto simp: conn_sendRequest_def renames_def rename_conn_def split: option.split opened.split)

lemma rename_emplace:
  assumes "renames f ds ds'" "emplace_back i (Some [Reachable]) v ds = (w, es)"
  shows "\<exists>es'. emplace_back i (Some [Reachable]) (v\<lparr>vec_elems := map (rename_conn f) (vec_elems v)\<rparr>) ds' =
      (w\<lparr>vec_elems := map (rename_conn f) (vec_elems w)\<rparr>, es') \<and> renames f es es'"
proof -
  note opened = rename_assign [OF assms(1), of "lowest_free ds" "Peer i"]
  have dtor: "destroyConnection \<circ> snd \<circ> moveConnection = destroyConnection" "fst \<circ> moveConnection = (\<lambda>c. c)"
    by (simp_all add: fun_eq_iff moveConnection_def)
  from assms(2) opened rename_destroy_all [OF opened, of "vec_elems v"] show ?thesis
    by (auto simp: emplace_back_def newConnection_def Let_def rename_lowest [OF assms(1)] rename_conn_def dtor
        split: if_splits)
qed

lemma rename_result_loop:
  "renames f ds ds' \<Longrightarrow> result_loop ids (v\<lparr>vec_elems := map (rename_conn f) (vec_elems v)\<rparr>) ds' = result_loop ids v ds"
proof (induction ids arbitrary: v ds ds')
  case (Cons i ids)
  obtain w es where w: "emplace_back i (Some [Reachable]) v ds = (w, es)" by fastforce
  obtain es' where es': "emplace_back i (Some [Reachable]) (v\<lparr>vec_elems := map (rename_conn f) (vec_elems v)\<rparr>) ds' =
      (w\<lparr>vec_elems := map (rename_conn f) (vec_elems w)\<rparr>, es')" "renames f es es'"
    using rename_emplace [OF Cons.prems w] by blast
  have ne: "vec_elems w \<noteq> []" using w by (auto simp: emplace_back_def Let_def split: prod.splits if_splits)
  let ?c = "last (vec_elems w)"
  have "conn_sendRequest (last (map (rename_conn f) (vec_elems w))) es' =
      (fst (conn_sendRequest ?c es), rename_conn f (snd (conn_sendRequest ?c es)))"
    using rename_send [OF es'(2)] ne by (simp add: last_map)
  moreover have "result_loop ids (w\<lparr>vec_elems := map (rename_conn f) (butlast (vec_elems w) @ [snd (conn_sendRequest ?c es)])\<rparr>) es' =
      result_loop ids (w\<lparr>vec_elems := butlast (vec_elems w) @ [snd (conn_sendRequest ?c es)]\<rparr>) es"
    using Cons.IH [OF es'(2), of "w\<lparr>vec_elems := butlast (vec_elems w) @ [snd (conn_sendRequest ?c es)]\<rparr>"] by simp
  ultimately show ?case
    by (cases "fst (conn_sendRequest ?c es)") (simp_all add: w es'(1) Let_def split_beta map_butlast)
qed simp

lemma renames_enumerated:
  assumes "sm_inv ds" "infinite F" "F = {m. sm_find ds m = None}"
  shows "renames (enumerate F) [] ds"
  unfolding renames_def
proof (intro conjI allI impI)
  show "strict_mono (enumerate F)" by (rule strict_monoI) (rule enumerate_mono [OF _ assms(2)])
  have "enumerate F n \<in> F" for n by (rule enumerate_in_set [OF assms(2)])
  then show "sm_find ds (enumerate F n) = sm_find [] n" for n unfolding assms(3) by simp
  show "sm_find ds m \<noteq> None" if "m \<notin> range (enumerate F)" for m
  proof -
    have "m \<notin> F" using that by (simp only: range_enumerate [OF assms(2)] not_False_eq_True)
    then show ?thesis unfolding assms(3) by simp
  qed
qed (use assms(1) in simp_all)

lemma renames_free:
  assumes "sm_inv ds"
  obtains f where "renames f [] ds"
proof -
  have "- {m. sm_find ds m \<noteq> None} = {m. sm_find ds m = None}" by auto
  then have "infinite {m. sm_find ds m = None}"
    using Diff_infinite_finite [OF finite_open infinite_UNIV_nat, of ds] by (simp add: Compl_eq_Diff_UNIV)
  from renames_enumerated [OF assms this HOL.refl] that show ?thesis by blast
qed

lemma result_loop_table:
  assumes "sm_inv ds"
  shows "result_loop ids empty_vector ds = reached ids"
proof -
  have "result_loop ids empty_vector bs = result_loop ids empty_vector []" if inv: "sm_inv bs" for bs
  proof -
    obtain f where "renames f [] bs" by (rule renames_free [OF inv])
    from rename_result_loop [OF this, of ids empty_vector] show ?thesis by (simp add: empty_vector_def)
  qed
  from this [OF assms] this [of std_streams] show ?thesis by (simp add: reached_def std_streams_def sm_inv_def)
qed

section \<open>Which servers are reached\<close>

lemma closing_keeps: "sm_find (fold destroyConnection cs ds) n = Some x \<Longrightarrow> sm_find ds n = Some x"
proof (induction cs arbitrary: ds)
  case (Cons c cs)
  then have "sm_find (destroyConnection c ds) n = Some x" by simp
  then show ?case by (auto simp: destroyConnection_def sm_find_sm_erase split: if_splits option.splits)
qed simp

lemma closing_inv: "sm_inv ds \<Longrightarrow> sm_inv (fold destroyConnection cs ds)"
  by (induction cs arbitrary: ds) (auto simp: destroyConnection_def sm_inv_sm_erase split: option.split)

lemma emplaced:
  assumes "sm_inv ds" "emplace_back i (Some [Reachable]) v ds = (w, es)"
  shows "sm_inv es \<and> vec_elems w \<noteq> [] \<and> fst (conn_sendRequest (last (vec_elems w)) es) \<in> {None, Some i}"
proof -
  let ?as = "sm_assign (lowest_free ds) (Peer i) ds"
  have dtor: "destroyConnection \<circ> snd \<circ> moveConnection = destroyConnection"
    by (simp add: fun_eq_iff moveConnection_def)
  have as: "sm_inv ?as" by (rule sm_inv_sm_assign [OF assms(1)])
  have es: "es = ?as \<or> es = fold destroyConnection (vec_elems v) ?as"
    and c: "cv_fd (last (vec_elems w)) = Some (lowest_free ds)" "vec_elems w \<noteq> []"
    using assms(2) by (auto simp: emplace_back_def newConnection_def Let_def dtor split: if_splits)
  have "sm_find es (lowest_free ds) \<in> {None, Some (Peer i)}"
    using es closing_keeps [of "vec_elems v" ?as "lowest_free ds"]
    by (cases "sm_find es (lowest_free ds)") (auto simp: sm_find_sm_assign [OF assms(1)])
  then have "fst (conn_sendRequest (last (vec_elems w)) es) \<in> {None, Some i}"
    using c(1) by (auto simp: conn_sendRequest_def)
  with es c(2) as closing_inv show ?thesis by blast
qed

lemma result_loop_subset: "sm_inv ds \<Longrightarrow> subseq (result_loop ids v ds) ids"
proof (induction ids arbitrary: v ds)
  case (Cons i ids)
  obtain w es where w: "emplace_back i (Some [Reachable]) v ds = (w, es)" by fastforce
  note E = emplaced [OF Cons.prems w]
  then have "subseq (result_loop ids u es) ids" for u using Cons.IH by blast
  with E show ?case by (auto simp: w Let_def split_beta)
qed simp

lemma reached_subseq: "subseq (reached ids) ids"
  unfolding reached_def by (rule result_loop_subset) (simp add: std_streams_def sm_inv_def)

lemma reached_two: "length ids \<le> 2 \<Longrightarrow> reached ids = ids"
proof -
  have "reached [] = []" "reached [a] = [a]" "reached [a, b] = [a, b]" for a b
    by code_simp+
  moreover assume "length ids \<le> 2"
  then have "ids = [] \<or> (\<exists>a. ids = [a]) \<or> (\<exists>a b. ids = [a, b])"
    by (cases ids; cases "tl ids") auto
  ultimately show ?thesis by auto
qed

lemma reached_three: "reached [a, b, c] = [a, b]"
  by code_simp

lemma reached_eight: "reached [a, b, c, d, e, f, g, h] = [a, b, d, f, g, h]"
  by code_simp

end
