(* ===== verification/Transaction_Manager.thy ===== *)
theory Transaction_Manager
  imports Transaction_Run Transaction_Message Descriptors
begin

text \<open>
  \<open>src/server/transactions/TransactionManager.{h,cpp}\<close>: the two-phase commit on one
  server, for the coordinator (\<open>doTransaction\<close>) and for a replica
  (\<open>receiveNewTransaction\<close>).  The other threads of the server hand votes and results to
  the manager while it waits; they are lists of arrivals, and an exhausted list is a wait
  that never ends.  What the manager sends is a log.  Locks are implicit: a method that
  holds the write lock runs alone on the shared state.
\<close>

text \<open>\<open>src/server/Replica.h\<close>: what a server knows of another one.\<close>

record replica_info =
  ri_id :: int
  ri_host :: string
  ri_adminPort :: int
  ri_servicePort :: int
  ri_transactionPort :: int
  ri_isCoordinator :: bool
  ri_alive :: bool

record mgr_world = world +
  m_isTransactionActive :: bool
  m_isCoordinator :: bool
  m_activeSet :: bool
  m_lastTid :: int
  m_votingTotal :: int
  m_votes :: int
  m_hasResult :: bool
  m_result :: bool
  m_coordinator_id :: int
  m_replicas :: "replica_info list"
  m_sent :: "(int \<times> outer_msg) list"

section \<open>Voting\<close>

definition getActiveServers :: "'a mgr_world_scheme \<Rightarrow> int list" where
  "getActiveServers w = map ri_id (filter ri_alive (m_replicas w))"

definition send_to :: "int \<Rightarrow> outer_msg \<Rightarrow> ('a mgr_world_scheme, unit) cpp" where
  "send_to i m = modifyC (\<lambda>w. w\<lparr>m_sent := m_sent w @ [(i, m)]\<rparr>)"

definition vote_of :: "bool \<Rightarrow> transaction_vote" where
  "vote_of b = (if b then COMMIT_VOTE else ROLLBACK_VOTE)"

definition startVoting :: "('a mgr_world_scheme, unit) cpp" where
  "startVoting =
     modifyC (\<lambda>w. w\<lparr>m_votingTotal := int (length (getActiveServers w)) + 1, m_votes := 0\<rparr>)"

text \<open>How a vote for the active transaction changes the counter.\<close>

definition count_vote :: "bool \<Rightarrow> int \<Rightarrow> int" where
  "count_vote vote votes = (if vote then (if votes = -1 then votes else votes + 1) else -1)"

definition addVote :: "bool \<Rightarrow> int \<Rightarrow> ('a mgr_world_scheme, unit) cpp" where
  "addVote vote tid =
     bindC (getC (\<lambda>w. w)) (\<lambda>w.
       if \<not> m_activeSet w then undefinedC UninitialisedPointer
       else if tid \<noteq> t_tid (w_txn w) then retC ()
       else modifyC (\<lambda>w. w\<lparr>m_votes := count_vote vote (m_votes w)\<rparr>))"

definition addCoordinatorVote :: "bool \<Rightarrow> ('a mgr_world_scheme, unit) cpp" where
  "addCoordinatorVote vote = bindC (getTxn t_tid) (\<lambda>tid. addVote vote tid)"

definition deliverVotes :: "(bool \<times> int) list \<Rightarrow> ('a mgr_world_scheme, unit) cpp" where
  "deliverVotes vs = forC vs (\<lambda>(vote, tid). addVote vote tid)"

fun waitEndVoting :: "(bool \<times> int) list \<Rightarrow> ('a mgr_world_scheme, bool) cpp" where
  "waitEndVoting arrivals =
     bindC (getC (\<lambda>w. m_votes w < m_votingTotal w \<and> m_votes w \<noteq> -1)) (\<lambda>waiting.
       if waiting then
         (case arrivals of
            [] \<Rightarrow> blockC
          | (vote, tid) # rest \<Rightarrow> seqC (addVote vote tid) (waitEndVoting rest))
       else getC (\<lambda>w. m_votes w = m_votingTotal w))"

declare waitEndVoting.simps [simp del]

section \<open>Ending a transaction\<close>

definition commitTransaction :: "env \<Rightarrow> ('a mgr_world_scheme, unit) cpp" where
  "commitTransaction e =
     seqC (commit e) (modifyC (\<lambda>w. w\<lparr>m_isTransactionActive := False\<rparr>))"

definition rollbackTransaction :: "env \<Rightarrow> ('a mgr_world_scheme, unit) cpp" where
  "rollbackTransaction e =
     seqC (forceRollback e) (modifyC (\<lambda>w. w\<lparr>m_isTransactionActive := False\<rparr>))"

definition setIsCoordinator :: "env \<Rightarrow> bool \<Rightarrow> ('a mgr_world_scheme, unit) cpp" where
  "setIsCoordinator e b =
     bindC (getC m_isTransactionActive) (\<lambda>active.
       seqC (whenC active (rollbackTransaction e)) (modifyC (\<lambda>w. w\<lparr>m_isCoordinator := b\<rparr>)))"

text \<open>
  The connections are the elements of a vector that grows while it is used: the result goes
  to the servers that \<open>Descriptors\<close> calls \<open>reached\<close>.
\<close>

definition sendResult :: "bool \<Rightarrow> int \<Rightarrow> ('a mgr_world_scheme, unit) cpp" where
  "sendResult res tid =
     bindC (getC getActiveServers) (\<lambda>ids. forC (reached ids) (\<lambda>i. send_to i (ResultMsg (vote_of res) tid)))"

section \<open>The coordinator\<close>

definition initTransaction :: "('a mgr_world_scheme, unit) cpp" where
  "initTransaction =
     bindC (getC m_lastTid) (\<lambda>last.
       if 2 ^ 31 - 1 \<le> last then undefinedC IntegerOverflow
       else seqC (modifyC (\<lambda>w. w\<lparr>m_isTransactionActive := True, m_lastTid := last + 1\<rparr>))
           (setTid (last + 1)))"

definition executeTransactionInNodes :: "('a mgr_world_scheme, unit) cpp" where
  "executeTransactionInNodes =
     bindC (getC (\<lambda>w. (getActiveServers w, serialize (w_txn w) empty_transaction_msg))) (\<lambda>(ids, m).
       forC ids (\<lambda>i. send_to i (TransactionMsg m)))"

text \<open>Up to the coordinator's own vote; votes may arrive once the transaction is sent.\<close>

definition startTransaction :: "env \<Rightarrow> txn_kind \<Rightarrow> (bool \<times> int) list \<Rightarrow> ('a mgr_world_scheme, unit) cpp" where
  "startTransaction e k early =
     seqC (modifyC (\<lambda>w. w\<lparr>w_txn := new_transaction k, m_activeSet := True, m_isTransactionActive := True\<rparr>))
    (seqC setState
    (seqC initTransaction
    (seqC startVoting
    (seqC executeTransactionInNodes
    (seqC (deliverVotes early)
    (seqC (run e)
          (bindC (getTxn t_is_prepared) addCoordinatorVote)))))))"

definition endTransaction :: "env \<Rightarrow> bool \<Rightarrow> ('a mgr_world_scheme, bool) cpp" where
  "endTransaction e res =
     bindC (getTxn t_tid) (\<lambda>tid.
       seqC (sendResult res tid)
         (if res then seqC (commitTransaction e) (retC True)
          else seqC (rollbackTransaction e) (retC False)))"

definition doTransaction ::
  "env \<Rightarrow> txn_kind \<Rightarrow> (bool \<times> int) list \<Rightarrow> (bool \<times> int) list \<Rightarrow> ('a mgr_world_scheme, bool) cpp" where
  "doTransaction e k early late =
     bindC (getC (\<lambda>w. w)) (\<lambda>w.
       if \<not> m_isCoordinator w then retC False
       else if m_isTransactionActive w then retC False
       else seqC (startTransaction e k early)
           (bindC (waitEndVoting late) (endTransaction e)))"

section \<open>A replica\<close>

text \<open>\<open>servers.at(coordinator_id)\<close> throws when the coordinator is not in the table.\<close>

definition sendVote :: "bool \<Rightarrow> int \<Rightarrow> ('a mgr_world_scheme, unit) cpp" where
  "sendVote vote tid =
     bindC (getC (\<lambda>w. w)) (\<lambda>w.
       if m_coordinator_id w \<in> set (map ri_id (m_replicas w))
       then send_to (m_coordinator_id w) (VoteMsg (vote_of vote) tid)
       else throwC)"

definition receiveResult :: "bool \<Rightarrow> int \<Rightarrow> ('a mgr_world_scheme, unit) cpp" where
  "receiveResult res tid =
     bindC (getC (\<lambda>w. w)) (\<lambda>w.
       if \<not> m_activeSet w then undefinedC UninitialisedPointer
       else if tid \<noteq> t_tid (w_txn w) then retC ()
       else modifyC (\<lambda>w. w\<lparr>m_result := res, m_hasResult := True\<rparr>))"

fun waitResult :: "(bool \<times> int) list \<Rightarrow> ('a mgr_world_scheme, bool) cpp" where
  "waitResult arrivals =
     bindC (getC (\<lambda>w. w)) (\<lambda>w.
       if m_hasResult w then
         seqC (modifyC (\<lambda>w. w\<lparr>m_hasResult := False\<rparr>)) (retC (m_result w))
       else
         (case arrivals of
            [] \<Rightarrow> blockC
          | (res, tid) # rest \<Rightarrow> seqC (receiveResult res tid) (waitResult rest)))"

declare waitResult.simps [simp del]

definition voteTransaction :: "env \<Rightarrow> transaction \<Rightarrow> ('a mgr_world_scheme, unit) cpp" where
  "voteTransaction e t =
     seqC (modifyC (\<lambda>w. w\<lparr>w_txn := t, m_activeSet := True, m_isTransactionActive := True\<rparr>))
    (seqC setState
    (seqC (run e)
          (bindC (getTxn t_is_prepared) (\<lambda>ok. sendVote ok (t_tid t)))))"

definition obeyResult :: "env \<Rightarrow> bool \<Rightarrow> ('a mgr_world_scheme, bool) cpp" where
  "obeyResult e res =
     (if res then seqC (commitTransaction e) (retC True)
      else seqC (rollbackTransaction e) (retC False))"

definition receiveNewTransaction ::
  "env \<Rightarrow> transaction \<Rightarrow> (bool \<times> int) list \<Rightarrow> ('a mgr_world_scheme, bool) cpp" where
  "receiveNewTransaction e t results =
     bindC (getC (\<lambda>w. w)) (\<lambda>w.
       if m_isCoordinator w then retC False
       else if m_isTransactionActive w then retC False
       else seqC (voteTransaction e t)
           (bindC (waitResult results) (obeyResult e)))"

section \<open>The constructor\<close>

definition TransactionManager :: "bool \<Rightarrow> world \<Rightarrow> replica_info list \<Rightarrow> int \<Rightarrow> mgr_world" where
  "TransactionManager isCoordinator w replicas coordinator_id =
     world.extend w \<lparr>m_isTransactionActive = False, m_isCoordinator = isCoordinator, m_activeSet = False,
       m_lastTid = getLastTid (w_shared w), m_votingTotal = 0, m_votes = 0, m_hasResult = False,
       m_result = False, m_coordinator_id = coordinator_id, m_replicas = replicas, m_sent = []\<rparr>"

end
