(* ===== verification/Manager_Correct.thy ===== *)
theory Manager_Correct
  imports Transaction_Manager
begin

text \<open>
  The two-phase commit on one server: the outcome of the vote is the unanimity of the
  first votes that arrive, a transaction of the coordinator is atomic (its whole effect or
  none of it, in memory and on disk), and a replica does what the coordinator decides.
\<close>

section \<open>The vote\<close>

text \<open>The votes for a transaction, in the order of their arrival.\<close>

definition ballots :: "int \<Rightarrow> (bool \<times> int) list \<Rightarrow> bool list" where
  "ballots tid vs = map fst (filter (\<lambda>v. snd v = tid) vs)"

text \<open>
  The rule of the two-phase commit over a sequence of ballots: the first \<open>n\<close> must all be
  positive.  \<open>None\<close>: undecided.
\<close>

definition unanimous :: "nat \<Rightarrow> bool list \<Rightarrow> bool option" where
  "unanimous n bs =
     (if False \<in> set (take n bs) then Some False
      else if length bs < n then None
      else Some True)"

definition tally :: "int \<Rightarrow> (bool \<times> int) list \<Rightarrow> int \<Rightarrow> int" where
  "tally tid vs c = fold (\<lambda>v c. if snd v = tid then count_vote (fst v) c else c) vs c"

fun decide :: "int \<Rightarrow> int \<Rightarrow> int \<Rightarrow> (bool \<times> int) list \<Rightarrow> bool option \<times> int" where
  "decide tid needed c vs =
     (if c < needed \<and> c \<noteq> -1 then
        (case vs of
           [] \<Rightarrow> (None, c)
         | v # vs \<Rightarrow> decide tid needed (if snd v = tid then count_vote (fst v) c else c) vs)
      else (Some (c = needed), c))"

declare decide.simps [simp del]

lemma ballots_simps [simp]:
  "ballots tid [] = []"
  "ballots tid (v # vs) = (if snd v = tid then fst v # ballots tid vs else ballots tid vs)"
  "ballots tid (us @ vs) = ballots tid us @ ballots tid vs"
  by (simp_all add: ballots_def)

lemma tally_out: "tally tid vs (-1) = -1"
  by (induction vs) (auto simp: tally_def count_vote_def)

lemma tally_spec:
  "0 \<le> c \<Longrightarrow> tally tid vs c = (if False \<in> set (ballots tid vs) then -1 else c + int (length (ballots tid vs)))"
proof (induction vs arbitrary: c)
  case Nil
  then show ?case by (simp add: tally_def)
next
  case (Cons v vs)
  have "tally tid (v # vs) c = tally tid vs (if snd v = tid then count_vote (fst v) c else c)"
    by (simp add: tally_def)
  with Cons show ?case by (auto simp: count_vote_def tally_out)
qed

lemma decide_out: "needed \<noteq> -1 \<Longrightarrow> decide tid needed (-1) vs = (Some False, -1)"
  by (simp add: decide.simps)

lemma decide_spec:
  assumes "0 \<le> c" "c \<le> needed" "0 < needed"
  shows "fst (decide tid needed c vs) = unanimous (nat (needed - c)) (ballots tid vs)"
  using assms
proof (induction vs arbitrary: c)
  case Nil
  then show ?case by (auto simp: decide.simps unanimous_def)
next
  case (Cons v vs)
  show ?case
  proof (cases "c = needed")
    case True
    with Cons.prems show ?thesis by (simp add: decide.simps unanimous_def)
  next
    case False
    then have n: "nat (needed - c) = Suc (nat (needed - (c + 1)))" using Cons.prems by simp
    have step: "decide tid needed c (v # vs) =
        decide tid needed (if snd v = tid then count_vote (fst v) c else c) vs"
      using False Cons.prems by (simp add: decide.simps [of tid needed c])
    show ?thesis
    proof (cases "snd v = tid \<and> \<not> fst v")
      case True
      with Cons.prems show ?thesis by (simp add: step n count_vote_def decide_out unanimous_def)
    next
      case no: False
      with Cons.IH [of c] Cons.IH [of "c + 1"] Cons.prems False show ?thesis
        by (auto simp: step n count_vote_def unanimous_def)
    qed
  qed
qed

text \<open>
  Votes that arrive before and after the coordinator's own vote count alike.
\<close>

lemma vote_outcome:
  assumes "length (ballots tid early) \<le> n"
  shows "fst (decide tid (int n + 1) (count_vote True (tally tid early 0)) late) =
    unanimous n (ballots tid (early @ late))"
proof (cases "False \<in> set (ballots tid early)")
  case True
  with assms show ?thesis
    by (simp add: tally_spec count_vote_def decide_out unanimous_def)
next
  case False
  have "nat (int n - int (length (ballots tid early))) = n - length (ballots tid early)"
    by simp
  with False assms show ?thesis
    by (auto simp: tally_spec count_vote_def decide_spec unanimous_def)
qed

section \<open>Executing the manager's primitives\<close>

lemma send_all:
  "forC ids (\<lambda>i. send_to i m) w = Returns () (w\<lparr>m_sent := m_sent w @ map (\<lambda>i. (i, m)) ids\<rparr>)"
  by (induction ids arbitrary: w) (simp_all add: send_to_def cpp_simps)

lemma addVote_simp [cpp_simps]:
  "m_activeSet w \<Longrightarrow> addVote vote tid w =
     Returns () (w\<lparr>m_votes := (if tid = t_tid (w_txn w) then count_vote vote (m_votes w) else m_votes w)\<rparr>)"
  by (simp add: addVote_def cpp_simps)

lemma deliverVotes_simp [cpp_simps]:
  "m_activeSet w \<Longrightarrow> deliverVotes vs w =
     Returns () (w\<lparr>m_votes := tally (t_tid (w_txn w)) vs (m_votes w)\<rparr>)"
proof (induction vs arbitrary: w)
  case Nil
  then show ?case by (simp add: deliverVotes_def tally_def cpp_simps)
next
  case (Cons v vs)
  from Cons.prems Cons.IH [unfolded deliverVotes_def] show ?case
    by (cases v) (auto simp: deliverVotes_def tally_def cpp_simps)
qed

lemma waitEndVoting_simp:
  "m_activeSet w \<Longrightarrow> waitEndVoting vs w =
     (case decide (t_tid (w_txn w)) (m_votingTotal w) (m_votes w) vs of
        (None, c) \<Rightarrow> Blocks (w\<lparr>m_votes := c\<rparr>)
      | (Some b, c) \<Rightarrow> Returns b (w\<lparr>m_votes := c\<rparr>))"
proof (induction vs arbitrary: w)
  case Nil
  then show ?case by (simp add: waitEndVoting.simps [of "[]"] decide.simps cpp_simps)
next
  case (Cons v vs)
  obtain b t where v: "v = (b, t)" by (cases v)
  let ?w = "w\<lparr>m_votes := (if t = t_tid (w_txn w) then count_vote b (m_votes w) else m_votes w)\<rparr>"
  have "waitEndVoting vs ?w =
     (case decide (t_tid (w_txn ?w)) (m_votingTotal ?w) (m_votes ?w) vs of
        (None, c) \<Rightarrow> Blocks (?w\<lparr>m_votes := c\<rparr>)
      | (Some b, c) \<Rightarrow> Returns b (?w\<lparr>m_votes := c\<rparr>))"
    by (rule Cons.IH) (use Cons.prems in simp)
  with Cons.prems v show ?case
    by (simp add: waitEndVoting.simps [of "(b, t) # vs"] decide.simps [of _ _ _ "(b, t) # vs"] cpp_simps
        cong: prod.case_cong option.case_cong)
qed

section \<open>The coordinator\<close>

text \<open>A coordinator between transactions; \<open>tid\<close> is the id of the next one.\<close>

definition coordinator_idle :: "env \<Rightarrow> 'a mgr_world_scheme \<Rightarrow> bool" where
  "coordinator_idle e w \<longleftrightarrow>
     m_isCoordinator w \<and> \<not> m_isTransactionActive w \<and> m_lastTid w < 2 ^ 31 - 1 \<and>
     disk_idle e (w_disk w)"

definition next_tid :: "'a mgr_world_scheme \<Rightarrow> int" where
  "next_tid w = m_lastTid w + 1"

definition broadcast :: "outer_msg \<Rightarrow> 'a mgr_world_scheme \<Rightarrow> (int \<times> outer_msg) list" where
  "broadcast m w = map (\<lambda>i. (i, m)) (getActiveServers w)"

definition txn_message :: "txn_kind \<Rightarrow> int \<Rightarrow> outer_msg" where
  "txn_message k tid =
     TransactionMsg (serialize ((new_transaction k)\<lparr>t_tid := tid\<rparr>) empty_transaction_msg)"

text \<open>The manager's own fields while a transaction is active.\<close>

definition voting_world ::
  "'a mgr_world_scheme \<Rightarrow> txn_kind \<Rightarrow> int \<Rightarrow> disk \<Rightarrow> transaction \<Rightarrow> 'a mgr_world_scheme" where
  "voting_world w k votes d t =
     w\<lparr>w_disk := d, w_txn := t, m_isTransactionActive := True, m_activeSet := True,
       m_lastTid := next_tid w, m_votingTotal := int (length (getActiveServers w)) + 1, m_votes := votes,
       m_sent := m_sent w @ broadcast (txn_message k (next_tid w)) w\<rparr>"

lemma txn_message_work:
  "txn_message k tid = TransactionMsg (serialize
     \<lparr>t_kind = k, t_tid = tid, t_work_state = Some s, t_hasRollback = False, t_is_committed = False,
      t_has_began = False, t_is_prepared = False\<rparr> empty_transaction_msg)"
  by (cases k) (simp_all add: txn_message_def new_transaction_def serialize_defs)

lemma getActiveServers_cong: "m_replicas v = m_replicas w \<Longrightarrow> getActiveServers v = getActiveServers w"
  by (simp add: getActiveServers_def)

text \<open>The world in which the coordinator runs the transaction itself.\<close>

lemma startTransaction_run:
  assumes "m_lastTid w < 2 ^ 31 - 1"
  shows "startTransaction e k early w =
    seqC (run e) (bindC (getTxn t_is_prepared) addCoordinatorVote)
      (voting_world w k (tally (next_tid w) early 0) (w_disk w)
        ((new_transaction k)\<lparr>t_tid := next_tid w, t_work_state := Some (w_shared w)\<rparr>))"
proof -
  have "getActiveServers (w\<lparr>w_txn := t, m_activeSet := a, m_isTransactionActive := b, m_lastTid := l\<rparr>) =
      getActiveServers w" for t a b l
    by (simp add: getActiveServers_def)
  with assms show ?thesis
    by (cases w) (simp add: startTransaction_def setState_def initTransaction_def startVoting_def setTid_def
      executeTransactionInNodes_def send_all voting_world_def next_tid_def broadcast_def txn_message_work [symmetric]
      new_transaction_def getActiveServers_def cpp_simps not_le [symmetric])
qed

lemma startTransaction_accepts:
  assumes "env_ok e" "coordinator_idle e w" "kind_ready e (fs_lookup (w_disk w)) k"
    and "txn_effect e (next_tid w) k (w_shared w) = Some s'"
  shows "\<exists>d. startTransaction e k early w = Returns ()
      (voting_world w k (count_vote True (tally (next_tid w) early 0)) d (prepared_txn k (next_tid w) s')) \<and>
    fs_wf d \<and> fs_lookup d = prepared_view e k (next_tid w) (fs_lookup (w_disk w))"
proof -
  let ?t = "(new_transaction k)\<lparr>t_tid := next_tid w, t_work_state := Some (w_shared w)\<rparr>"
  let ?w = "voting_world w k (tally (next_tid w) early 0) (w_disk w) ?t"
  have "fresh ?w k (next_tid w) (w_shared w)" "disk_idle e (w_disk ?w)"
    "kind_ready e (fs_lookup (w_disk ?w)) k"
    using assms(2,3) by (simp_all add: fresh_def voting_world_def coordinator_idle_def)
  from run_prepares [OF assms(1) this assms(4)] obtain d where
    d: "run e ?w = Returns True (?w\<lparr>w_disk := d, w_txn := prepared_txn k (next_tid w) s'\<rparr>)"
    "fs_wf d" "fs_lookup d = prepared_view e k (next_tid w) (fs_lookup (w_disk w))"
    by (auto simp: voting_world_def)
  have "startTransaction e k early w = Returns ()
      (voting_world w k (count_vote True (tally (next_tid w) early 0)) d (prepared_txn k (next_tid w) s'))"
    using assms(2) d(1)
    by (cases w) (simp add: startTransaction_run coordinator_idle_def cpp_simps addCoordinatorVote_def voting_world_def
        prepared_txn_def new_transaction_def)
  with d show ?thesis by blast
qed


lemma voting_world_simps [simp]:
  "w_txn (voting_world w k c d t) = t" "w_disk (voting_world w k c d t) = d"
  "w_shared (voting_world w k c d t) = w_shared w" "m_votes (voting_world w k c d t) = c"
  "m_activeSet (voting_world w k c d t)"
  "m_votingTotal (voting_world w k c d t) = int (length (getActiveServers w)) + 1"
  "getActiveServers (voting_world w k c d t) = getActiveServers w"
  "m_votes_update f (voting_world w k c d t) = voting_world w k (f c) d t"
  by (simp_all add: voting_world_def getActiveServers_def)

lemma prepared_txn_simps [simp]:
  "t_tid (prepared_txn k tid s) = tid" "t_kind (prepared_txn k tid s) = k"
  "t_work_state (prepared_txn k tid s) = Some s" "t_has_began (prepared_txn k tid s)"
  "\<not> t_hasRollback (prepared_txn k tid s)" "\<not> t_is_committed (prepared_txn k tid s)"
  by (simp_all add: prepared_txn_def new_transaction_def)

lemma doTransaction_voting:
  assumes "coordinator_idle e w" "t_tid t = next_tid w"
    and "startTransaction e k early w = Returns () (voting_world w k c d t)"
  shows "doTransaction e k early late w =
    (case decide (next_tid w) (int (length (getActiveServers w)) + 1) c late of
       (None, c) \<Rightarrow> Blocks (voting_world w k c d t)
     | (Some res, c) \<Rightarrow> endTransaction e res (voting_world w k c d t))"
  using assms
  by (simp add: doTransaction_def coordinator_idle_def cpp_simps waitEndVoting_simp
      split: prod.split option.split)

definition result_messages :: "bool \<Rightarrow> int \<Rightarrow> 'a mgr_world_scheme \<Rightarrow> (int \<times> outer_msg) list" where
  "result_messages res tid w = map (\<lambda>i. (i, ResultMsg (vote_of res) tid)) (reached (getActiveServers w))"

text \<open>The world after the result is sent and obeyed.\<close>

definition result_world ::
  "'a mgr_world_scheme \<Rightarrow> txn_kind \<Rightarrow> bool \<Rightarrow> int \<Rightarrow> disk \<Rightarrow> transaction \<Rightarrow> server_state \<Rightarrow> 'a mgr_world_scheme" where
  "result_world w k res votes d t s =
     w\<lparr>w_disk := d, w_txn := t, w_shared := s, m_isTransactionActive := False, m_activeSet := True,
       m_lastTid := next_tid w, m_votingTotal := int (length (getActiveServers w)) + 1, m_votes := votes,
       m_sent := m_sent w @ broadcast (txn_message k (next_tid w)) w @
         result_messages res (next_tid w) w\<rparr>"

lemma result_world_simps [simp]:
  "w_disk (result_world w k res c d t s) = d" "w_txn (result_world w k res c d t s) = t"
  "w_shared (result_world w k res c d t s) = s" "\<not> m_isTransactionActive (result_world w k res c d t s)"
  "m_lastTid (result_world w k res c d t s) = next_tid w"
  "m_isCoordinator (result_world w k res c d t s) = m_isCoordinator w"
  "m_sent (result_world w k res c d t s) = m_sent w @ broadcast (txn_message k (next_tid w)) w @
     result_messages res (next_tid w) w"
  by (simp_all add: result_world_def)

lemma sendResult_simp:
  "sendResult res tid w = Returns () (w\<lparr>m_sent := m_sent w @ result_messages res tid w\<rparr>)"
  by (simp add: sendResult_def send_all result_messages_def cpp_simps)

lemma endTransaction_commits:
  assumes "env_ok e" "coordinator_idle e w" "kind_ready e (fs_lookup (w_disk w)) k"
    and "fs_wf d" "fs_lookup d = prepared_view e k (next_tid w) (fs_lookup (w_disk w))"
  shows "\<exists>d'. endTransaction e True (voting_world w k c d (prepared_txn k (next_tid w) s)) =
      Returns True (result_world w k True c d' ((prepared_txn k (next_tid w) s)\<lparr>t_is_committed := True\<rparr>) s) \<and>
    fs_wf d' \<and> fs_lookup d' = committed_view e k (next_tid w) (fs_lookup (w_disk w))"
proof -
  let ?v = "voting_world w k c d (prepared_txn k (next_tid w) s)"
  let ?u = "?v\<lparr>m_sent := m_sent ?v @ result_messages True (next_tid w) ?v\<rparr>"
  have "disk_idle e (w_disk w)" using assms(2) by (simp add: coordinator_idle_def)
  from commit_publishes [OF assms(1) this assms(3), of ?u "next_tid w" s] assms(4,5) obtain d' where
    d': "commit e ?u = Returns True (?u\<lparr>w_disk := d',
      w_txn := (prepared_txn k (next_tid w) s)\<lparr>t_is_committed := True\<rparr>, w_shared := s\<rparr>)"
    "fs_wf d'" "fs_lookup d' = committed_view e k (next_tid w) (fs_lookup (w_disk w))"
    by auto
  from d'(1) have "endTransaction e True ?v =
      Returns True (result_world w k True c d' ((prepared_txn k (next_tid w) s)\<lparr>t_is_committed := True\<rparr>) s)"
    by (cases w) (simp add: endTransaction_def sendResult_simp commitTransaction_def cpp_simps,
      simp add: result_world_def voting_world_def broadcast_def result_messages_def getActiveServers_def next_tid_def)
  with d'(2,3) show ?thesis by blast
qed

lemma endTransaction_rolls_back:
  assumes "env_ok e" "coordinator_idle e w" "kind_ready e (fs_lookup (w_disk w)) k"
    and "fs_wf d" "fs_lookup d = prepared_view e k (next_tid w) (fs_lookup (w_disk w))"
  shows "endTransaction e False (voting_world w k c d (prepared_txn k (next_tid w) s)) =
    Returns False (result_world w k False c (w_disk w) (rolled_back_txn (prepared_txn k (next_tid w) s)) (w_shared w))"
proof -
  let ?v = "voting_world w k c d (prepared_txn k (next_tid w) s)"
  let ?u = "?v\<lparr>m_sent := m_sent ?v @ result_messages False (next_tid w) ?v\<rparr>"
  have "disk_idle e (w_disk w)" using assms(2) by (simp add: coordinator_idle_def)
  from rollback_restores [OF assms(1) this, of ?u s "next_tid w"] assms(3-5) have
    "rollback e ?u = Returns () (?u\<lparr>w_disk := w_disk w, w_txn := rolled_back_txn (w_txn ?u)\<rparr>)"
    by simp
  then show ?thesis
    by (cases w) (simp add: endTransaction_def sendResult_simp rollbackTransaction_def forceRollback_def cpp_simps,
      simp add: result_world_def voting_world_def broadcast_def result_messages_def getActiveServers_def next_tid_def)
qed

text \<open>
  A transaction that the coordinator accepts: the outcome is the unanimity of the votes, and
  the effect is all or nothing.
\<close>

lemma doTransaction_accepted:
  assumes "env_ok e" "coordinator_idle e w" "kind_ready e (fs_lookup (w_disk w)) k"
    and "txn_effect e (next_tid w) k (w_shared w) = Some s'"
    and "length (ballots (next_tid w) early) \<le> length (getActiveServers w)"
  shows "case unanimous (length (getActiveServers w)) (ballots (next_tid w) (early @ late)) of
      Some True \<Rightarrow> \<exists>c d t. doTransaction e k early late w = Returns True (result_world w k True c d t s') \<and>
        fs_wf d \<and> fs_lookup d = committed_view e k (next_tid w) (fs_lookup (w_disk w))
    | Some False \<Rightarrow> \<exists>c t. doTransaction e k early late w =
        Returns False (result_world w k False c (w_disk w) t (w_shared w))
    | None \<Rightarrow> \<exists>c d. doTransaction e k early late w =
        Blocks (voting_world w k c d (prepared_txn k (next_tid w) s'))"
proof -
  let ?n = "length (getActiveServers w)" and ?t = "prepared_txn k (next_tid w) s'"
  let ?c = "count_vote True (tally (next_tid w) early 0)"
  obtain d where d: "startTransaction e k early w = Returns () (voting_world w k ?c d ?t)"
    "fs_wf d" "fs_lookup d = prepared_view e k (next_tid w) (fs_lookup (w_disk w))"
    using startTransaction_accepts [OF assms(1-4)] by blast
  obtain r c where r: "decide (next_tid w) (int ?n + 1) ?c late = (r, c)" by fastforce
  have run: "doTransaction e k early late w = (case r of
      None \<Rightarrow> Blocks (voting_world w k c d ?t) | Some res \<Rightarrow> endTransaction e res (voting_world w k c d ?t))"
    using doTransaction_voting [OF assms(2) _ d(1)] r by simp
  have "unanimous ?n (ballots (next_tid w) (early @ late)) = r"
    using vote_outcome [OF assms(5), of late] r by simp
  moreover have "\<exists>c' d'. endTransaction e True (voting_world w k c d ?t) =
      Returns True (result_world w k True c d' (?t\<lparr>t_is_committed := True\<rparr>) s') \<and>
      fs_wf d' \<and> fs_lookup d' = committed_view e k (next_tid w) (fs_lookup (w_disk w))"
    using endTransaction_commits [OF assms(1-3) d(2,3)] by blast
  moreover note endTransaction_rolls_back [OF assms(1-3) d(2,3), of c s']
  ultimately show ?thesis
    using run by (cases r) (auto split: bool.split)
qed


text \<open>Transactions that the coordinator itself refuses.\<close>

lemma fresh_voting_world:
  "fresh (voting_world w k c d ((new_transaction k)\<lparr>t_tid := tid, t_work_state := Some s\<rparr>)) k tid s"
  by (simp add: fresh_def)

lemma refused_txn_simps [simp]:
  "t_tid (refused_txn k tid) = tid" "\<not> t_is_prepared (refused_txn k tid)" "t_has_began (refused_txn k tid)"
  "t_hasRollback (refused_txn k tid)" "\<not> t_is_committed (refused_txn k tid)"
  by (simp_all add: refused_txn_def new_transaction_def)

lemma doTransaction_refused:
  assumes "env_ok e" "coordinator_idle e w" "temp_absent e (fs_lookup (w_disk w)) k"
    and "txn_effect e (next_tid w) k (w_shared w) = None" "refuses_cleanly k"
  shows "doTransaction e k early late w =
    Returns False (result_world w k False (-1) (w_disk w) (refused_txn k (next_tid w)) (w_shared w))"
proof -
  let ?v = "voting_world w k (tally (next_tid w) early 0) (w_disk w)
    ((new_transaction k)\<lparr>t_tid := next_tid w, t_work_state := Some (w_shared w)\<rparr>)"
  have "run e ?v = Returns False (?v\<lparr>w_txn := refused_txn k (next_tid w)\<rparr>)"
    by (rule run_refuses) (use assms fresh_voting_world [of w k] in \<open>auto simp: coordinator_idle_def\<close>)
  then have "startTransaction e k early w =
      Returns () (voting_world w k (-1) (w_disk w) (refused_txn k (next_tid w)))"
    using assms(2) by (cases w) (simp add: startTransaction_run coordinator_idle_def addCoordinatorVote_def
        cpp_simps voting_world_def count_vote_def)
  from doTransaction_voting [OF assms(2) _ this] have "doTransaction e k early late w =
      endTransaction e False (voting_world w k (-1) (w_disk w) (refused_txn k (next_tid w)))"
    by (simp add: decide_out)
  then show ?thesis
    by (cases w) (simp add: endTransaction_def sendResult_simp rollbackTransaction_def forceRollback_def
        rollback_def cpp_simps,
      simp add: result_world_def voting_world_def broadcast_def result_messages_def getActiveServers_def next_tid_def)
qed

lemma doTransaction_uses_deleted_state:
  assumes "env_ok e" "coordinator_idle e w" "temp_absent e (fs_lookup (w_disk w)) k"
    and "txn_effect e (next_tid w) k (w_shared w) = None" "\<not> refuses_cleanly k"
    and "\<And>u p. k = CreateUserTransaction u p \<Longrightarrow> u \<noteq> []"
  shows "doTransaction e k early late w = Undefined UseAfterFree"
proof -
  let ?v = "voting_world w k (tally (next_tid w) early 0) (w_disk w)
    ((new_transaction k)\<lparr>t_tid := next_tid w, t_work_state := Some (w_shared w)\<rparr>)"
  have "run e ?v = Undefined UseAfterFree"
    by (rule run_refused_uses_deleted_state)
      (use assms fresh_voting_world [of w k] in \<open>auto simp: coordinator_idle_def\<close>)
  then show ?thesis
    using assms(2) by (simp add: doTransaction_def startTransaction_run coordinator_idle_def cpp_simps)
qed

lemma doTransaction_not_now:
  "\<not> m_isCoordinator w \<or> m_isTransactionActive w \<Longrightarrow> doTransaction e k early late w = Returns False w"
  by (auto simp: doTransaction_def cpp_simps)

section \<open>A replica\<close>

definition replica_idle :: "env \<Rightarrow> 'a mgr_world_scheme \<Rightarrow> bool" where
  "replica_idle e w \<longleftrightarrow>
     \<not> m_isCoordinator w \<and> \<not> m_isTransactionActive w \<and> disk_idle e (w_disk w) \<and>
     m_coordinator_id w \<in> set (map ri_id (m_replicas w))"

text \<open>The transaction object of a replica, as the request handler reconstructs it.\<close>

definition received :: "txn_kind \<Rightarrow> int \<Rightarrow> transaction" where
  "received k tid = (new_transaction k)\<lparr>t_tid := tid\<rparr>"

lemma received_txn_message:
  "txn_message k tid = TransactionMsg m \<Longrightarrow> receivedTransaction m = received k tid"
  by (auto simp: txn_message_def received_def received_serialize) (simp add: new_transaction_def)

text \<open>The first result for the transaction.\<close>

definition first_result :: "int \<Rightarrow> (bool \<times> int) list \<Rightarrow> bool option" where
  "first_result tid rs = (case ballots tid rs of [] \<Rightarrow> None | b # _ \<Rightarrow> Some b)"

lemma first_result_simps [simp]:
  "first_result tid [] = None"
  "first_result tid (r # rs) = (if snd r = tid then Some (fst r) else first_result tid rs)"
  by (simp_all add: first_result_def)

definition voted_world :: "'a mgr_world_scheme \<Rightarrow> int \<Rightarrow> bool \<Rightarrow> disk \<Rightarrow> transaction \<Rightarrow> 'a mgr_world_scheme" where
  "voted_world w tid vote d t =
     w\<lparr>w_disk := d, w_txn := t, m_isTransactionActive := True, m_activeSet := True,
       m_sent := m_sent w @ [(m_coordinator_id w, VoteMsg (vote_of vote) tid)]\<rparr>"

lemma voteTransaction_run:
  assumes "m_coordinator_id w \<in> set (map ri_id (m_replicas w))"
    and "run e (w\<lparr>w_txn := (received k tid)\<lparr>t_work_state := Some (w_shared w)\<rparr>,
        m_isTransactionActive := True, m_activeSet := True\<rparr>) =
      Returns b (w\<lparr>w_disk := d, w_txn := t, m_isTransactionActive := True, m_activeSet := True\<rparr>)"
  shows "voteTransaction e (received k tid) w = Returns () (voted_world w tid (t_is_prepared t) d t)"
  using assms
  by (cases w) (simp add: voteTransaction_def setState_def sendVote_def send_to_def voted_world_def cpp_simps
      received_def)

lemma voteTransaction_accepts:
  assumes "env_ok e" "replica_idle e w" "kind_ready e (fs_lookup (w_disk w)) k"
    and "txn_effect e tid k (w_shared w) = Some s'"
  shows "\<exists>d. voteTransaction e (received k tid) w = Returns () (voted_world w tid True d (prepared_txn k tid s')) \<and>
    fs_wf d \<and> fs_lookup d = prepared_view e k tid (fs_lookup (w_disk w))"
proof -
  let ?w = "w\<lparr>w_txn := (received k tid)\<lparr>t_work_state := Some (w_shared w)\<rparr>,
        m_isTransactionActive := True, m_activeSet := True\<rparr>"
  have "fresh ?w k tid (w_shared w)" "disk_idle e (w_disk ?w)" "kind_ready e (fs_lookup (w_disk ?w)) k"
    using assms(2,3) by (simp_all add: fresh_def received_def replica_idle_def)
  from run_prepares [OF assms(1) this assms(4)] obtain d where
    d: "run e ?w = Returns True (?w\<lparr>w_disk := d, w_txn := prepared_txn k tid s'\<rparr>)"
    "fs_wf d" "fs_lookup d = prepared_view e k tid (fs_lookup (w_disk w))"
    by auto
  have "voteTransaction e (received k tid) w = Returns ()
      (voted_world w tid (t_is_prepared (prepared_txn k tid s')) d (prepared_txn k tid s'))"
    by (rule voteTransaction_run [of _ _ _ _ True]) (use assms(2) d(1) in \<open>simp_all add: replica_idle_def\<close>)
  with d show ?thesis by (auto simp: prepared_txn_def)
qed

lemma voteTransaction_refuses:
  assumes "env_ok e" "replica_idle e w" "temp_absent e (fs_lookup (w_disk w)) k"
    and "txn_effect e tid k (w_shared w) = None" "refuses_cleanly k"
  shows "voteTransaction e (received k tid) w = Returns () (voted_world w tid False (w_disk w) (refused_txn k tid))"
proof -
  let ?w = "w\<lparr>w_txn := (received k tid)\<lparr>t_work_state := Some (w_shared w)\<rparr>,
        m_isTransactionActive := True, m_activeSet := True\<rparr>"
  have "run e ?w = Returns False (?w\<lparr>w_txn := refused_txn k tid\<rparr>)"
    by (rule run_refuses [of _ _ _ _ "w_shared w"]) (use assms in \<open>auto simp: fresh_def received_def replica_idle_def\<close>)
  then have "voteTransaction e (received k tid) w = Returns ()
      (voted_world w tid (t_is_prepared (refused_txn k tid)) (w_disk w) (refused_txn k tid))"
    by (intro voteTransaction_run [of _ _ _ _ False]) (use assms(2) in \<open>auto simp: replica_idle_def intro: mgr_world.equality\<close>)
  then show ?thesis by simp
qed

text \<open>How a replica waits: the first result for its transaction, unless one was left over.\<close>

lemma waitResult_simp:
  assumes "m_activeSet w" "\<not> m_hasResult w"
  shows "waitResult rs w =
    (case first_result (t_tid (w_txn w)) rs of
       None \<Rightarrow> Blocks w
     | Some res \<Rightarrow> Returns res (w\<lparr>m_result := res\<rparr>))"
proof (induction rs)
  case Nil
  with assms show ?case by (simp add: waitResult.simps cpp_simps)
next
  case (Cons r rs)
  have "w\<lparr>m_result := b, m_hasResult := False\<rparr> = w\<lparr>m_result := b\<rparr>" for b
    using assms(2) by (cases w) simp
  with Cons assms show ?case
    by (cases r) (simp add: waitResult.simps receiveResult_def cpp_simps)
qed

lemma waitResult_stale:
  "m_hasResult w \<Longrightarrow> waitResult rs w = Returns (m_result w) (w\<lparr>m_hasResult := False\<rparr>)"
  by (simp add: waitResult.simps cpp_simps)

lemma voted_world_simps [simp]:
  "w_txn (voted_world w tid v d t) = t" "w_disk (voted_world w tid v d t) = d"
  "w_shared (voted_world w tid v d t) = w_shared w" "m_activeSet (voted_world w tid v d t)"
  "m_hasResult (voted_world w tid v d t) = m_hasResult w" "m_result (voted_world w tid v d t) = m_result w"
  by (simp_all add: voted_world_def)

text \<open>The world of a replica after the result.\<close>

definition obeyed_world ::
  "'a mgr_world_scheme \<Rightarrow> int \<Rightarrow> bool \<Rightarrow> bool \<Rightarrow> disk \<Rightarrow> transaction \<Rightarrow> server_state \<Rightarrow> 'a mgr_world_scheme" where
  "obeyed_world w tid vote res d t s =
     w\<lparr>w_disk := d, w_txn := t, w_shared := s, m_isTransactionActive := False, m_activeSet := True,
       m_result := res, m_hasResult := False,
       m_sent := m_sent w @ [(m_coordinator_id w, VoteMsg (vote_of vote) tid)]\<rparr>"

lemma obeyed_world_simps [simp]:
  "w_disk (obeyed_world w tid v res d t s) = d" "w_shared (obeyed_world w tid v res d t s) = s"
  "\<not> m_isTransactionActive (obeyed_world w tid v res d t s)" "m_lastTid (obeyed_world w tid v res d t s) = m_lastTid w"
  "m_isCoordinator (obeyed_world w tid v res d t s) = m_isCoordinator w" "w_txn (obeyed_world w tid v res d t s) = t"
  "m_sent (obeyed_world w tid v res d t s) = m_sent w @ [(m_coordinator_id w, VoteMsg (vote_of v) tid)]"
  by (simp_all add: obeyed_world_def)

lemma obeyResult_commits:
  assumes "env_ok e" "disk_idle e (w_disk w)" "kind_ready e (fs_lookup (w_disk w)) k"
    and "fs_wf d" "fs_lookup d = prepared_view e k tid (fs_lookup (w_disk w))"
  shows "\<exists>d'. obeyResult e True ((voted_world w tid True d (prepared_txn k tid s))\<lparr>m_result := True, m_hasResult := False\<rparr>) =
      Returns True (obeyed_world w tid True True d' ((prepared_txn k tid s)\<lparr>t_is_committed := True\<rparr>) s) \<and>
    fs_wf d' \<and> fs_lookup d' = committed_view e k tid (fs_lookup (w_disk w))"
proof -
  let ?u = "(voted_world w tid True d (prepared_txn k tid s))\<lparr>m_result := True, m_hasResult := False\<rparr>"
  from commit_publishes [OF assms(1-3), of ?u tid s] assms(4,5) obtain d' where
    d': "commit e ?u = Returns True (?u\<lparr>w_disk := d',
      w_txn := (prepared_txn k tid s)\<lparr>t_is_committed := True\<rparr>, w_shared := s\<rparr>)"
    "fs_wf d'" "fs_lookup d' = committed_view e k tid (fs_lookup (w_disk w))"
    by auto
  from d'(1) have "obeyResult e True ?u =
      Returns True (obeyed_world w tid True True d' ((prepared_txn k tid s)\<lparr>t_is_committed := True\<rparr>) s)"
    by (cases w) (simp add: obeyResult_def commitTransaction_def cpp_simps, simp add: obeyed_world_def voted_world_def)
  with d'(2,3) show ?thesis by blast
qed

lemma obeyResult_rolls_back:
  assumes "env_ok e" "disk_idle e (w_disk w)" "kind_ready e (fs_lookup (w_disk w)) k"
    and "fs_wf d" "fs_lookup d = prepared_view e k tid (fs_lookup (w_disk w))"
  shows "obeyResult e False ((voted_world w tid True d (prepared_txn k tid s))\<lparr>m_result := False, m_hasResult := False\<rparr>) =
    Returns False (obeyed_world w tid True False (w_disk w) (rolled_back_txn (prepared_txn k tid s)) (w_shared w))"
proof -
  let ?u = "(voted_world w tid True d (prepared_txn k tid s))\<lparr>m_result := False, m_hasResult := False\<rparr>"
  from rollback_restores [OF assms(1,2), of ?u s tid] assms(3-5) have
    "rollback e ?u = Returns () (?u\<lparr>w_disk := w_disk w, w_txn := rolled_back_txn (w_txn ?u)\<rparr>)"
    by simp
  then show ?thesis
    by (cases w) (simp add: obeyResult_def rollbackTransaction_def forceRollback_def cpp_simps,
      simp add: obeyed_world_def voted_world_def)
qed

lemma obeyResult_refused:
  "obeyResult e res ((voted_world w tid False (w_disk w) (refused_txn k tid))\<lparr>m_result := res, m_hasResult := False\<rparr>) =
    Returns res (obeyed_world w tid False res (w_disk w) (refused_txn k tid) (w_shared w))"
  by (cases w) (simp add: obeyResult_def commitTransaction_def commit_def rollbackTransaction_def forceRollback_def
      rollback_def cpp_simps, simp add: obeyed_world_def voted_world_def)

text \<open>The result a replica acts on: a left-over one, or the first that arrives.\<close>

definition result_seen :: "'a mgr_world_scheme \<Rightarrow> int \<Rightarrow> (bool \<times> int) list \<Rightarrow> bool option" where
  "result_seen w tid rs = (if m_hasResult w then Some (m_result w) else first_result tid rs)"

lemma receiveNewTransaction_voted:
  assumes "replica_idle e w" "t_tid t = tid"
    and "voteTransaction e (received k tid) w = Returns () (voted_world w tid v d t)"
  shows "receiveNewTransaction e (received k tid) rs w =
    (case result_seen w tid rs of
       None \<Rightarrow> Blocks (voted_world w tid v d t)
     | Some res \<Rightarrow> obeyResult e res ((voted_world w tid v d t)\<lparr>m_result := res, m_hasResult := False\<rparr>))"
proof (cases "m_hasResult w")
  case True
  have "(voted_world w tid v d t)\<lparr>m_hasResult := False\<rparr> =
      (voted_world w tid v d t)\<lparr>m_result := m_result w, m_hasResult := False\<rparr>"
    by (cases w) (simp add: voted_world_def)
  with True assms show ?thesis
    by (simp only: receiveNewTransaction_def replica_idle_def cpp_simps outcome.case waitResult_stale result_seen_def
        voted_world_simps simp_thms if_True if_False option.case)
next
  case False
  have eq: "(voted_world w tid v d t)\<lparr>m_result := b, m_hasResult := False\<rparr> =
      (voted_world w tid v d t)\<lparr>m_result := b\<rparr>" for b
    using False by (cases w) (simp add: voted_world_def)
  from False assms show ?thesis
    by (simp add: receiveNewTransaction_def replica_idle_def cpp_simps waitResult_simp result_seen_def eq
        split: option.split)
qed

lemma receiveNewTransaction_accepted:
  assumes "env_ok e" "replica_idle e w" "kind_ready e (fs_lookup (w_disk w)) k"
    and "txn_effect e tid k (w_shared w) = Some s'"
  shows "case result_seen w tid rs of
      Some True \<Rightarrow> \<exists>d t. receiveNewTransaction e (received k tid) rs w = Returns True (obeyed_world w tid True True d t s') \<and>
        fs_wf d \<and> fs_lookup d = committed_view e k tid (fs_lookup (w_disk w))
    | Some False \<Rightarrow> \<exists>t. receiveNewTransaction e (received k tid) rs w =
        Returns False (obeyed_world w tid True False (w_disk w) t (w_shared w))
    | None \<Rightarrow> \<exists>d. receiveNewTransaction e (received k tid) rs w = Blocks (voted_world w tid True d (prepared_txn k tid s'))"
proof -
  obtain d where d: "voteTransaction e (received k tid) w = Returns () (voted_world w tid True d (prepared_txn k tid s'))"
    "fs_wf d" "fs_lookup d = prepared_view e k tid (fs_lookup (w_disk w))"
    using voteTransaction_accepts [OF assms] by blast
  have idle: "disk_idle e (w_disk w)" using assms(2) by (simp add: replica_idle_def)
  show ?thesis
    using receiveNewTransaction_voted [OF assms(2) _ d(1), of rs] obeyResult_commits [OF assms(1) idle assms(3) d(2,3), of s']
      obeyResult_rolls_back [OF assms(1) idle assms(3) d(2,3), of s']
    by (cases "result_seen w tid rs") (auto split: bool.split)
qed

lemma receiveNewTransaction_refused:
  assumes "env_ok e" "replica_idle e w" "temp_absent e (fs_lookup (w_disk w)) k"
    and "txn_effect e tid k (w_shared w) = None" "refuses_cleanly k"
  shows "receiveNewTransaction e (received k tid) rs w =
    (case result_seen w tid rs of
       None \<Rightarrow> Blocks (voted_world w tid False (w_disk w) (refused_txn k tid))
     | Some res \<Rightarrow> Returns res (obeyed_world w tid False res (w_disk w) (refused_txn k tid) (w_shared w)))"
  using receiveNewTransaction_voted [OF assms(2) _ voteTransaction_refuses [OF assms], of rs]
  by (simp add: obeyResult_refused split: option.split)

end
