(* ===== verification/Storage.thy ===== *)
theory Storage
  imports Transaction_Run
begin

text \<open>
  The disk of a server mirrors its state: the server directory holds the tid file, a
  directory with a password file for every user, the files of the table with the digests
  the table records, and nothing else.  A committed transaction keeps this, and on such a
  disk no transaction with proper names can fail to stage or to publish its files.
\<close>

section \<open>Names\<close>

definition clean_name :: "string \<Rightarrow> bool" where
  "clean_name w \<longleftrightarrow> plain_name w \<and> last w \<noteq> CHR ''~''"

definition user_ok :: "string \<Rightarrow> bool" where
  "user_ok u \<longleftrightarrow> clean_name u \<and> u \<noteq> ''tid''"

definition file_ok :: "string \<Rightarrow> bool" where
  "file_ok n \<longleftrightarrow> clean_name n \<and> n \<noteq> ''.password''"

lemma clean_temp: "clean_name w \<Longrightarrow> w \<noteq> v @ ''~''"
  by (auto simp: clean_name_def)

lemma user_ok_name [simp]: "user_ok u \<Longrightarrow> user_name_ok u"
  by (auto simp: user_ok_def user_name_ok_def clean_name_def)

lemma file_ok_plain [simp]: "file_ok n \<Longrightarrow> plain_name n"
  by (simp add: file_ok_def clean_name_def)

section \<open>The mirror\<close>

definition user_stored :: "env \<Rightarrow> disk \<Rightarrow> string \<Rightarrow> string \<Rightarrow> bool" where
  "user_stored e d u pw \<longleftrightarrow>
     user_ok u \<and> fs_lookup d (user_path e u) = Some Dir \<and>
     fs_lookup d (user_path e u @ [''.password'']) = Some (File pw)"

definition file_stored :: "env \<Rightarrow> disk \<Rightarrow> string \<Rightarrow> string \<Rightarrow> user_file \<Rightarrow> bool" where
  "file_stored e d u n f \<longleftrightarrow>
     file_ok n \<and>
     (case fs_lookup d (file_path e u n) of
        Some (File c) \<Rightarrow>
          uf_hash f = content_hash (env_xxh64 e) c \<and> uf_size f = to_int32 (int (length c))
      | _ \<Rightarrow> False)"

text \<open>The paths that the state accounts for.\<close>

definition known_path :: "env \<Rightarrow> server_state \<Rightarrow> path \<Rightarrow> bool" where
  "known_path e s p \<longleftrightarrow>
     p = tid_path e \<or>
     (\<exists>(u, pw) \<in> set (senhas s). p = user_path e u \<or> p = user_path e u @ [''.password'']) \<or>
     (\<exists>(u, files) \<in> set (user_files s). \<exists>(n, f) \<in> set files. p = file_path e u n)"

definition mirrors :: "env \<Rightarrow> disk \<Rightarrow> server_state \<Rightarrow> bool" where
  "mirrors e d s \<longleftrightarrow>
     disk_idle e d \<and>
     (\<forall>(u, pw) \<in> set (senhas s). user_stored e d u pw) \<and>
     (\<forall>(u, files) \<in> set (user_files s). \<forall>(n, f) \<in> set files. hasUser s u \<and> file_stored e d u n f) \<and>
     (\<forall>(p, x) \<in> set d. strict_prefix (servers_path e) p \<longrightarrow> known_path e s p)"

lemma known_path_iff:
  assumes "state_inv s"
  shows "known_path e s p \<longleftrightarrow>
     p = tid_path e \<or>
     (\<exists>u. hasUser s u \<and> (p = user_path e u \<or> p = user_path e u @ [''.password''])) \<or>
     (\<exists>u n. findFile s u n \<noteq> None \<and> p = file_path e u n)"
proof -
  have "(\<exists>(u, pw) \<in> set (senhas s). Q u) \<longleftrightarrow> (\<exists>u. hasUser s u \<and> Q u)" for Q
    unfolding hasUser_def using sm_entries_find [OF state_invD(1) [OF assms]] by fastforce
  moreover have "(\<exists>(u, files) \<in> set (user_files s). \<exists>(n, f) \<in> set files. Q u n) \<longleftrightarrow>
      (\<exists>u n. findFile s u n \<noteq> None \<and> Q u n)" for Q
    using findFile_entry [OF assms] by fastforce
  ultimately show ?thesis by (simp add: known_path_def)
qed

lemma mirrors_iff:
  assumes "state_inv s"
  shows "mirrors e d s \<longleftrightarrow>
     disk_idle e d \<and>
     (\<forall>u pw. sm_find (senhas s) u = Some pw \<longrightarrow> user_stored e d u pw) \<and>
     (\<forall>u n f. findFile s u n = Some f \<longrightarrow> hasUser s u \<and> file_stored e d u n f) \<and>
     (\<forall>p. strict_prefix (servers_path e) p \<longrightarrow> fs_lookup d p \<noteq> None \<longrightarrow> known_path e s p)"
proof (cases "disk_idle e d")
  case False
  then show ?thesis by (simp add: mirrors_def)
next
  case True
  have users: "(\<forall>(u, pw) \<in> set (senhas s). P u pw) \<longleftrightarrow> (\<forall>u pw. sm_find (senhas s) u = Some pw \<longrightarrow> P u pw)" for P
    by (rule sm_ball) (rule state_invD [OF assms])
  have files: "(\<forall>(u, files) \<in> set (user_files s). \<forall>(n, f) \<in> set files. P u n f) \<longleftrightarrow>
      (\<forall>u n f. findFile s u n = Some f \<longrightarrow> P u n f)" for P
    using findFile_entry [OF assms] by fastforce
  have paths: "(\<forall>(p, x) \<in> set d. strict_prefix (servers_path e) p \<longrightarrow> Q p) \<longleftrightarrow>
      (\<forall>p. strict_prefix (servers_path e) p \<longrightarrow> fs_lookup d p \<noteq> None \<longrightarrow> Q p)" for Q
  proof -
    have "p \<noteq> []" if "strict_prefix (servers_path e) p" for p using that by (auto simp: strict_prefix_def)
    with True show ?thesis
      by (fastforce simp: disk_idle_def sm_entries_find fs_lookup_def)
  qed
  show ?thesis
    unfolding mirrors_def users files paths ..
qed

lemma mirrorsD:
  assumes "mirrors e d s" "state_inv s"
  shows "disk_idle e d"
    and "sm_find (senhas s) u = Some pw \<Longrightarrow> user_stored e d u pw"
    and "hasUser s u \<Longrightarrow> user_ok u \<and> fs_lookup d (user_path e u) = Some Dir"
    and "findFile s u n = Some f \<Longrightarrow> hasUser s u \<and> file_stored e d u n f"
    and "strict_prefix (servers_path e) p \<Longrightarrow> \<not> known_path e s p \<Longrightarrow> fs_lookup d p = None"
  using assms(1) unfolding mirrors_iff [OF assms(2)]
  by (auto simp: hasUser_def user_stored_def)

section \<open>The paths of different things differ\<close>

text \<open>The shape of every path below the server directory.\<close>

lemma shapes:
  assumes "env_ok e"
  shows "tid_path e = servers_path e @ [''tid'']"
    and "user_ok u \<Longrightarrow> user_path e u = servers_path e @ [u]"
    and "user_ok u \<Longrightarrow> user_temp e u = servers_path e @ [u @ ''~'']"
    and "user_ok u \<Longrightarrow> file_ok n \<Longrightarrow> file_path e u n = servers_path e @ [u, n]"
    and "user_ok u \<Longrightarrow> file_ok n \<Longrightarrow> file_temp e u n = servers_path e @ [u, n @ ''~'']"
  using assms by (simp_all add: txn_paths)

lemma known_path_shape:
  assumes "env_ok e" "mirrors e d s" "state_inv s"
  shows "known_path e s p \<longleftrightarrow>
     p = servers_path e @ [''tid''] \<or>
     (\<exists>u. hasUser s u \<and> (p = servers_path e @ [u] \<or> p = servers_path e @ [u, ''.password''])) \<or>
     (\<exists>u n. findFile s u n \<noteq> None \<and> p = servers_path e @ [u, n])"
proof -
  note D = mirrorsD [OF assms(2,3)]
  have "hasUser s u \<Longrightarrow> user_path e u = servers_path e @ [u]" for u
    using D(3) shapes(2) [OF assms(1)] by blast
  moreover have "findFile s u n \<noteq> None \<Longrightarrow> file_path e u n = servers_path e @ [u, n]" for u n
    using D(3,4) shapes(4) [OF assms(1)] by (fastforce simp: file_stored_def)
  ultimately show ?thesis
    by (simp add: known_path_iff [OF assms(3)] shapes(1) [OF assms(1)] cong: conj_cong)
qed

lemma known_shape:
  assumes "env_ok e" "mirrors e d s" "state_inv s"
  shows "known_path e s (servers_path e @ [v]) \<longleftrightarrow> v = ''tid'' \<or> hasUser s v"
    and "known_path e s (servers_path e @ [v, m]) \<longleftrightarrow>
      hasUser s v \<and> m = ''.password'' \<or> findFile s v m \<noteq> None"
  unfolding known_path_shape [OF assms] by auto

text \<open>What is not on a disk that mirrors a state.\<close>

lemma mirrors_absent:
  assumes "env_ok e" "mirrors e d s" "state_inv s"
  shows "user_ok u \<Longrightarrow> fs_lookup d (user_temp e u) = None"
    and "user_ok u \<Longrightarrow> \<not> hasUser s u \<Longrightarrow> fs_lookup d (user_path e u) = None"
    and "user_ok u \<Longrightarrow> file_ok n \<Longrightarrow> fs_lookup d (file_temp e u n) = None"
    and "user_ok u \<Longrightarrow> file_ok n \<Longrightarrow> findFile s u n = None \<Longrightarrow> fs_lookup d (file_path e u n) = None"
proof -
  note D = mirrorsD [OF assms(2,3)] and known = known_shape [OF assms] and shape = shapes [OF assms(1)]
  have sub: "strict_prefix (servers_path e) (servers_path e @ [v])"
    "strict_prefix (servers_path e) (servers_path e @ [v, m])" for v m
    by (simp_all add: strict_prefix_def)
  have temp_user: "\<not> hasUser s (v @ ''~'')" for v
    using D(3) [of "v @ ''~''"] clean_temp by (auto simp: user_ok_def)
  have temp_file: "findFile s v (m @ ''~'') = None" for v m
    using D(4) [of v "m @ ''~''"] clean_temp
    by (cases "findFile s v (m @ ''~'')") (auto simp: file_stored_def file_ok_def)
  have tid: "v @ ''~'' \<noteq> ''tid''" "v @ ''~'' \<noteq> ''.password''" for v
    using clean_temp [of "''tid''" v] clean_temp [of "''.password''" v]
    by (auto simp: clean_name_def eq_commute [of "v @ ''~''"])
  show "user_ok u \<Longrightarrow> fs_lookup d (user_temp e u) = None"
    using D(5) [OF sub(1)] temp_user tid(1) by (simp add: shape known)
  show "user_ok u \<Longrightarrow> \<not> hasUser s u \<Longrightarrow> fs_lookup d (user_path e u) = None"
    using D(5) [OF sub(1)] by (simp add: shape known) (simp add: user_ok_def)
  show "user_ok u \<Longrightarrow> file_ok n \<Longrightarrow> fs_lookup d (file_temp e u n) = None"
    using D(5) [OF sub(2)] temp_file tid(2) by (simp add: shape known)
  show "user_ok u \<Longrightarrow> file_ok n \<Longrightarrow> findFile s u n = None \<Longrightarrow> fs_lookup d (file_path e u n) = None"
    using D(5) [OF sub(2)] by (simp add: shape known) (simp add: file_ok_def)
qed

section \<open>Transactions with proper names\<close>

definition proper :: "server_state \<Rightarrow> txn_kind \<Rightarrow> bool" where
  "proper s k \<longleftrightarrow>
     (case k of
        CreateUserTransaction u p \<Rightarrow> user_ok u
      | FileChangeTransaction u n deleted c \<Rightarrow> hasUser s u \<and> file_ok n
      | _ \<Rightarrow> True)"

lemma proper_temp_absent:
  assumes "env_ok e" "mirrors e d s" "state_inv s" "proper s k"
  shows "temp_absent e (fs_lookup d) k"
proof (cases k)
  case (CreateUserTransaction u p)
  with assms(4) mirrors_absent(1) [OF assms(1-3)] show ?thesis
    by (simp add: temp_absent_def proper_def)
next
  case (FileChangeTransaction u n deleted c)
  with assms(4) mirrors_absent(3) [OF assms(1-3)] mirrorsD(3) [OF assms(2,3)] show ?thesis
    by (simp add: temp_absent_def proper_def)
qed (simp_all add: temp_absent_def)

lemma effect_lookups:
  assumes "state_inv s"
  shows "hasUser (setLastTid tid s) u \<longleftrightarrow> hasUser s u" "findFile (setLastTid tid s) u n = findFile s u n"
    "hasFile (setLastTid tid s) u n \<longleftrightarrow> hasFile s u n"
  by (simp_all add: hasFile_findFile state_frames) (simp add: hasUser_def setLastTid_def)

lemma proper_ready:
  assumes "env_ok e" "mirrors e d s" "state_inv s" "proper s k" "txn_effect e tid k s = Some s'"
  shows "kind_ready e (fs_lookup d) k"
proof (cases k)
  case (CreateUserTransaction u p)
  with assms(5) have "\<not> hasUser s u"
    by (auto simp: txn_effect_def kind_effect_def effect_lookups assms(3) split: if_splits)
  with CreateUserTransaction assms(4) mirrors_absent(1,2) [OF assms(1-3)] show ?thesis
    by (simp add: kind_ready_def proper_def)
next
  case (FileChangeTransaction u n deleted c)
  with assms(4) have ok: "user_ok u" "file_ok n" "fs_lookup d (user_path e u) = Some Dir"
    using mirrorsD(3) [OF assms(2,3)] by (auto simp: proper_def)
  have "fs_lookup d (file_path e u n) = None" if "findFile s u n = None"
    using mirrors_absent(4) [OF assms(1-3)] ok that by simp
  moreover have "\<exists>c. fs_lookup d (file_path e u n) = Some (File c)" if "findFile s u n \<noteq> None"
    using that mirrorsD(4) [OF assms(2,3)] by (fastforce simp: file_stored_def split: option.splits node.splits)
  moreover have "findFile s u n \<noteq> None" if deleted
    using assms(5) that FileChangeTransaction
    by (auto simp: txn_effect_def kind_effect_def effect_lookups assms(3) hasFile_findFile split: if_splits)
  ultimately show ?thesis
    using FileChangeTransaction ok mirrors_absent(3) [OF assms(1-3)]
    by (cases "findFile s u n") (auto simp: kind_ready_def)
qed (simp_all add: kind_ready_def)


section \<open>A commit keeps the mirror\<close>

lemma txn_effect_inv: "state_inv s \<Longrightarrow> txn_effect e tid k s = Some s' \<Longrightarrow> state_inv s'"
  by (cases k) (auto simp: txn_effect_def kind_effect_def state_inv_addFile state_inv_updateFile
      state_inv_removeFile split: if_splits)

text \<open>What the effect does to the users and to the files.\<close>

lemma effect_users:
  assumes "state_inv s" "txn_effect e tid k s = Some s'"
  shows "sm_find (senhas s') v =
    (case k of
       CreateUserTransaction u p \<Rightarrow> if v = u then Some p else sm_find (senhas s) v
     | _ \<Rightarrow> sm_find (senhas s) v)"
  using assms
  by (cases k) (auto simp: txn_effect_def kind_effect_def hasUser_def setLastTid_def setUserLastTid_def addUser_def
      addSession_def removeSession_def addFrontend_def state_frames state_invD split: if_splits)

lemma effect_files:
  assumes "state_inv s" "txn_effect e tid k s = Some s'"
  shows "findFile s' v m =
    (case k of
       FileChangeTransaction u n deleted c \<Rightarrow>
         if v = u \<and> m = n then (if deleted then None else Some (the_file e tid n c)) else findFile s v m
     | _ \<Rightarrow> findFile s v m)"
proof (cases k)
  case (FileChangeTransaction u n deleted c)
  with assms show ?thesis
    using ft.find_put [of "setLastTid tid s" u n "the_file e tid n c" v m]
      ft.find_remove [of "setLastTid tid s" u n v m]
    by (auto simp: txn_effect_def kind_effect_def state_frames split: if_splits)
qed (use assms in \<open>auto simp: txn_effect_def kind_effect_def state_frames split: if_splits\<close>)

lemma effect_hasUser:
  assumes "state_inv s" "txn_effect e tid k s = Some s'"
  shows "hasUser s' v \<longleftrightarrow> hasUser s v \<or> (\<exists>p. k = CreateUserTransaction v p)"
  using effect_users [OF assms, of v] by (auto simp: hasUser_def split: txn_kind.splits if_splits)

text \<open>The files a commit publishes are the files of the effect.\<close>

lemma committed_below:
  assumes "env_ok e" "proper s k" "\<And>u. hasUser s u \<Longrightarrow> user_ok u"
  shows "committed_view e k tid L (servers_path e) = L (servers_path e)"
    and "committed_view e k tid L (tid_temp e) = L (tid_temp e)"
    and "committed_view e k tid L (tid_path e) = tid_text tid"
    and "committed_view e k tid L (servers_path e @ [v]) =
      (if v = ''tid'' then tid_text tid
       else case k of CreateUserTransaction u p \<Rightarrow> if v = u then Some Dir else L (servers_path e @ [v])
         | _ \<Rightarrow> L (servers_path e @ [v]))"
    and "committed_view e k tid L (servers_path e @ [v, m]) =
      (case k of
         CreateUserTransaction u p \<Rightarrow>
           if v = u \<and> m = ''.password'' then Some (File p) else L (servers_path e @ [v, m])
       | FileChangeTransaction u n deleted c \<Rightarrow>
           if v = u \<and> m = n then (if deleted then None else Some (File c)) else L (servers_path e @ [v, m])
       | _ \<Rightarrow> L (servers_path e @ [v, m]))"
    and "\<lbrakk>length r \<noteq> 1; length r \<noteq> 2\<rbrakk> \<Longrightarrow> committed_view e k tid L (servers_path e @ r) = L (servers_path e @ r)"
proof -
  note shape = shapes [OF assms(1)] and temp = txn_paths(2) [OF assms(1)]
  have user: "user_ok u \<Longrightarrow> u \<noteq> ''tid'' \<and> u \<noteq> ''tid~''" for u
    using user_ok_name [of u] by (simp add: user_name_ok_def)
  have "committed_view e k tid L (servers_path e) = L (servers_path e) \<and>
    committed_view e k tid L (tid_temp e) = L (tid_temp e) \<and>
    committed_view e k tid L (tid_path e) = tid_text tid \<and>
    committed_view e k tid L (servers_path e @ [v]) =
      (if v = ''tid'' then tid_text tid
       else case k of CreateUserTransaction u p \<Rightarrow> if v = u then Some Dir else L (servers_path e @ [v])
         | _ \<Rightarrow> L (servers_path e @ [v])) \<and>
    committed_view e k tid L (servers_path e @ [v, m]) =
      (case k of
         CreateUserTransaction u p \<Rightarrow>
           if v = u \<and> m = ''.password'' then Some (File p) else L (servers_path e @ [v, m])
       | FileChangeTransaction u n deleted c \<Rightarrow>
           if v = u \<and> m = n then (if deleted then None else Some (File c)) else L (servers_path e @ [v, m])
       | _ \<Rightarrow> L (servers_path e @ [v, m])) \<and>
    (length r \<noteq> 1 \<and> length r \<noteq> 2 \<longrightarrow> committed_view e k tid L (servers_path e @ r) = L (servers_path e @ r))"
  proof (cases k)
    case (CreateUserTransaction u p)
    with assms(2) have "user_ok u" by (simp add: proper_def)
    with user [of u] show ?thesis
      by (auto simp: CreateUserTransaction committed_view_def published_view_def shape temp)
  next
    case (FileChangeTransaction u n deleted c)
    with assms(2,3) have "user_ok u" "file_ok n" by (auto simp: proper_def)
    with user [of u] show ?thesis
      by (auto simp: FileChangeTransaction committed_view_def published_view_def shape temp)
  qed (auto simp: committed_view_def published_view_def shape temp)
  then show "committed_view e k tid L (servers_path e) = L (servers_path e)"
    and "committed_view e k tid L (tid_temp e) = L (tid_temp e)"
    and "committed_view e k tid L (tid_path e) = tid_text tid"
    and "committed_view e k tid L (servers_path e @ [v]) =
      (if v = ''tid'' then tid_text tid
       else case k of CreateUserTransaction u p \<Rightarrow> if v = u then Some Dir else L (servers_path e @ [v])
         | _ \<Rightarrow> L (servers_path e @ [v]))"
    and "committed_view e k tid L (servers_path e @ [v, m]) =
      (case k of
         CreateUserTransaction u p \<Rightarrow>
           if v = u \<and> m = ''.password'' then Some (File p) else L (servers_path e @ [v, m])
       | FileChangeTransaction u n deleted c \<Rightarrow>
           if v = u \<and> m = n then (if deleted then None else Some (File c)) else L (servers_path e @ [v, m])
       | _ \<Rightarrow> L (servers_path e @ [v, m]))"
    and "\<lbrakk>length r \<noteq> 1; length r \<noteq> 2\<rbrakk> \<Longrightarrow> committed_view e k tid L (servers_path e @ r) = L (servers_path e @ r)"
    by blast+
qed


text \<open>The mirror, by the depth of the paths.\<close>

definition file_matches :: "env \<Rightarrow> node option \<Rightarrow> user_file \<Rightarrow> bool" where
  "file_matches e x f \<longleftrightarrow>
     (case x of
        Some (File c) \<Rightarrow>
          uf_hash f = content_hash (env_xxh64 e) c \<and> uf_size f = to_int32 (int (length c))
      | _ \<Rightarrow> False)"

lemma mirrors_by_depth:
  assumes "env_ok e" "state_inv s"
  shows "mirrors e d s \<longleftrightarrow>
     disk_idle e d \<and>
     (\<forall>u pw. sm_find (senhas s) u = Some pw \<longrightarrow> user_ok u \<and>
        fs_lookup d (servers_path e @ [u]) = Some Dir \<and>
        fs_lookup d (servers_path e @ [u, ''.password'']) = Some (File pw)) \<and>
     (\<forall>u n f. findFile s u n = Some f \<longrightarrow> hasUser s u \<and> file_ok n \<and>
        file_matches e (fs_lookup d (servers_path e @ [u, n])) f) \<and>
     (\<forall>v. fs_lookup d (servers_path e @ [v]) \<noteq> None \<longrightarrow> v = ''tid'' \<or> hasUser s v) \<and>
     (\<forall>v m. fs_lookup d (servers_path e @ [v, m]) \<noteq> None \<longrightarrow>
        hasUser s v \<and> m = ''.password'' \<or> findFile s v m \<noteq> None) \<and>
     (\<forall>r. 2 < length r \<longrightarrow> fs_lookup d (servers_path e @ r) = None)"
    (is "_ \<longleftrightarrow> ?idle \<and> ?users \<and> ?files \<and> ?one \<and> ?two \<and> ?more")
proof -
  note shape = shapes [OF assms(1)]
  have users: "(\<forall>u pw. sm_find (senhas s) u = Some pw \<longrightarrow> user_stored e d u pw) \<longleftrightarrow> ?users"
    using shape(2) by (simp add: user_stored_def cong: conj_cong)
  have users_ok: "hasUser s u \<Longrightarrow> user_ok u" if ?users for u
    using that by (auto simp: hasUser_def)
  have files: "(\<forall>u n f. findFile s u n = Some f \<longrightarrow> hasUser s u \<and> file_stored e d u n f) \<longleftrightarrow> ?files" if ?users
    using shape(4) users_ok [OF that] by (simp add: file_stored_def file_matches_def cong: conj_cong)
  have known: "known_path e s p \<longleftrightarrow>
     p = servers_path e @ [''tid''] \<or>
     (\<exists>u. hasUser s u \<and> (p = servers_path e @ [u] \<or> p = servers_path e @ [u, ''.password''])) \<or>
     (\<exists>u n. findFile s u n \<noteq> None \<and> p = servers_path e @ [u, n])" if ?users ?files for p
  proof -
    have "hasUser s u \<Longrightarrow> user_path e u = servers_path e @ [u]" for u
      using shape(2) users_ok [OF that(1)] by blast
    moreover have "findFile s u n \<noteq> None \<Longrightarrow> file_path e u n = servers_path e @ [u, n]" for u n
      using that(2) shape(4) users_ok [OF that(1)] by blast
    ultimately show ?thesis
      by (simp add: known_path_iff [OF assms(2)] shape(1) cong: conj_cong)
  qed
  have paths: "(\<forall>p. strict_prefix (servers_path e) p \<longrightarrow> fs_lookup d p \<noteq> None \<longrightarrow> known_path e s p) \<longleftrightarrow>
      ?one \<and> ?two \<and> ?more" (is "?all \<longleftrightarrow> _") if ?users ?files
  proof -
    have "?all \<longleftrightarrow> (\<forall>r. r \<noteq> [] \<longrightarrow> fs_lookup d (servers_path e @ r) \<noteq> None \<longrightarrow> known_path e s (servers_path e @ r))"
      by (auto simp: strict_prefix_def elim!: prefixE)
    also have "\<dots> \<longleftrightarrow> ?one \<and> ?two \<and> ?more"
    proof (intro iffI conjI allI impI)
      assume all: "\<forall>r. r \<noteq> [] \<longrightarrow> fs_lookup d (servers_path e @ r) \<noteq> None \<longrightarrow> known_path e s (servers_path e @ r)"
      show "v = ''tid'' \<or> hasUser s v" if "fs_lookup d (servers_path e @ [v]) \<noteq> None" for v
        using all [rule_format, of "[v]"] that known [OF \<open>?users\<close> \<open>?files\<close>] by simp
      show "hasUser s v \<and> m = ''.password'' \<or> findFile s v m \<noteq> None"
        if "fs_lookup d (servers_path e @ [v, m]) \<noteq> None" for v m
        using all [rule_format, of "[v, m]"] that known [OF \<open>?users\<close> \<open>?files\<close>] by simp
      show "fs_lookup d (servers_path e @ r) = None" if "2 < length r" for r
        using all [rule_format, of r] that known [OF \<open>?users\<close> \<open>?files\<close>, of "servers_path e @ r"] by fastforce
    next
      fix r :: path
      assume depth: "?one \<and> ?two \<and> ?more" and r: "r \<noteq> []" "fs_lookup d (servers_path e @ r) \<noteq> None"
      have "\<not> 2 < length r"
      proof
        assume "2 < length r"
        with depth have "fs_lookup d (servers_path e @ r) = None" by simp
        with r(2) show False by simp
      qed
      with r(1) consider v where "r = [v]" | v m where "r = [v, m]"
        by (cases r rule: list.exhaust; cases "tl r"; cases "tl (tl r)") auto
      then show "known_path e s (servers_path e @ r)"
        using depth r(2) known [OF \<open>?users\<close> \<open>?files\<close>, of "servers_path e @ r"] by cases simp_all
    qed
    finally show ?thesis .
  qed
  have conj: "(a \<and> b \<and> c \<and> p) = (a \<and> b \<and> c' \<and> q)" if "b \<Longrightarrow> c = c'" "b \<Longrightarrow> c' \<Longrightarrow> p = q" for a b c c' p q
    using that by blast
  show ?thesis
    unfolding mirrors_iff [OF assms(2)] users by (rule conj [OF files paths])
qed

lemma committed_idle:
  assumes "env_ok e" "proper s k" "\<And>u. hasUser s u \<Longrightarrow> user_ok u" "disk_idle e d"
    and "fs_wf d'" "fs_lookup d' = committed_view e k tid (fs_lookup d)"
  shows "disk_idle e d'"
  using assms(4,5) committed_below(1-3) [OF assms(1-3)]
  by (simp add: disk_idle_def fs_is_directory_def assms(6) tid_text_def)

theorem mirrors_commit:
  assumes "env_ok e" "mirrors e d s" "state_inv s" "proper s k" "txn_effect e tid k s = Some s'"
    and "fs_wf d'" "fs_lookup d' = committed_view e k tid (fs_lookup d)"
  shows "mirrors e d' s'"
proof -
  have ok: "hasUser s u \<Longrightarrow> user_ok u" for u
    using mirrorsD(3) [OF assms(2,3)] by blast
  have inv': "state_inv s'" by (rule txn_effect_inv [OF assms(3,5)])
  note old = assms(2) [unfolded mirrors_by_depth [OF assms(1,3)]]
  note L = committed_below [where tid = tid and L = "fs_lookup d", OF assms(1,4) ok, folded assms(7)]
  note new = effect_users [OF assms(3,5)] effect_files [OF assms(3,5)] effect_hasUser [OF assms(3,5)]
  have idle: "disk_idle e d'"
    by (rule committed_idle [OF assms(1,4) ok _ assms(6,7)]) (use old in auto)
  have password: "user_ok u \<Longrightarrow> file_ok n \<Longrightarrow> n \<noteq> ''.password'' \<and> u \<noteq> ''tid''" for u n
    by (simp add: user_ok_def file_ok_def)
  show ?thesis
    unfolding mirrors_by_depth [OF assms(1) inv']
  proof (intro conjI allI impI)
    show "disk_idle e d'" by (rule idle)
  next
    fix u pw
    assume "sm_find (senhas s') u = Some pw"
    then show "user_ok u"
      using assms(4) old by (auto simp: new proper_def split: txn_kind.splits if_splits)
  next
    fix u pw
    assume "sm_find (senhas s') u = Some pw"
    then show "fs_lookup d' (servers_path e @ [u]) = Some Dir"
      using assms(4) old by (auto simp: new L proper_def user_ok_def split: txn_kind.splits if_splits)
  next
    fix u pw
    assume "sm_find (senhas s') u = Some pw"
    then show "fs_lookup d' (servers_path e @ [u, ''.password'']) = Some (File pw)"
      using assms(4) old password by (auto simp: new L proper_def file_ok_def split: txn_kind.splits if_splits)
  next
    fix u n f
    assume "findFile s' u n = Some f"
    then show "hasUser s' u"
      using assms(4) old by (auto simp: new proper_def split: txn_kind.splits if_splits)
  next
    fix u n f
    assume "findFile s' u n = Some f"
    then show "file_ok n"
      using assms(4) old by (auto simp: new proper_def split: txn_kind.splits if_splits)
  next
    fix u n f
    assume "findFile s' u n = Some f"
    then show "file_matches e (fs_lookup d' (servers_path e @ [u, n])) f"
      using assms(4) old
      by (auto simp: new L proper_def file_matches_def the_file_def file_ok_def split: txn_kind.splits if_splits)
  next
    fix v
    assume "fs_lookup d' (servers_path e @ [v]) \<noteq> None"
    then show "v = ''tid'' \<or> hasUser s' v"
      using old by (auto simp: new L split: txn_kind.splits if_splits)
  next
    fix v m
    assume "fs_lookup d' (servers_path e @ [v, m]) \<noteq> None"
    moreover have "fs_lookup d (servers_path e @ [v, m]) \<noteq> None \<Longrightarrow>
        hasUser s v \<and> m = ''.password'' \<or> findFile s v m \<noteq> None"
      using old by blast
    ultimately show "hasUser s' v \<and> m = ''.password'' \<or> findFile s' v m \<noteq> None"
      by (cases "fs_lookup d (servers_path e @ [v, m]) = None")
        (auto simp: new L split: txn_kind.splits if_splits)
  next
    fix r :: path
    assume "2 < length r"
    then show "fs_lookup d' (servers_path e @ r) = None"
      using old L(6) [of r] by simp
  qed
qed

end
