(* ===== verification/Two_Phase.thy ===== *)
theory Two_Phase
  imports Manager_Correct Storage
begin

text \<open>
  One transaction on a coordinator and its replicas.  A step of the system is a stretch of
  \<open>doTransaction\<close> or \<open>receiveNewTransaction\<close> between two waits, or the delivery of a
  message that a server has sent; messages arrive in any order, votes once, results any
  number of times.  The agreement of the two-phase commit is an invariant of the reachable
  systems.
\<close>

section \<open>What one server does in one transaction\<close>

definition node_ok :: "env \<Rightarrow> txn_kind \<Rightarrow> 'a mgr_world_scheme \<Rightarrow> bool" where
  "node_ok e k w \<longleftrightarrow>
     env_ok e \<and> mirrors e (w_disk w) (w_shared w) \<and> state_inv (w_shared w) \<and> proper (w_shared w) k"

definition accepts :: "env \<Rightarrow> txn_kind \<Rightarrow> int \<Rightarrow> 'a mgr_world_scheme \<Rightarrow> bool" where
  "accepts e k tid w \<longleftrightarrow> txn_effect e tid k (w_shared w) \<noteq> None"

text \<open>The disk and the transaction after the server has voted.\<close>

definition staged :: "env \<Rightarrow> txn_kind \<Rightarrow> int \<Rightarrow> 'a mgr_world_scheme \<Rightarrow> disk \<Rightarrow> transaction \<Rightarrow> bool" where
  "staged e k tid w d t \<longleftrightarrow>
     (case txn_effect e tid k (w_shared w) of
        Some s \<Rightarrow> t = prepared_txn k tid s \<and> fs_wf d \<and>
          fs_lookup d = prepared_view e k tid (fs_lookup (w_disk w))
      | None \<Rightarrow> t = refused_txn k tid \<and> d = w_disk w)"

text \<open>The disk and the shared state after the result.\<close>

definition finished ::
  "env \<Rightarrow> txn_kind \<Rightarrow> int \<Rightarrow> 'a mgr_world_scheme \<Rightarrow> bool \<Rightarrow> disk \<Rightarrow> server_state \<Rightarrow> bool" where
  "finished e k tid w res d s \<longleftrightarrow>
     (case txn_effect e tid k (w_shared w) of
        Some s' \<Rightarrow>
          (if res then s = s' \<and> fs_wf d \<and> fs_lookup d = committed_view e k tid (fs_lookup (w_disk w))
           else s = w_shared w \<and> d = w_disk w)
      | None \<Rightarrow> s = w_shared w \<and> d = w_disk w)"

lemma staged_tid [simp]: "staged e k tid w d t \<Longrightarrow> t_tid t = tid"
  by (auto simp: staged_def split: option.splits)

lemma node_ready:
  assumes "node_ok e k w"
  shows "txn_effect e tid k (w_shared w) = Some s \<Longrightarrow> kind_ready e (fs_lookup (w_disk w)) k"
    and "temp_absent e (fs_lookup (w_disk w)) k" "disk_idle e (w_disk w)" "env_ok e"
    and "k = CreateUserTransaction u p \<Longrightarrow> u \<noteq> []"
  using assms proper_ready [of e "w_disk w" "w_shared w" k tid s] proper_temp_absent [of e "w_disk w" "w_shared w" k]
    mirrorsD(1) [of e "w_disk w" "w_shared w"]
  by (auto simp: node_ok_def proper_def user_ok_def clean_name_def plain_name_def)

lemma startTransaction_refuses:
  assumes "node_ok e k w" "coordinator_idle e w" "txn_effect e (next_tid w) k (w_shared w) = None" "refuses_cleanly k"
  shows "startTransaction e k [] w = Returns () (voting_world w k (-1) (w_disk w) (refused_txn k (next_tid w)))"
proof -
  note ready = node_ready [OF assms(1)]
  let ?v = "voting_world w k 0 (w_disk w) ((new_transaction k)\<lparr>t_tid := next_tid w, t_work_state := Some (w_shared w)\<rparr>)"
  have "startTransaction e k [] w = seqC (run e) (bindC (getTxn t_is_prepared) addCoordinatorVote) ?v"
    using startTransaction_run [of w e k "[]"] assms(2) by (simp add: coordinator_idle_def tally_def)
  moreover have "run e ?v = Returns False (?v\<lparr>w_txn := refused_txn k (next_tid w)\<rparr>)"
    using ready assms(3,4) by (intro run_refuses [OF ready(4) fresh_voting_world]) auto
  ultimately show ?thesis
    by (cases w) (simp add: cpp_simps addCoordinatorVote_def voting_world_def count_vote_def)
qed

lemma endTransaction_refused:
  "endTransaction e False (voting_world w k c (w_disk w) (refused_txn k (next_tid w))) =
    Returns False (result_world w k False c (w_disk w) (refused_txn k (next_tid w)) (w_shared w))"
  by (cases w) (simp add: endTransaction_def sendResult_simp rollbackTransaction_def forceRollback_def
      rollback_def cpp_simps,
    simp add: result_world_def voting_world_def broadcast_def result_messages_def getActiveServers_def next_tid_def)

lemma startTransaction_stages:
  assumes "node_ok e k w" "coordinator_idle e w" "startTransaction e k [] w = Returns () v"
  shows "\<exists>d t. v = voting_world w k (if accepts e k (next_tid w) w then 1 else -1) d t \<and>
    staged e k (next_tid w) w d t"
proof (cases "txn_effect e (next_tid w) k (w_shared w)")
  case (Some s)
  note ready = node_ready [OF assms(1)]
  from startTransaction_accepts [OF ready(4) assms(2) ready(1) [OF Some] Some, of "[]"] assms(3) show ?thesis
    using Some by (auto simp: accepts_def staged_def tally_def count_vote_def)
next
  case None
  note ready = node_ready [OF assms(1)]
  let ?v = "voting_world w k 0 (w_disk w) ((new_transaction k)\<lparr>t_tid := next_tid w, t_work_state := Some (w_shared w)\<rparr>)"
  have start: "startTransaction e k [] w = seqC (run e) (bindC (getTxn t_is_prepared) addCoordinatorVote) ?v"
    using startTransaction_run [of w e k "[]"] assms(2) by (simp add: coordinator_idle_def tally_def)
  have fresh: "fresh ?v k (next_tid w) (w_shared w)" by (rule fresh_voting_world)
  have "refuses_cleanly k"
  proof (rule ccontr)
    assume "\<not> refuses_cleanly k"
    then have "run e ?v = Undefined UseAfterFree"
      using ready None by (intro run_refused_uses_deleted_state [OF ready(4) fresh]) auto
    with start assms(3) show False by (simp add: seqC_case)
  qed
  from startTransaction_refuses [OF assms(1,2) None this] assms(3)
  have "v = voting_world w k (-1) (w_disk w) (refused_txn k (next_tid w))" by simp
  then show ?thesis using None by (auto simp: accepts_def staged_def)
qed

lemma endTransaction_finishes:
  assumes "node_ok e k w" "coordinator_idle e w" "staged e k (next_tid w) w d t"
    and "res \<longrightarrow> accepts e k (next_tid w) w"
    and "endTransaction e res (voting_world w k c d t) = Returns b v"
  shows "b = res \<and> (\<exists>d' t' s'. v = result_world w k res c d' t' s' \<and> finished e k (next_tid w) w res d' s')"
proof (cases "txn_effect e (next_tid w) k (w_shared w)")
  case (Some s)
  note ready = node_ready [OF assms(1)]
  have t: "t = prepared_txn k (next_tid w) s" "fs_wf d" "fs_lookup d = prepared_view e k (next_tid w) (fs_lookup (w_disk w))"
    using assms(3) Some by (simp_all add: staged_def)
  show ?thesis
    using endTransaction_commits [OF ready(4) assms(2) ready(1) [OF Some] t(2,3), of c s]
      endTransaction_rolls_back [OF ready(4) assms(2) ready(1) [OF Some] t(2,3), of c s] assms(5) Some t(1)
    by (cases res) (auto simp: finished_def)
next
  case None
  with assms(3,4) have t: "t = refused_txn k (next_tid w)" "d = w_disk w" "\<not> res"
    by (simp_all add: staged_def accepts_def)
  with None t assms(5) endTransaction_refused [of e w k c] show ?thesis by (auto simp: finished_def)
qed

lemma voteTransaction_stages:
  assumes "node_ok e k w" "replica_idle e w" "voteTransaction e (received k tid) w = Returns () v"
  shows "\<exists>d t. v = voted_world w tid (accepts e k tid w) d t \<and> staged e k tid w d t"
proof (cases "txn_effect e tid k (w_shared w)")
  case (Some s)
  note ready = node_ready [OF assms(1)]
  from voteTransaction_accepts [OF ready(4) assms(2) ready(1) [OF Some] Some] assms(3) show ?thesis
    using Some by (auto simp: accepts_def staged_def)
next
  case None
  note ready = node_ready [OF assms(1)]
  let ?w = "w\<lparr>w_txn := (received k tid)\<lparr>t_work_state := Some (w_shared w)\<rparr>,
        m_isTransactionActive := True, m_activeSet := True\<rparr>"
  have "refuses_cleanly k"
  proof (rule ccontr)
    assume "\<not> refuses_cleanly k"
    then have "run e ?w = Undefined UseAfterFree"
      using ready None
      by (intro run_refused_uses_deleted_state [OF ready(4), of ?w k tid "w_shared w"])
        (auto simp: fresh_def received_def)
    moreover have "\<exists>f. voteTransaction e (received k tid) w = seqC (run e) f ?w"
      by (intro exI [of _ "bindC (getTxn t_is_prepared) (\<lambda>ok. sendVote ok tid)"], cases w)
        (simp add: voteTransaction_def setState_def cpp_simps received_def)
    ultimately show False using assms(3) by (auto simp: seqC_case)
  qed
  with voteTransaction_refuses [OF ready(4) assms(2) ready(2) None] assms(3) None show ?thesis
    by (auto simp: accepts_def staged_def)
qed

lemma obeyResult_finishes:
  assumes "node_ok e k w" "staged e k tid w d t"
    and "obeyResult e res ((voted_world w tid (accepts e k tid w) d t)\<lparr>m_result := res, m_hasResult := False\<rparr>) = Returns b v"
  shows "b = res \<and> (\<exists>d' t' s'. v = obeyed_world w tid (accepts e k tid w) res d' t' s' \<and>
    t_tid t' = tid \<and> finished e k tid w res d' s')"
proof (cases "txn_effect e tid k (w_shared w)")
  case (Some s)
  note ready = node_ready [OF assms(1)]
  have t: "t = prepared_txn k tid s" "fs_wf d" "fs_lookup d = prepared_view e k tid (fs_lookup (w_disk w))"
    using assms(2) Some by (simp_all add: staged_def)
  show ?thesis
  proof (cases res)
    case True
    obtain d' where "obeyResult e True ((voted_world w tid True d t)\<lparr>m_result := True, m_hasResult := False\<rparr>) =
        Returns True (obeyed_world w tid True True d' (t\<lparr>t_is_committed := True\<rparr>) s)"
      "fs_wf d'" "fs_lookup d' = committed_view e k tid (fs_lookup (w_disk w))"
      using obeyResult_commits [OF ready(4,3) ready(1) [OF Some] t(2,3), of s] t(1) by auto
    with True assms(3) Some t(1) show ?thesis
      by (intro conjI exI [of _ d'] exI [of _ "t\<lparr>t_is_committed := True\<rparr>"] exI [of _ s])
        (simp_all add: accepts_def finished_def)
  next
    case False
    with obeyResult_rolls_back [OF ready(4,3) ready(1) [OF Some] t(2,3), of s] assms(3) Some t(1) show ?thesis
      by (auto simp: finished_def accepts_def rolled_back_txn_def)
  qed
next
  case None
  with assms obeyResult_refused [of e res w tid k] show ?thesis
    by (auto simp: staged_def accepts_def finished_def)
qed

end
