(* ===== verification/Two_Phase_System.thy ===== *)
theory Two_Phase_System
  imports Two_Phase
begin

text \<open>
  The coordinator and its replicas as one system: its steps, the invariant by rule
  induction, and the agreement of all servers on the result of a transaction.
\<close>

section \<open>The system\<close>

datatype coordinator_phase = CIdle | CVoting | CDone bool

datatype replica_phase = RIdle | RVoted | RDone bool

record system =
  s_coord :: mgr_world
  s_rep :: "int \<Rightarrow> mgr_world"
  s_cphase :: coordinator_phase
  s_rphase :: "int \<Rightarrow> replica_phase"
  s_counted :: "int set"

text \<open>
  The steps for the transaction \<open>k\<close>; \<open>en i\<close> is the environment of server \<open>i\<close>, \<open>c\<close> the id of
  the coordinator.  \<open>start\<close>, \<open>decide\<close>, \<open>vote\<close> and \<open>obey\<close> run a server up to its next wait,
  \<open>count\<close> and \<open>inform\<close> deliver a message that was sent.
\<close>

inductive sys_step :: "(int \<Rightarrow> env) \<Rightarrow> int \<Rightarrow> txn_kind \<Rightarrow> system \<Rightarrow> system \<Rightarrow> bool" for en c k where
  start: "\<lbrakk>s_cphase S = CIdle; startTransaction (en c) k [] (s_coord S) = Returns () w\<rbrakk> \<Longrightarrow>
    sys_step en c k S (S\<lparr>s_coord := w, s_cphase := CVoting\<rparr>)"
| vote: "\<lbrakk>(i, TransactionMsg m) \<in> set (m_sent (s_coord S)); s_rphase S i = RIdle;
     voteTransaction (en i) (receivedTransaction m) (s_rep S i) = Returns () w\<rbrakk> \<Longrightarrow>
    sys_step en c k S (S\<lparr>s_rep := (s_rep S)(i := w), s_rphase := (s_rphase S)(i := RVoted)\<rparr>)"
| count: "\<lbrakk>(j, VoteMsg v tid) \<in> set (m_sent (s_rep S i)); i \<notin> s_counted S;
     addVote (v = COMMIT_VOTE) tid (s_coord S) = Returns () w\<rbrakk> \<Longrightarrow>
    sys_step en c k S (S\<lparr>s_coord := w, s_counted := insert i (s_counted S)\<rparr>)"
| decide: "\<lbrakk>s_cphase S = CVoting; waitEndVoting [] (s_coord S) = Returns b v;
     endTransaction (en c) b v = Returns res w\<rbrakk> \<Longrightarrow>
    sys_step en c k S (S\<lparr>s_coord := w, s_cphase := CDone res\<rparr>)"
| inform: "\<lbrakk>(i, ResultMsg v tid) \<in> set (m_sent (s_coord S));
     receiveResult (v = COMMIT_VOTE) tid (s_rep S i) = Returns () w\<rbrakk> \<Longrightarrow>
    sys_step en c k S (S\<lparr>s_rep := (s_rep S)(i := w)\<rparr>)"
| obey: "\<lbrakk>s_rphase S i = RVoted; waitResult [] (s_rep S i) = Returns b v;
     obeyResult (en i) b v = Returns res w\<rbrakk> \<Longrightarrow>
    sys_step en c k S (S\<lparr>s_rep := (s_rep S)(i := w), s_rphase := (s_rphase S)(i := RDone res)\<rparr>)"

inductive_cases sys_stepE: "sys_step en c k S T"

inductive reachable :: "(int \<Rightarrow> env) \<Rightarrow> int \<Rightarrow> txn_kind \<Rightarrow> system \<Rightarrow> system \<Rightarrow> bool" for en c k S where
  refl: "reachable en c k S S"
| step: "reachable en c k S T \<Longrightarrow> sys_step en c k T U \<Longrightarrow> reachable en c k S U"

text \<open>
  Before the transaction: an idle coordinator, whose active servers are idle replicas that
  have not taken part in a transaction with the next id.
\<close>

definition system_start :: "(int \<Rightarrow> env) \<Rightarrow> int \<Rightarrow> txn_kind \<Rightarrow> system \<Rightarrow> bool" where
  "system_start en c k S \<longleftrightarrow>
     coordinator_idle (en c) (s_coord S) \<and> node_ok (en c) k (s_coord S) \<and> m_sent (s_coord S) = [] \<and>
     distinct (getActiveServers (s_coord S)) \<and> s_cphase S = CIdle \<and> s_counted S = {} \<and>
     (\<forall>i. s_rphase S i = RIdle \<and> m_sent (s_rep S i) = []) \<and>
     (\<forall>i \<in> set (getActiveServers (s_coord S)).
        replica_idle (en i) (s_rep S i) \<and> node_ok (en i) k (s_rep S i) \<and> \<not> m_hasResult (s_rep S i) \<and>
        (m_activeSet (s_rep S i) \<longrightarrow> t_tid (w_txn (s_rep S i)) \<noteq> next_tid (s_coord S)))"

section \<open>The invariant\<close>

definition the_tid :: "system \<Rightarrow> int" where
  "the_tid S0 = next_tid (s_coord S0)"

definition members :: "system \<Rightarrow> int set" where
  "members S0 = set (getActiveServers (s_coord S0))"

text \<open>The replicas that the result is sent to.\<close>

definition heard :: "system \<Rightarrow> int set" where
  "heard S0 = set (reached (getActiveServers (s_coord S0)))"

lemma heard_members: "heard S0 \<subseteq> members S0"
  unfolding heard_def members_def by (rule subsetI) (erule list_emb_set [OF reached_subseq], simp)

definition says_yes :: "(int \<Rightarrow> env) \<Rightarrow> txn_kind \<Rightarrow> system \<Rightarrow> int \<Rightarrow> bool" where
  "says_yes en k S0 i \<longleftrightarrow> accepts (en i) k (the_tid S0) (s_rep S0 i)"

definition coordinator_yes :: "(int \<Rightarrow> env) \<Rightarrow> int \<Rightarrow> txn_kind \<Rightarrow> system \<Rightarrow> bool" where
  "coordinator_yes en c k S0 \<longleftrightarrow> accepts (en c) k (the_tid S0) (s_coord S0)"

definition all_yes :: "(int \<Rightarrow> env) \<Rightarrow> int \<Rightarrow> txn_kind \<Rightarrow> system \<Rightarrow> bool" where
  "all_yes en c k S0 \<longleftrightarrow> coordinator_yes en c k S0 \<and> (\<forall>i \<in> members S0. says_yes en k S0 i)"

definition vote_sum :: "(int \<Rightarrow> env) \<Rightarrow> int \<Rightarrow> txn_kind \<Rightarrow> system \<Rightarrow> int set \<Rightarrow> int" where
  "vote_sum en c k S0 D =
     (if coordinator_yes en c k S0 \<and> (\<forall>i \<in> D. says_yes en k S0 i) then 1 + int (card D) else -1)"

definition coordinator_inv :: "(int \<Rightarrow> env) \<Rightarrow> int \<Rightarrow> txn_kind \<Rightarrow> system \<Rightarrow> system \<Rightarrow> bool" where
  "coordinator_inv en c k S0 S \<longleftrightarrow>
     (case s_cphase S of
        CIdle \<Rightarrow> s_coord S = s_coord S0 \<and> (\<forall>i. s_rphase S i = RIdle)
      | CVoting \<Rightarrow>
          (\<exists>d t. s_coord S = voting_world (s_coord S0) k (vote_sum en c k S0 (s_counted S)) d t \<and>
             staged (en c) k (the_tid S0) (s_coord S0) d t)
      | CDone b \<Rightarrow>
          b = all_yes en c k S0 \<and>
          (\<exists>v d t s. s_coord S = result_world (s_coord S0) k b v d t s \<and>
             finished (en c) k (the_tid S0) (s_coord S0) b d s))"

definition replica_inv :: "(int \<Rightarrow> env) \<Rightarrow> txn_kind \<Rightarrow> system \<Rightarrow> system \<Rightarrow> int \<Rightarrow> bool" where
  "replica_inv en k S0 S i \<longleftrightarrow>
     (case s_rphase S i of
        RIdle \<Rightarrow> s_rep S i = s_rep S0 i \<and> i \<notin> s_counted S
      | RVoted \<Rightarrow> i \<in> members S0 \<and>
          (\<exists>d t h r. s_rep S i = (voted_world (s_rep S0 i) (the_tid S0) (says_yes en k S0 i) d t)\<lparr>m_result := r, m_hasResult := h\<rparr> \<and>
             staged (en i) k (the_tid S0) (s_rep S0 i) d t \<and> (h \<longrightarrow> s_cphase S = CDone r \<and> i \<in> heard S0))
      | RDone b \<Rightarrow> i \<in> members S0 \<and> i \<in> heard S0 \<and> s_cphase S = CDone b \<and>
          m_sent (s_rep S i) = [(m_coordinator_id (s_rep S0 i), VoteMsg (vote_of (says_yes en k S0 i)) (the_tid S0))] \<and>
          finished (en i) k (the_tid S0) (s_rep S0 i) b (w_disk (s_rep S i)) (w_shared (s_rep S i)))"

definition sys_inv :: "(int \<Rightarrow> env) \<Rightarrow> int \<Rightarrow> txn_kind \<Rightarrow> system \<Rightarrow> system \<Rightarrow> bool" where
  "sys_inv en c k S0 S \<longleftrightarrow> coordinator_inv en c k S0 S \<and> (\<forall>i. replica_inv en k S0 S i)"

lemma sys_inv_start: "system_start en c k S \<Longrightarrow> sys_inv en c k S S"
  by (simp add: system_start_def sys_inv_def coordinator_inv_def replica_inv_def)

text \<open>The messages of a system with the invariant.\<close>

lemma voting_world_sent:
  "m_sent (voting_world w k c d t) = m_sent w @ broadcast (txn_message k (next_tid w)) w"
  by (simp add: voting_world_def)

lemma broadcast_iff: "(i, m) \<in> set (broadcast m' w) \<longleftrightarrow> m = m' \<and> i \<in> set (getActiveServers w)"
  by (auto simp: broadcast_def)

lemma result_messages_iff:
  "(i, m) \<in> set (result_messages b tid w) \<longleftrightarrow> m = ResultMsg (vote_of b) tid \<and> i \<in> set (reached (getActiveServers w))"
  by (auto simp: result_messages_def)

lemma vote_of_commit [simp]: "(vote_of b = COMMIT_VOTE) = b"
  by (simp add: vote_of_def)

lemma coordinator_sent:
  assumes "system_start en c k S0" "coordinator_inv en c k S0 S"
  shows "(i, TransactionMsg m) \<in> set (m_sent (s_coord S)) \<Longrightarrow>
      i \<in> members S0 \<and> receivedTransaction m = received k (the_tid S0)"
    and "(i, ResultMsg v tid) \<in> set (m_sent (s_coord S)) \<Longrightarrow>
      i \<in> heard S0 \<and> tid = the_tid S0 \<and> (\<exists>b. s_cphase S = CDone b \<and> v = vote_of b)"
proof -
  have sent: "m_sent (s_coord S0) = []" using assms(1) by (simp add: system_start_def)
  have txn: "txn_message k tid \<noteq> ResultMsg v t" for tid v t by (simp add: txn_message_def)
  show "i \<in> members S0 \<and> receivedTransaction m = received k (the_tid S0)"
    if "(i, TransactionMsg m) \<in> set (m_sent (s_coord S))"
    using that assms(2) sent received_txn_message [of k "the_tid S0" m]
    by (auto simp: coordinator_inv_def voting_world_sent broadcast_iff result_messages_iff members_def the_tid_def
        split: coordinator_phase.splits)
  show "i \<in> heard S0 \<and> tid = the_tid S0 \<and> (\<exists>b. s_cphase S = CDone b \<and> v = vote_of b)"
    if "(i, ResultMsg v tid) \<in> set (m_sent (s_coord S))"
    using that assms(2) sent txn txn [symmetric]
    by (auto simp: coordinator_inv_def voting_world_sent broadcast_iff result_messages_iff heard_def the_tid_def
        split: coordinator_phase.splits)
qed

lemma replica_sent:
  assumes "system_start en c k S0" "replica_inv en k S0 S i" "(j, VoteMsg v tid) \<in> set (m_sent (s_rep S i))"
  shows "i \<in> members S0 \<and> s_rphase S i \<noteq> RIdle \<and> tid = the_tid S0 \<and> v = vote_of (says_yes en k S0 i)"
  using assms
  by (cases "s_rphase S i") (auto simp: replica_inv_def system_start_def voted_world_def)

section \<open>The steps keep the invariant\<close>

lemma counted_members:
  assumes "\<forall>i. replica_inv en k S0 S i"
  shows "s_counted S \<subseteq> members S0" "finite (s_counted S)"
proof -
  show "s_counted S \<subseteq> members S0"
  proof
    fix i
    assume "i \<in> s_counted S"
    with assms [rule_format, of i] show "i \<in> members S0"
      by (auto simp: replica_inv_def split: replica_phase.splits)
  qed
  then show "finite (s_counted S)" by (rule finite_subset) (simp add: members_def)
qed

lemma addVote_changes: "addVote b tid w = Returns () v \<Longrightarrow> \<exists>n. v = w\<lparr>m_votes := n\<rparr>"
proof -
  assume "addVote b tid w = Returns () v"
  then have "v = w \<or> v = w\<lparr>m_votes := count_vote b (m_votes w)\<rparr>"
    by (auto simp: addVote_def cpp_simps split: if_splits)
  moreover have "w = w\<lparr>m_votes := m_votes w\<rparr>" by simp
  ultimately show ?thesis by metis
qed

lemma result_world_votes: "(result_world w k b v d t s)\<lparr>m_votes := n\<rparr> = result_world w k b n d t s"
  by (simp add: result_world_def)

lemma vote_sum_insert:
  assumes "finite D" "i \<notin> D"
  shows "count_vote (says_yes en k S0 i) (vote_sum en c k S0 D) = vote_sum en c k S0 (insert i D)"
  using assms by (auto simp: vote_sum_def count_vote_def)

lemma replica_inv_counted:
  "\<lbrakk>replica_inv en k S0 S i; s_rphase T i = s_rphase S i; s_rep T i = s_rep S i; s_cphase T = s_cphase S;
    i \<in> s_counted T \<longrightarrow> i \<in> s_counted S \<or> s_rphase S i \<noteq> RIdle\<rbrakk> \<Longrightarrow> replica_inv en k S0 T i"
  by (auto simp: replica_inv_def split: replica_phase.splits)

lemma coordinator_inv_frame:
  "\<lbrakk>coordinator_inv en c k S0 S; s_coord T = s_coord S; s_cphase T = s_cphase S; s_counted T = s_counted S;
    s_cphase S \<noteq> CIdle \<or> s_rphase T = s_rphase S\<rbrakk> \<Longrightarrow> coordinator_inv en c k S0 T"
  by (auto simp: coordinator_inv_def split: coordinator_phase.splits)

lemma sys_invI:
  assumes "coordinator_inv en c k S0 T" "replica_inv en k S0 T i" "\<And>j. j \<noteq> i \<Longrightarrow> replica_inv en k S0 T j"
  shows "sys_inv en c k S0 T"
  using assms by (auto simp: sys_inv_def) metis

lemma inv_start:
  assumes "system_start en c k S0" "sys_inv en c k S0 S" "s_cphase S = CIdle"
    and "startTransaction (en c) k [] (s_coord S) = Returns () w"
  shows "sys_inv en c k S0 (S\<lparr>s_coord := w, s_cphase := CVoting\<rparr>)"
proof -
  have S: "s_coord S = s_coord S0" "\<forall>i. s_rphase S i = RIdle" "\<forall>i. replica_inv en k S0 S i"
    using assms(2,3) by (simp_all add: sys_inv_def coordinator_inv_def)
  then have "s_counted S = {}" by (auto simp: replica_inv_def)
  moreover obtain d t where "w = voting_world (s_coord S0) k (if coordinator_yes en c k S0 then 1 else -1) d t"
    "staged (en c) k (the_tid S0) (s_coord S0) d t"
    using startTransaction_stages [of "en c" k "s_coord S0" w] assms(1,4) S(1)
    by (auto simp: system_start_def coordinator_yes_def the_tid_def)
  ultimately show ?thesis
    using S by (auto simp: sys_inv_def coordinator_inv_def vote_sum_def replica_inv_def)
qed

lemma inv_vote:
  assumes "system_start en c k S0" "sys_inv en c k S0 S" "(i, TransactionMsg m) \<in> set (m_sent (s_coord S))"
    and "s_rphase S i = RIdle" "voteTransaction (en i) (receivedTransaction m) (s_rep S i) = Returns () w"
  shows "sys_inv en c k S0 (S\<lparr>s_rep := (s_rep S)(i := w), s_rphase := (s_rphase S)(i := RVoted)\<rparr>)"
proof -
  let ?T = "S\<lparr>s_rep := (s_rep S)(i := w), s_rphase := (s_rphase S)(i := RVoted)\<rparr>"
  have inv: "coordinator_inv en c k S0 S" "\<And>j. replica_inv en k S0 S j"
    using assms(2) by (simp_all add: sys_inv_def)
  note msg = coordinator_sent(1) [OF assms(1) inv(1) assms(3)]
  have rep: "s_rep S i = s_rep S0 i" using inv(2) [of i] assms(4) by (simp add: replica_inv_def)
  have start: "replica_idle (en i) (s_rep S0 i)" "node_ok (en i) k (s_rep S0 i)" "\<not> m_hasResult (s_rep S0 i)"
    using assms(1) msg by (simp_all add: system_start_def members_def)
  obtain d t where w: "w = voted_world (s_rep S0 i) (the_tid S0) (says_yes en k S0 i) d t"
    "staged (en i) k (the_tid S0) (s_rep S0 i) d t"
    using voteTransaction_stages [OF start(2,1), of "the_tid S0" w] assms(5) msg rep by (auto simp: says_yes_def)
  have "w = (voted_world (s_rep S0 i) (the_tid S0) (says_yes en k S0 i) d t)\<lparr>m_result := m_result w, m_hasResult := False\<rparr>"
    using w(1) start(3) by (cases "s_rep S0 i") (simp add: voted_world_def)
  with w(2) msg have "replica_inv en k S0 ?T i" by (auto simp: replica_inv_def)
  moreover have "replica_inv en k S0 ?T j" if "j \<noteq> i" for j
    by (rule replica_inv_counted [OF inv(2)]) (use that in simp_all)
  moreover have "s_cphase S \<noteq> CIdle"
    using inv(1) assms(1,3) by (auto simp: coordinator_inv_def system_start_def)
  moreover have "coordinator_inv en c k S0 ?T"
    by (rule coordinator_inv_frame [OF inv(1)]) (use calculation in auto)
  ultimately show ?thesis by (intro sys_invI) auto
qed

lemma inv_count:
  assumes "system_start en c k S0" "sys_inv en c k S0 S" "(j, VoteMsg v tid) \<in> set (m_sent (s_rep S i))"
    and "i \<notin> s_counted S" "addVote (v = COMMIT_VOTE) tid (s_coord S) = Returns () w"
  shows "sys_inv en c k S0 (S\<lparr>s_coord := w, s_counted := insert i (s_counted S)\<rparr>)"
proof -
  let ?T = "S\<lparr>s_coord := w, s_counted := insert i (s_counted S)\<rparr>"
  have inv: "coordinator_inv en c k S0 S" "\<And>j. replica_inv en k S0 S j"
    using assms(2) by (simp_all add: sys_inv_def)
  note msg = replica_sent [OF assms(1) inv(2) assms(3)]
  have "coordinator_inv en c k S0 ?T"
  proof (cases "s_cphase S")
    case CIdle
    with inv(1) msg show ?thesis by (simp add: coordinator_inv_def)
  next
    case CVoting
    then obtain d t where S: "s_coord S = voting_world (s_coord S0) k (vote_sum en c k S0 (s_counted S)) d t"
      "staged (en c) k (the_tid S0) (s_coord S0) d t"
      using inv(1) by (auto simp: coordinator_inv_def)
    then have "w = voting_world (s_coord S0) k (count_vote (says_yes en k S0 i) (vote_sum en c k S0 (s_counted S))) d t"
      using assms(5) msg by (simp add: addVote_simp)
    moreover have "finite (s_counted S)" using counted_members(2) inv(2) by blast
    ultimately show ?thesis
      using vote_sum_insert [OF _ assms(4), of en k S0 c] S(2) CVoting by (auto simp: coordinator_inv_def)
  next
    case (CDone b)
    then obtain v' d t s where R: "s_coord S = result_world (s_coord S0) k b v' d t s"
      "finished (en c) k (the_tid S0) (s_coord S0) b d s" "b = all_yes en c k S0"
      using inv(1) by (auto simp: coordinator_inv_def)
    obtain n where "w = (s_coord S)\<lparr>m_votes := n\<rparr>" using addVote_changes [OF assms(5)] by blast
    then have "w = result_world (s_coord S0) k b n d t s" using R(1) by (simp add: result_world_votes)
    with R CDone show ?thesis by (auto simp: coordinator_inv_def)
  qed
  moreover have "replica_inv en k S0 ?T h" for h
    by (rule replica_inv_counted [OF inv(2)]) (use msg in auto)
  ultimately show ?thesis by (simp add: sys_inv_def)
qed

lemma inv_decide:
  assumes "system_start en c k S0" "sys_inv en c k S0 S" "s_cphase S = CVoting"
    and "waitEndVoting [] (s_coord S) = Returns b v" "endTransaction (en c) b v = Returns res w"
  shows "sys_inv en c k S0 (S\<lparr>s_coord := w, s_cphase := CDone res\<rparr>)"
proof -
  let ?n = "length (getActiveServers (s_coord S0))" and ?D = "s_counted S"
  have inv: "coordinator_inv en c k S0 S" "\<And>j. replica_inv en k S0 S j"
    using assms(2) by (simp_all add: sys_inv_def)
  then obtain d t where S: "s_coord S = voting_world (s_coord S0) k (vote_sum en c k S0 ?D) d t"
    "staged (en c) k (the_tid S0) (s_coord S0) d t"
    using assms(3) by (auto simp: coordinator_inv_def)
  have v: "v = s_coord S" "b = (vote_sum en c k S0 ?D = int ?n + 1)"
    using assms(4) S(1) by (auto simp: waitEndVoting.simps cpp_simps split: if_splits)
  have start: "node_ok (en c) k (s_coord S0)" "coordinator_idle (en c) (s_coord S0)"
    "distinct (getActiveServers (s_coord S0))"
    using assms(1) by (simp_all add: system_start_def)
  have D: "?D \<subseteq> members S0" "finite ?D" using counted_members [of en k S0 S] inv(2) by auto
  have n: "card (members S0) = ?n" using start(3) by (simp add: members_def distinct_card)
  have all: "b = all_yes en c k S0"
    unfolding all_yes_def
  proof
    assume b
    then have "card ?D = ?n" "coordinator_yes en c k S0" "\<forall>i \<in> ?D. says_yes en k S0 i"
      using v(2) by (auto simp: vote_sum_def split: if_splits)
    moreover from this have "?D = members S0"
      using n D card_subset_eq [of "members S0" ?D] by (simp add: members_def)
    ultimately show "coordinator_yes en c k S0 \<and> (\<forall>i \<in> members S0. says_yes en k S0 i)" by simp
  next
    assume yes: "coordinator_yes en c k S0 \<and> (\<forall>i \<in> members S0. says_yes en k S0 i)"
    then have "vote_sum en c k S0 ?D = 1 + int (card ?D)" using D(1) by (auto simp: vote_sum_def)
    moreover have "card ?D \<le> ?n" using card_mono [OF _ D(1)] n by (simp add: members_def)
    ultimately show b
      using assms(4) S(1) v(2) by (auto simp: waitEndVoting.simps cpp_simps split: if_splits)
  qed
  have "res = b \<and> (\<exists>d' t' s'. w = result_world (s_coord S0) k b (vote_sum en c k S0 ?D) d' t' s' \<and>
      finished (en c) k (the_tid S0) (s_coord S0) b d' s')"
    using endTransaction_finishes [OF start(1,2), of d t b "vote_sum en c k S0 ?D" res w] assms(5) S v(1) all
    by (simp add: the_tid_def coordinator_yes_def all_yes_def)
  moreover from this have "replica_inv en k S0 (S\<lparr>s_coord := w, s_cphase := CDone res\<rparr>) i" for i
    using inv(2) [of i] assms(3) by (auto simp: replica_inv_def split: replica_phase.splits)
  ultimately show ?thesis
    using all by (simp add: sys_inv_def coordinator_inv_def) blast
qed

lemma receiveResult_changes:
  assumes "receiveResult b tid w = Returns () v"
  shows "m_activeSet w \<and> v = (if tid = t_tid (w_txn w) then w\<lparr>m_result := b, m_hasResult := True\<rparr> else w)"
  using assms by (auto simp: receiveResult_def cpp_simps split: if_splits)

lemma inv_inform:
  assumes "system_start en c k S0" "sys_inv en c k S0 S" "(i, ResultMsg v tid) \<in> set (m_sent (s_coord S))"
    and "receiveResult (v = COMMIT_VOTE) tid (s_rep S i) = Returns () w"
  shows "sys_inv en c k S0 (S\<lparr>s_rep := (s_rep S)(i := w)\<rparr>)"
proof -
  let ?T = "S\<lparr>s_rep := (s_rep S)(i := w)\<rparr>"
  have inv: "coordinator_inv en c k S0 S" "\<And>j. replica_inv en k S0 S j"
    using assms(2) by (simp_all add: sys_inv_def)
  obtain b where msg: "i \<in> members S0" "tid = the_tid S0" "s_cphase S = CDone b" "v = vote_of b" "i \<in> heard S0"
    using coordinator_sent(2) [OF assms(1) inv(1) assms(3)] heard_members by blast
  note w = receiveResult_changes [OF assms(4)]
  have "replica_inv en k S0 ?T i"
  proof (cases "s_rphase S i")
    case RIdle
    moreover have "m_activeSet (s_rep S0 i) \<longrightarrow> t_tid (w_txn (s_rep S0 i)) \<noteq> tid"
      using assms(1) msg(1,2) by (simp add: system_start_def members_def the_tid_def)
    ultimately show ?thesis
      using inv(2) [of i] w by (auto simp: replica_inv_def)
  next
    case RVoted
    then obtain d t h r where R: "s_rep S i = (voted_world (s_rep S0 i) (the_tid S0) (says_yes en k S0 i) d t)\<lparr>m_result := r, m_hasResult := h\<rparr>"
      "staged (en i) k (the_tid S0) (s_rep S0 i) d t"
      using inv(2) [of i] by (auto simp: replica_inv_def)
    then have "t_tid (w_txn (s_rep S i)) = tid" using msg(2) by simp
    with w R(1) msg(4) have "w = (voted_world (s_rep S0 i) (the_tid S0) (says_yes en k S0 i) d t)\<lparr>m_result := b, m_hasResult := True\<rparr>"
      by simp
    with RVoted R(2) msg show ?thesis by (auto simp: replica_inv_def)
  next
    case (RDone b')
    have "w_disk w = w_disk (s_rep S i)" "w_shared w = w_shared (s_rep S i)" "m_sent w = m_sent (s_rep S i)"
      using w by auto
    with RDone inv(2) [of i] show ?thesis by (simp add: replica_inv_def)
  qed
  moreover have "replica_inv en k S0 ?T j" if "j \<noteq> i" for j
    by (rule replica_inv_counted [OF inv(2)]) (use that in simp_all)
  moreover have "coordinator_inv en c k S0 ?T"
    by (rule coordinator_inv_frame [OF inv(1)]) (use calculation in auto)
  ultimately show ?thesis by (intro sys_invI) auto
qed

lemma inv_obey:
  assumes "system_start en c k S0" "sys_inv en c k S0 S" "s_rphase S i = RVoted"
    and "waitResult [] (s_rep S i) = Returns b v" "obeyResult (en i) b v = Returns res w"
  shows "sys_inv en c k S0 (S\<lparr>s_rep := (s_rep S)(i := w), s_rphase := (s_rphase S)(i := RDone res)\<rparr>)"
proof -
  let ?T = "S\<lparr>s_rep := (s_rep S)(i := w), s_rphase := (s_rphase S)(i := RDone res)\<rparr>"
  have inv: "coordinator_inv en c k S0 S" "\<And>j. replica_inv en k S0 S j"
    using assms(2) by (simp_all add: sys_inv_def)
  obtain d t h r where R: "i \<in> members S0"
    "s_rep S i = (voted_world (s_rep S0 i) (the_tid S0) (says_yes en k S0 i) d t)\<lparr>m_result := r, m_hasResult := h\<rparr>"
    "staged (en i) k (the_tid S0) (s_rep S0 i) d t" "h \<longrightarrow> s_cphase S = CDone r \<and> i \<in> heard S0"
    using assms(3) inv(2) [of i] by (auto simp: replica_inv_def)
  have v: "h" "b = r" "v = (voted_world (s_rep S0 i) (the_tid S0) (says_yes en k S0 i) d t)\<lparr>m_result := b, m_hasResult := False\<rparr>"
    using assms(4) R(2) by (auto simp: waitResult.simps cpp_simps split: if_splits)
  have start: "node_ok (en i) k (s_rep S0 i)" "m_sent (s_rep S0 i) = []"
    using assms(1) R(1) by (simp_all add: system_start_def members_def)
  have "res = b \<and> (\<exists>d' t' s'. w = obeyed_world (s_rep S0 i) (the_tid S0) (says_yes en k S0 i) b d' t' s' \<and>
      finished (en i) k (the_tid S0) (s_rep S0 i) b d' s')"
    using obeyResult_finishes [OF start(1) R(3), of b res w] assms(5) v(3) by (auto simp: says_yes_def)
  with v R start(2) have "replica_inv en k S0 ?T i" by (auto simp: replica_inv_def)
  moreover have "replica_inv en k S0 ?T j" if "j \<noteq> i" for j
    by (rule replica_inv_counted [OF inv(2)]) (use that in simp_all)
  moreover have "s_cphase S \<noteq> CIdle" using v(1) R(4) by auto
  moreover have "coordinator_inv en c k S0 ?T"
    by (rule coordinator_inv_frame [OF inv(1)]) (use calculation in auto)
  ultimately show ?thesis by (intro sys_invI) auto
qed

lemma sys_inv_step:
  assumes "system_start en c k S0" "sys_inv en c k S0 S" "sys_step en c k S T"
  shows "sys_inv en c k S0 T"
  using assms(3)
proof (cases rule: sys_step.cases)
  case (start w)
  from inv_start [OF assms(1,2) start(2,3)] start(1) show ?thesis by simp
next
  case (vote i m w)
  from inv_vote [OF assms(1,2) vote(2-4)] vote(1) show ?thesis by simp
next
  case (count j v tid i w)
  from inv_count [OF assms(1,2) count(2-4)] count(1) show ?thesis by simp
next
  case (decide b v res w)
  from inv_decide [OF assms(1,2) decide(2-4)] decide(1) show ?thesis by simp
next
  case (inform i v tid w)
  from inv_inform [OF assms(1,2) inform(2,3)] inform(1) show ?thesis by simp
next
  case (obey i b v res w)
  from inv_obey [OF assms(1,2) obey(2-4)] obey(1) show ?thesis by simp
qed

lemma reachable_inv:
  assumes "system_start en c k S0" "reachable en c k S0 S"
  shows "sys_inv en c k S0 S"
  using assms(2)
proof (induction rule: reachable.induct)
  case refl
  show ?case by (rule sys_inv_start [OF assms(1)])
next
  case (step T U)
  from sys_inv_step [OF assms(1) step.IH step.hyps(2)] show ?case .
qed

section \<open>Agreement\<close>

lemma replica_follows:
  assumes "system_start en c k S0" "reachable en c k S0 S" "s_rphase S i = RDone b"
  shows "s_cphase S = CDone b \<and>
    finished (en i) k (the_tid S0) (s_rep S0 i) b (w_disk (s_rep S i)) (w_shared (s_rep S i))"
  using reachable_inv [OF assms(1,2)] assms(3) by (auto simp: sys_inv_def replica_inv_def split: replica_phase.splits)

text \<open>A replica that is not told the result does not finish.\<close>

lemma unheard_waits:
  assumes "system_start en c k S0" "reachable en c k S0 S" "i \<notin> heard S0"
  shows "s_rphase S i \<noteq> RDone b"
  using reachable_inv [OF assms(1,2)] assms(3) by (auto simp: sys_inv_def replica_inv_def split: replica_phase.splits)

lemma voted_active:
  assumes "system_start en c k S0" "reachable en c k S0 S" "s_rphase S i = RVoted"
  shows "m_isTransactionActive (s_rep S i) \<and> w_shared (s_rep S i) = w_shared (s_rep S0 i)"
proof -
  have "replica_inv en k S0 S i" using reachable_inv [OF assms(1,2)] by (simp add: sys_inv_def)
  with assms(3) show ?thesis by (auto simp: replica_inv_def voted_world_def)
qed

text \<open>A replica that waits for a result leaves every later transaction without a vote.\<close>

lemma active_ignores: "m_isTransactionActive w \<Longrightarrow> receiveNewTransaction e t results w = Returns False w"
  by (simp add: receiveNewTransaction_def cpp_simps)

lemma commit_unanimous:
  assumes "system_start en c k S0" "reachable en c k S0 S" "s_cphase S = CDone b"
  shows "b = all_yes en c k S0"
  using reachable_inv [OF assms(1,2)] assms(3) by (simp add: sys_inv_def coordinator_inv_def)

lemma coordinator_finished:
  assumes "system_start en c k S0" "reachable en c k S0 S" "s_cphase S = CDone b"
  shows "finished (en c) k (the_tid S0) (s_coord S0) b (w_disk (s_coord S)) (w_shared (s_coord S))"
  using reachable_inv [OF assms(1,2)] assms(3) by (auto simp: sys_inv_def coordinator_inv_def)

text \<open>Servers with one hash function agree on the effect.\<close>

lemma txn_effect_env:
  "env_xxh64 e = env_xxh64 e' \<Longrightarrow> txn_effect e tid k s = txn_effect e' tid k s"
  by (cases k) (simp_all add: txn_effect_def kind_effect_def the_file_def)

lemma finished_shared:
  "finished e k tid w b d s \<Longrightarrow>
    s = (if b then case txn_effect e tid k (w_shared w) of None \<Rightarrow> w_shared w | Some s' \<Rightarrow> s' else w_shared w)"
  by (auto simp: finished_def split: option.splits if_splits)

lemma replicas_agree:
  assumes "system_start en c k S0" "reachable en c k S0 S"
    and "s_cphase S = CDone a" "s_rphase S i = RDone b"
    and "w_shared (s_rep S0 i) = w_shared (s_coord S0)" "env_xxh64 (en i) = env_xxh64 (en c)"
  shows "a = b \<and> w_shared (s_rep S i) = w_shared (s_coord S)"
proof -
  have "a = b" "finished (en i) k (the_tid S0) (s_rep S0 i) b (w_disk (s_rep S i)) (w_shared (s_rep S i))"
    using replica_follows [OF assms(1,2,4)] assms(3) by simp_all
  moreover note coordinator_finished [OF assms(1-3)]
  ultimately show ?thesis
    using assms(5) txn_effect_env [OF assms(6)] finished_shared by metis
qed

end
