(* ===== verification/Two_Phase_Progress.thy ===== *)
theory Two_Phase_Progress
  imports Two_Phase_System
begin

text \<open>
  The two-phase commit cannot get stuck while no server fails: a system that runs one
  transaction can be continued from every reachable state until the coordinator and all
  replicas are done.
\<close>

section \<open>The methods of one server return\<close>

definition answers :: "env \<Rightarrow> txn_kind \<Rightarrow> int \<Rightarrow> 'a mgr_world_scheme \<Rightarrow> bool" where
  "answers e k tid w \<longleftrightarrow> accepts e k tid w \<or> refuses_cleanly k"

lemma startTransaction_ready:
  assumes "node_ok e k w" "coordinator_idle e w" "answers e k (next_tid w) w"
  shows "\<exists>v. startTransaction e k [] w = Returns () v"
proof (cases "txn_effect e (next_tid w) k (w_shared w)")
  case (Some s)
  note ready = node_ready [OF assms(1)]
  from startTransaction_accepts [OF ready(4) assms(2) ready(1) [OF Some] Some, of "[]"] show ?thesis by blast
next
  case None
  with assms(3) have "refuses_cleanly k" by (simp add: answers_def accepts_def)
  with startTransaction_refuses [OF assms(1,2) None] show ?thesis by blast
qed

lemma endTransaction_ready:
  assumes "node_ok e k w" "coordinator_idle e w" "staged e k (next_tid w) w d t"
    and "res \<longrightarrow> accepts e k (next_tid w) w"
  shows "\<exists>b v. endTransaction e res (voting_world w k c d t) = Returns b v"
proof (cases "txn_effect e (next_tid w) k (w_shared w)")
  case (Some s)
  note ready = node_ready [OF assms(1)]
  have t: "t = prepared_txn k (next_tid w) s" "fs_wf d" "fs_lookup d = prepared_view e k (next_tid w) (fs_lookup (w_disk w))"
    using assms(3) Some by (simp_all add: staged_def)
  show ?thesis
    using endTransaction_commits [OF ready(4) assms(2) ready(1) [OF Some] t(2,3), of c s]
      endTransaction_rolls_back [OF ready(4) assms(2) ready(1) [OF Some] t(2,3), of c s] t(1)
    by (cases res) auto
next
  case None
  with assms(3,4) endTransaction_refused [of e w k c] show ?thesis
    by (auto simp: staged_def accepts_def)
qed

lemma voteTransaction_ready:
  assumes "node_ok e k w" "replica_idle e w" "answers e k tid w"
  shows "\<exists>v. voteTransaction e (received k tid) w = Returns () v"
proof (cases "txn_effect e tid k (w_shared w)")
  case (Some s)
  note ready = node_ready [OF assms(1)]
  from voteTransaction_accepts [OF ready(4) assms(2) ready(1) [OF Some] Some] show ?thesis by blast
next
  case None
  note ready = node_ready [OF assms(1)]
  from None assms(3) have "refuses_cleanly k" by (simp add: answers_def accepts_def)
  with voteTransaction_refuses [OF ready(4) assms(2) ready(2) None] show ?thesis by blast
qed

lemma obeyResult_ready:
  assumes "node_ok e k w" "staged e k tid w d t" "res \<longrightarrow> accepts e k tid w"
  shows "\<exists>b v. obeyResult e res ((voted_world w tid (accepts e k tid w) d t)\<lparr>m_result := res, m_hasResult := False\<rparr>) = Returns b v"
proof (cases "txn_effect e tid k (w_shared w)")
  case (Some s)
  note ready = node_ready [OF assms(1)]
  have t: "t = prepared_txn k tid s" "fs_wf d" "fs_lookup d = prepared_view e k tid (fs_lookup (w_disk w))"
    and yes: "accepts e k tid w"
    using assms(2) Some by (simp_all add: staged_def accepts_def)
  show ?thesis
    using obeyResult_commits [OF ready(4,3) ready(1) [OF Some] t(2,3), of s]
      obeyResult_rolls_back [OF ready(4,3) ready(1) [OF Some] t(2,3), of s] t(1) yes
    by (cases res) auto
next
  case None
  with assms(2) obeyResult_refused [of e res w tid k] show ?thesis
    by (auto simp: staged_def accepts_def)
qed

section \<open>The steps are enabled\<close>

definition all_answer :: "(int \<Rightarrow> env) \<Rightarrow> int \<Rightarrow> txn_kind \<Rightarrow> system \<Rightarrow> bool" where
  "all_answer en c k S0 \<longleftrightarrow>
     answers (en c) k (the_tid S0) (s_coord S0) \<and>
     (\<forall>i \<in> members S0. answers (en i) k (the_tid S0) (s_rep S0 i))"

lemma reachable_trans:
  assumes "reachable en c k S0 S" "reachable en c k S T"
  shows "reachable en c k S0 T"
  using assms(2) by (induction rule: reachable.induct) (auto intro: assms(1) reachable.step)

lemma txn_message_sent:
  assumes "coordinator_inv en c k S0 S" "s_cphase S \<noteq> CIdle" "i \<in> members S0"
  obtains m where "(i, TransactionMsg m) \<in> set (m_sent (s_coord S))" "receivedTransaction m = received k (the_tid S0)"
proof -
  obtain m where m: "txn_message k (the_tid S0) = TransactionMsg m" by (simp add: txn_message_def)
  have "(i, TransactionMsg m) \<in> set (broadcast (txn_message k (the_tid S0)) (s_coord S0))"
    using assms(3) m by (simp add: broadcast_iff members_def)
  with assms(1,2) have "(i, TransactionMsg m) \<in> set (m_sent (s_coord S))"
    by (auto simp: coordinator_inv_def voting_world_sent the_tid_def split: coordinator_phase.splits)
  with received_txn_message [OF m] that show ?thesis by blast
qed

lemma can_vote:
  assumes "system_start en c k S0" "all_answer en c k S0" "reachable en c k S0 S"
    and "s_cphase S \<noteq> CIdle" "i \<in> members S0" "s_rphase S i = RIdle"
  shows "\<exists>T. reachable en c k S T \<and> s_rphase T = (s_rphase S)(i := RVoted) \<and> s_cphase T = s_cphase S \<and>
    s_counted T = s_counted S"
proof -
  have inv: "coordinator_inv en c k S0 S" "replica_inv en k S0 S i"
    using reachable_inv [OF assms(1,3)] by (simp_all add: sys_inv_def)
  obtain m where m: "(i, TransactionMsg m) \<in> set (m_sent (s_coord S))" "receivedTransaction m = received k (the_tid S0)"
    using txn_message_sent [OF inv(1) assms(4,5)] by blast
  have "s_rep S i = s_rep S0 i" using inv(2) assms(6) by (simp add: replica_inv_def)
  moreover have "node_ok (en i) k (s_rep S0 i)" "replica_idle (en i) (s_rep S0 i)" "answers (en i) k (the_tid S0) (s_rep S0 i)"
    using assms(1,2,5) by (simp_all add: system_start_def members_def all_answer_def)
  ultimately obtain w where "voteTransaction (en i) (receivedTransaction m) (s_rep S i) = Returns () w"
    using voteTransaction_ready m(2) by metis
  then have "sys_step en c k S (S\<lparr>s_rep := (s_rep S)(i := w), s_rphase := (s_rphase S)(i := RVoted)\<rparr>)"
    by (rule sys_step.vote [OF m(1) assms(6)])
  from reachable.step [OF reachable.refl this] show ?thesis
    by (intro exI conjI, assumption) simp_all
qed

lemma can_count:
  assumes "system_start en c k S0" "reachable en c k S0 S"
    and "s_cphase S = CVoting" "i \<in> members S0" "s_rphase S i = RVoted" "i \<notin> s_counted S"
  shows "\<exists>T. reachable en c k S T \<and> s_rphase T = s_rphase S \<and> s_cphase T = CVoting \<and>
    s_counted T = insert i (s_counted S)"
proof -
  have inv: "coordinator_inv en c k S0 S" "replica_inv en k S0 S i"
    using reachable_inv [OF assms(1,2)] by (simp_all add: sys_inv_def)
  have m: "(m_coordinator_id (s_rep S0 i), VoteMsg (vote_of (says_yes en k S0 i)) (the_tid S0)) \<in> set (m_sent (s_rep S i))"
    using inv(2) assms(5) by (auto simp: replica_inv_def voted_world_def)
  have "m_activeSet (s_coord S)"
    using inv(1) assms(3) by (auto simp: coordinator_inv_def)
  then obtain w where w: "addVote (vote_of (says_yes en k S0 i) = COMMIT_VOTE) (the_tid S0) (s_coord S) = Returns () w"
    using addVote_simp by blast
  have "reachable en c k S (S\<lparr>s_coord := w, s_counted := insert i (s_counted S)\<rparr>)"
    by (rule reachable.step [OF reachable.refl sys_step.count [OF m assms(6) w]])
  then show ?thesis
    by (intro exI [of _ "S\<lparr>s_coord := w, s_counted := insert i (s_counted S)\<rparr>"]) (simp add: assms(3))
qed

lemma can_decide:
  assumes "system_start en c k S0" "reachable en c k S0 S" "s_cphase S = CVoting" "s_counted S = members S0"
  shows "\<exists>T b. reachable en c k S T \<and> s_rphase T = s_rphase S \<and> s_cphase T = CDone b"
proof -
  let ?n = "length (getActiveServers (s_coord S0))" and ?v = "vote_sum en c k S0 (members S0)"
  have "coordinator_inv en c k S0 S" using reachable_inv [OF assms(1,2)] by (simp add: sys_inv_def)
  then obtain d t where S: "s_coord S = voting_world (s_coord S0) k ?v d t"
    "staged (en c) k (the_tid S0) (s_coord S0) d t"
    using assms(3,4) by (auto simp: coordinator_inv_def)
  have start: "node_ok (en c) k (s_coord S0)" "coordinator_idle (en c) (s_coord S0)"
    "distinct (getActiveServers (s_coord S0))"
    using assms(1) by (simp_all add: system_start_def)
  then have "card (members S0) = ?n" by (simp add: members_def distinct_card)
  then have v: "?v = (if coordinator_yes en c k S0 \<and> (\<forall>i \<in> members S0. says_yes en k S0 i) then int ?n + 1 else -1)"
    by (simp add: vote_sum_def)
  then have wait: "waitEndVoting [] (s_coord S) = Returns (?v = int ?n + 1) (s_coord S)"
    using S(1) by (auto simp: waitEndVoting.simps cpp_simps)
  have "?v = int ?n + 1 \<longrightarrow> accepts (en c) k (next_tid (s_coord S0)) (s_coord S0)"
    using v by (auto simp: coordinator_yes_def the_tid_def split: if_splits)
  from endTransaction_ready [OF start(1,2) S(2) [unfolded the_tid_def] this, of ?v]
  obtain b w where "endTransaction (en c) (?v = int ?n + 1) (s_coord S) = Returns b w"
    unfolding S(1) by blast
  then have "sys_step en c k S (S\<lparr>s_coord := w, s_cphase := CDone b\<rparr>)"
    by (rule sys_step.decide [OF assms(3) wait])
  from reachable.step [OF reachable.refl this] show ?thesis
    by (intro exI conjI, assumption) simp_all
qed

lemma result_sent:
  assumes "coordinator_inv en c k S0 S" "s_cphase S = CDone b" "i \<in> heard S0"
  shows "(i, ResultMsg (vote_of b) (the_tid S0)) \<in> set (m_sent (s_coord S))"
  using assms by (auto simp: coordinator_inv_def result_messages_iff heard_def the_tid_def)

lemma can_finish:
  assumes "system_start en c k S0" "reachable en c k S0 S"
    and "s_cphase S = CDone b" "i \<in> heard S0" "s_rphase S i = RVoted"
  shows "\<exists>T b'. reachable en c k S T \<and> s_rphase T = (s_rphase S)(i := RDone b') \<and> s_cphase T = CDone b"
proof -
  have inv: "coordinator_inv en c k S0 S" "replica_inv en k S0 S i"
    using reachable_inv [OF assms(1,2)] by (simp_all add: sys_inv_def)
  have member: "i \<in> members S0" using assms(4) heard_members by blast
  let ?yes = "says_yes en k S0 i" and ?w0 = "s_rep S0 i"
  obtain d t h r where R: "s_rep S i = (voted_world ?w0 (the_tid S0) ?yes d t)\<lparr>m_result := r, m_hasResult := h\<rparr>"
    "staged (en i) k (the_tid S0) ?w0 d t"
    using inv(2) assms(5) by (auto simp: replica_inv_def)
  let ?u = "(voted_world ?w0 (the_tid S0) ?yes d t)\<lparr>m_result := b, m_hasResult := True\<rparr>"
  let ?T = "S\<lparr>s_rep := (s_rep S)(i := ?u)\<rparr>"
  have "receiveResult (vote_of b = COMMIT_VOTE) (the_tid S0) (s_rep S i) = Returns () ?u"
    using R by (simp add: receiveResult_def cpp_simps)
  from sys_step.inform [OF result_sent [OF inv(1) assms(3,4)] this]
  have T: "sys_step en c k S ?T" .
  have wait: "waitResult [] (s_rep ?T i) = Returns b (?u\<lparr>m_hasResult := False\<rparr>)"
    by (simp add: waitResult_stale)
  have "b \<longrightarrow> accepts (en i) k (the_tid S0) ?w0"
    using inv(1) assms(3) member by (auto simp: coordinator_inv_def says_yes_def all_yes_def)
  moreover have "node_ok (en i) k ?w0" using assms(1) member by (simp add: system_start_def members_def)
  ultimately obtain b' w where "obeyResult (en i) b (?u\<lparr>m_hasResult := False\<rparr>) = Returns b' w"
    using obeyResult_ready [OF _ R(2), of b] by (auto simp: says_yes_def)
  then have "sys_step en c k ?T (?T\<lparr>s_rep := (s_rep ?T)(i := w), s_rphase := (s_rphase ?T)(i := RDone b')\<rparr>)"
    using assms(5) by (intro sys_step.obey [OF _ wait]) simp_all
  from reachable.step [OF reachable.step [OF reachable.refl T] this] show ?thesis
    by (intro exI conjI, assumption) (simp_all add: assms(3))
qed

section \<open>Every run can be completed\<close>

lemma all_vote:
  assumes "system_start en c k S0" "all_answer en c k S0" "reachable en c k S0 S" "s_cphase S \<noteq> CIdle"
    and "finite A" "A \<subseteq> members S0"
  shows "\<exists>T. reachable en c k S T \<and> s_cphase T = s_cphase S \<and> s_counted T = s_counted S \<and>
    (\<forall>i. s_rphase T i = (if i \<in> A \<and> s_rphase S i = RIdle then RVoted else s_rphase S i))"
  using assms(5,6)
proof (induction A)
  case empty
  show ?case by (intro exI [of _ S]) (simp add: reachable.refl)
next
  case (insert i A)
  then obtain T where T: "reachable en c k S T" "s_cphase T = s_cphase S" "s_counted T = s_counted S"
    "\<forall>i. s_rphase T i = (if i \<in> A \<and> s_rphase S i = RIdle then RVoted else s_rphase S i)" by auto
  show ?case
  proof (cases "s_rphase S i = RIdle")
    case False
    with T show ?thesis by (intro exI [of _ T]) auto
  next
    case True
    with T insert.hyps insert.prems assms(4) obtain U where U: "reachable en c k T U"
      "s_rphase U = (s_rphase T)(i := RVoted)" "s_cphase U = s_cphase T" "s_counted U = s_counted T"
      using can_vote [OF assms(1,2) reachable_trans [OF assms(3) T(1)], of i] by auto
    with T True show ?thesis by (intro exI [of _ U]) (auto intro: reachable_trans)
  qed
qed

lemma all_counted:
  assumes "system_start en c k S0" "reachable en c k S0 S" "s_cphase S = CVoting"
    and "\<forall>i \<in> members S0. s_rphase S i = RVoted" "finite A" "A \<subseteq> members S0"
  shows "\<exists>T. reachable en c k S T \<and> s_cphase T = CVoting \<and> s_rphase T = s_rphase S \<and> s_counted T = s_counted S \<union> A"
  using assms(5,6)
proof (induction A)
  case empty
  show ?case by (intro exI [of _ S]) (simp add: reachable.refl assms(3))
next
  case (insert i A)
  then obtain T where T: "reachable en c k S T" "s_cphase T = CVoting" "s_rphase T = s_rphase S" "s_counted T = s_counted S \<union> A"
    by auto
  show ?case
  proof (cases "i \<in> s_counted T")
    case True
    with T show ?thesis by (intro exI [of _ T]) auto
  next
    case False
    with T insert.prems assms(4) obtain U where "reachable en c k T U" "s_rphase U = s_rphase T" "s_cphase U = CVoting"
      "s_counted U = insert i (s_counted T)"
      using can_count [OF assms(1) reachable_trans [OF assms(2) T(1)] T(2), of i] by auto
    with T show ?thesis by (intro exI [of _ U]) (auto intro: reachable_trans)
  qed
qed

lemma all_finish:
  assumes "system_start en c k S0" "reachable en c k S0 S" "s_cphase S = CDone b"
    and "\<forall>i \<in> members S0. s_rphase S i \<noteq> RIdle" "finite A" "A \<subseteq> heard S0"
  shows "\<exists>T. reachable en c k S T \<and> s_cphase T = CDone b \<and> (\<forall>i \<in> members S0. s_rphase T i \<noteq> RIdle) \<and>
    (\<forall>i \<in> A. s_rphase T i \<noteq> RVoted)"
  using assms(5,6)
proof (induction A)
  case empty
  show ?case by (intro exI [of _ S]) (simp add: reachable.refl assms(3,4))
next
  case (insert i A)
  then obtain T where T: "reachable en c k S T" "s_cphase T = CDone b" "\<forall>i \<in> members S0. s_rphase T i \<noteq> RIdle"
    "\<forall>i \<in> A. s_rphase T i \<noteq> RVoted" by auto
  show ?case
  proof (cases "s_rphase T i = RVoted")
    case False
    with T show ?thesis by (intro exI [of _ T]) auto
  next
    case True
    with T insert.prems obtain U b' where "reachable en c k T U" "s_rphase U = (s_rphase T)(i := RDone b')" "s_cphase U = CDone b"
      using can_finish [OF assms(1) reachable_trans [OF assms(2) T(1)] T(2), of i] by auto
    with T show ?thesis by (intro exI [of _ U]) (auto intro: reachable_trans)
  qed
qed

text \<open>A system that waits for votes can reach a decision.\<close>

lemma voting_decides:
  assumes "system_start en c k S0" "all_answer en c k S0" "reachable en c k S0 S" "s_cphase S = CVoting"
  shows "\<exists>T b. reachable en c k S T \<and> s_cphase T = CDone b"
proof -
  have fin: "finite (members S0)" by (simp add: members_def)
  obtain T where T: "reachable en c k S T" "s_cphase T = CVoting"
    "\<forall>i. s_rphase T i = (if i \<in> members S0 \<and> s_rphase S i = RIdle then RVoted else s_rphase S i)"
    using all_vote [OF assms(1-3) _ fin order_refl] assms(4) by auto
  note reach = reachable_trans [OF assms(3) T(1)]
  have "\<forall>i \<in> members S0. s_rphase T i = RVoted"
  proof
    fix i
    assume "i \<in> members S0"
    with T(3) have "s_rphase T i \<noteq> RIdle" by simp
    moreover have "replica_inv en k S0 T i" using reachable_inv [OF assms(1) reach] by (simp add: sys_inv_def)
    ultimately show "s_rphase T i = RVoted"
      using T(2) by (auto simp: replica_inv_def split: replica_phase.splits)
  qed
  from all_counted [OF assms(1) reach T(2) this fin order_refl] obtain U where U:
    "reachable en c k T U" "s_cphase U = CVoting" "s_counted U = s_counted T \<union> members S0" by auto
  note reachU = reachable_trans [OF reach U(1)]
  have "s_counted T \<subseteq> members S0"
    using counted_members(1) reachable_inv [OF assms(1) reach] unfolding sys_inv_def by blast
  with U(3) have "s_counted U = members S0" by auto
  from can_decide [OF assms(1) reachU U(2) this] show ?thesis
    using reachable_trans [OF reachable_trans [OF T(1) U(1)]] by blast
qed

lemma can_complete:
  assumes "system_start en c k S0" "all_answer en c k S0" "reachable en c k S0 S"
  shows "\<exists>T b. reachable en c k S T \<and> s_cphase T = CDone b \<and> (\<forall>i \<in> heard S0. s_rphase T i = RDone b) \<and>
    (\<forall>i \<in> members S0 - heard S0. s_rphase T i = RVoted)"
proof -
  have fin: "finite (members S0)" by (simp add: members_def)
  obtain T1 where T1: "reachable en c k S T1" "s_cphase T1 \<noteq> CIdle"
  proof (cases "s_cphase S = CIdle")
    case False
    with that show ?thesis using reachable.refl by blast
  next
    case True
    then have "s_coord S = s_coord S0"
      using reachable_inv [OF assms(1,3)] by (simp add: sys_inv_def coordinator_inv_def)
    then obtain w where "startTransaction (en c) k [] (s_coord S) = Returns () w"
      using startTransaction_ready [of "en c" k "s_coord S0"] assms(1,2)
      by (auto simp: system_start_def all_answer_def the_tid_def)
    then have "sys_step en c k S (S\<lparr>s_coord := w, s_cphase := CVoting\<rparr>)"
      by (rule sys_step.start [OF True])
    from reachable.step [OF reachable.refl this] show ?thesis
      by (rule that) simp
  qed
  then obtain T2 b where T2: "reachable en c k S T2" "s_cphase T2 = CDone b"
    using voting_decides [OF assms(1,2) reachable_trans [OF assms(3) T1(1)]] reachable_trans [OF T1(1)] reachable.refl
    by (cases "s_cphase T1") blast+
  obtain T3 where T3: "reachable en c k T2 T3" "s_cphase T3 = CDone b"
    "\<forall>i. s_rphase T3 i = (if i \<in> members S0 \<and> s_rphase T2 i = RIdle then RVoted else s_rphase T2 i)"
    using all_vote [OF assms(1,2) reachable_trans [OF assms(3) T2(1)] _ fin order_refl] T2(2) by auto
  note reach3 = reachable_trans [OF reachable_trans [OF assms(3) T2(1)] T3(1)]
  have "\<forall>i \<in> members S0. s_rphase T3 i \<noteq> RIdle" using T3(3) by simp
  from all_finish [OF assms(1) reach3 T3(2) this finite_subset [OF heard_members fin] order_refl]
  obtain T4 where T4: "reachable en c k T3 T4" "s_cphase T4 = CDone b" "\<forall>i \<in> members S0. s_rphase T4 i \<noteq> RIdle"
    "\<forall>i \<in> heard S0. s_rphase T4 i \<noteq> RVoted"
    by blast
  note reach4 = reachable_trans [OF reach3 T4(1)]
  have "s_rphase T4 i = RDone b" if "i \<in> heard S0" for i
    using that heard_members T4(2-4) replica_follows [OF assms(1) reach4, of i] by (cases "s_rphase T4 i") auto
  moreover have "s_rphase T4 i = RVoted" if "i \<in> members S0 - heard S0" for i
    using that T4(3) unheard_waits [OF assms(1) reach4, of i] by (cases "s_rphase T4 i") auto
  ultimately show ?thesis
    using T4(2) reachable_trans [OF reachable_trans [OF T2(1) T3(1)] T4(1)] by blast
qed

end
