(* ===== verification/Stalled.thy ===== *)
theory Stalled
  imports Two_Phase_Progress
begin

text \<open>
  The transaction after the first one.  When the first is over, the coordinator is ready for
  another, with the same active set; a replica that was not told the result of the first is
  still in that set and casts no vote.  Without its vote \<open>waitEndVoting\<close> does not return, and
  the coordinator serves nothing any more.
\<close>

text \<open>The state and the disk that the coordinator is left with.\<close>

lemma finished_mirrors:
  assumes "node_ok e k w" "finished e k tid w b d s"
  shows "mirrors e d s \<and> state_inv s"
proof (cases "b \<and> txn_effect e tid k (w_shared w) \<noteq> None")
  case True
  then obtain s' where s': "txn_effect e tid k (w_shared w) = Some s'" by auto
  then show ?thesis
    using True assms mirrors_commit [of e "w_disk w" "w_shared w" k tid s' d] txn_effect_inv [OF _ s']
    by (auto simp: node_ok_def finished_def)
next
  case False
  then have "s = w_shared w" "d = w_disk w" using assms(2) by (auto simp: finished_def split: option.splits)
  with assms(1) show ?thesis by (simp add: node_ok_def)
qed

lemma coordinator_ready_again:
  assumes "system_start en c k S0" "reachable en c k S0 T" "s_cphase T = CDone b"
    and "proper (w_shared (s_coord T)) k'" "m_lastTid (s_coord T) < 2 ^ 31 - 1"
  shows "node_ok (en c) k' (s_coord T)" "coordinator_idle (en c) (s_coord T)"
    "getActiveServers (s_coord T) = getActiveServers (s_coord S0)"
proof -
  obtain v d t s where T: "s_coord T = result_world (s_coord S0) k b v d t s"
    and f: "finished (en c) k (the_tid S0) (s_coord S0) b d s"
    using reachable_inv [OF assms(1,2)] assms(3) by (auto simp: sys_inv_def coordinator_inv_def)
  have start: "node_ok (en c) k (s_coord S0)" "m_isCoordinator (s_coord S0)"
    using assms(1) by (simp_all add: system_start_def coordinator_idle_def)
  note ms = finished_mirrors [OF start(1) f]
  from start(1) have env: "env_ok (en c)" by (simp add: node_ok_def)
  from ms assms(4) T env show "node_ok (en c) k' (s_coord T)" by (simp add: node_ok_def)
  have "disk_idle (en c) d" using ms mirrorsD(1) by blast
  with T start(2) assms(5) show "coordinator_idle (en c) (s_coord T)" by (simp add: coordinator_idle_def)
  from T show "getActiveServers (s_coord T) = getActiveServers (s_coord S0)"
    by (simp add: result_world_def getActiveServers_def)
qed

text \<open>A missing vote.\<close>

lemma missing_vote_blocks:
  assumes "node_ok e k w" "coordinator_idle e w" "accepts e k (next_tid w) w"
    and "False \<notin> set (ballots (next_tid w) (early @ late))"
    and "length (ballots (next_tid w) (early @ late)) < length (getActiveServers w)"
  shows "\<exists>v. doTransaction e k early late w = Blocks v \<and> m_isTransactionActive v"
proof -
  obtain s' where s': "txn_effect e (next_tid w) k (w_shared w) = Some s'"
    using assms(3) by (auto simp: accepts_def)
  have "unanimous (length (getActiveServers w)) (ballots (next_tid w) (early @ late)) = None"
    using assms(4,5) by (auto simp: unanimous_def dest: in_set_takeD)
  moreover have "length (ballots (next_tid w) early) \<le> length (getActiveServers w)"
    using assms(5) by simp
  ultimately obtain c d where "doTransaction e k early late w = Blocks (voting_world w k c d (prepared_txn k (next_tid w) s'))"
    using doTransaction_accepted [OF node_ready(4) [OF assms(1)] assms(2) node_ready(1) [OF assms(1) s'] s', of early late]
    by auto
  then show ?thesis by (simp add: voting_world_def)
qed

text \<open>The replicas that voted on one transaction, of a sequence of votes with their senders.\<close>

definition voters :: "int \<Rightarrow> (int \<times> bool \<times> int) list \<Rightarrow> int list" where
  "voters tid vs = map fst (filter (\<lambda>v. snd (snd v) = tid) vs)"

lemma voters_ballots: "length (ballots tid (map snd vs)) = length (voters tid vs)"
  by (induction vs) (simp_all add: voters_def)

lemma ballots_positive: "\<forall>v \<in> set vs. fst (snd v) \<Longrightarrow> False \<notin> set (ballots tid (map snd vs))"
  by (induction vs) auto

lemma few_voters:
  assumes "distinct (voters tid vs)" "set (voters tid vs) \<subset> set ns"
  shows "length (voters tid vs) < length ns"
proof -
  have "card (set (voters tid vs)) < card (set ns)" using assms(2) by (intro psubset_card_mono) simp_all
  then show ?thesis using distinct_card [OF assms(1)] card_length [of ns] by simp
qed

text \<open>The next transaction when one active replica casts no vote.\<close>

lemma silent_replica_stalls:
  assumes "system_start en c k S0" "reachable en c k S0 T" "s_cphase T = CDone b"
    and "proper (w_shared (s_coord T)) k'" "m_lastTid (s_coord T) < 2 ^ 31 - 1"
    and "accepts (en c) k' (next_tid (s_coord T)) (s_coord T)"
    and "\<forall>v \<in> set (early @ late). fst (snd v)"
    and "distinct (voters (next_tid (s_coord T)) (early @ late))"
    and "set (voters (next_tid (s_coord T)) (early @ late)) \<subset> set (getActiveServers (s_coord S0))"
  shows "\<exists>v. doTransaction (en c) k' (map snd early) (map snd late) (s_coord T) = Blocks v \<and> m_isTransactionActive v"
proof -
  note again = coordinator_ready_again [OF assms(1-5)]
  have "False \<notin> set (ballots (next_tid (s_coord T)) (map snd early @ map snd late))"
    using ballots_positive [OF assms(7)] by simp
  moreover have "length (ballots (next_tid (s_coord T)) (map snd early @ map snd late)) < length (getActiveServers (s_coord T))"
    using few_voters [OF assms(8,9)] voters_ballots [of _ "early @ late"] again(3) by simp
  ultimately show ?thesis by (rule missing_vote_blocks [OF again(1,2) assms(6)])
qed

end
