(* ===== verification/Manager_Invariant.thy ===== *)
theory Manager_Invariant
  imports Manager_Correct Storage
begin

text \<open>
  The invariant of a server between transactions: the disk mirrors the state, the state is
  consistent, and the manager's counter is not behind the state.  Whatever votes arrive, a
  transaction of the coordinator that returns keeps it, and its effect on the state is the
  abstract effect of the transaction or nothing.  This is the contract of the transaction
  service that the request handlers are verified against.
\<close>

section \<open>The invariant\<close>

definition server_ok :: "env \<Rightarrow> 'a mgr_world_scheme \<Rightarrow> bool" where
  "server_ok e w \<longleftrightarrow>
     (m_isTransactionActive w \<or> mirrors e (w_disk w) (w_shared w)) \<and>
     state_wf (w_shared w) \<and> ss_last_tid (w_shared w) \<le> m_lastTid w"

lemma server_ok_idle:
  "server_ok e w \<Longrightarrow> m_isCoordinator w \<Longrightarrow> \<not> m_isTransactionActive w \<Longrightarrow> m_lastTid w < 2 ^ 31 - 1 \<Longrightarrow>
    coordinator_idle e w"
  by (auto simp: server_ok_def coordinator_idle_def dest: mirrorsD(1))

lemma doTransaction_overflow:
  "m_isCoordinator w \<Longrightarrow> \<not> m_isTransactionActive w \<Longrightarrow> 2 ^ 31 - 1 \<le> m_lastTid w \<Longrightarrow>
    doTransaction e k early late w = Undefined IntegerOverflow"
  by (simp add: doTransaction_def startTransaction_def setState_def initTransaction_def cpp_simps)

text \<open>However the votes arrive, an accepted transaction is committed, rolled back or stuck.\<close>

lemma doTransaction_outcomes:
  assumes "env_ok e" "coordinator_idle e w" "kind_ready e (fs_lookup (w_disk w)) k"
    and "txn_effect e (next_tid w) k (w_shared w) = Some s'"
  shows "(\<exists>c d t. doTransaction e k early late w = Returns True (result_world w k True c d t s') \<and>
      fs_wf d \<and> fs_lookup d = committed_view e k (next_tid w) (fs_lookup (w_disk w))) \<or>
    (\<exists>c t. doTransaction e k early late w = Returns False (result_world w k False c (w_disk w) t (w_shared w))) \<or>
    (\<exists>w'. doTransaction e k early late w = Blocks w')"
proof -
  let ?t = "prepared_txn k (next_tid w) s'"
  obtain d c0 where d: "startTransaction e k early w = Returns () (voting_world w k c0 d ?t)"
    "fs_wf d" "fs_lookup d = prepared_view e k (next_tid w) (fs_lookup (w_disk w))"
    using startTransaction_accepts [OF assms] by blast
  obtain r c where r: "decide (next_tid w) (int (length (getActiveServers w)) + 1) c0 late = (r, c)"
    by fastforce
  have run: "doTransaction e k early late w = (case r of
      None \<Rightarrow> Blocks (voting_world w k c d ?t) | Some res \<Rightarrow> endTransaction e res (voting_world w k c d ?t))"
    using doTransaction_voting [OF assms(2) _ d(1)] r by simp
  consider "r = None" | "r = Some True" | "r = Some False" by (metis (full_types) option.exhaust)
  then show ?thesis
    using run endTransaction_commits [OF assms(1-3) d(2,3), of c s'] endTransaction_rolls_back [OF assms(1-3) d(2,3), of c s']
    by cases (auto, blast)
qed

lemma result_world_more [simp]:
  "mgr_world.more (result_world w k res c d t s) = mgr_world.more w"
  "m_replicas (result_world w k res c d t s) = m_replicas w"
  by (simp_all add: result_world_def)

text \<open>What a caller may rely on when \<open>doTransaction\<close> returns.\<close>

definition served :: "env \<Rightarrow> txn_kind \<Rightarrow> 'a mgr_world_scheme \<Rightarrow> bool \<Rightarrow> 'a mgr_world_scheme \<Rightarrow> bool" where
  "served e k w b w' \<longleftrightarrow>
     (if b then txn_effect e (next_tid w) k (w_shared w) = Some (w_shared w') \<and>
        fs_lookup (w_disk w') = committed_view e k (next_tid w) (fs_lookup (w_disk w))
      else w_shared w' = w_shared w \<and> w_disk w' = w_disk w) \<and>
     m_lastTid w' \<in> {m_lastTid w, next_tid w} \<and> m_isCoordinator w' = m_isCoordinator w \<and>
     (m_isTransactionActive w' \<longrightarrow> m_isTransactionActive w) \<and>
     mgr_world.more w' = mgr_world.more w"

lemma doTransaction_returns:
  assumes "env_ok e" "server_ok e w" "proper (w_shared w) k"
    and "doTransaction e k early late w = Returns b w'"
  shows "server_ok e w' \<and> served e k w b w'"
proof (cases "\<not> m_isCoordinator w \<or> m_isTransactionActive w")
  case True
  with assms(2,4) doTransaction_not_now [of w e k early late] show ?thesis by (auto simp: served_def)
next
  case False
  then have now: "m_isCoordinator w" "\<not> m_isTransactionActive w" by auto
  have tid: "m_lastTid w < 2 ^ 31 - 1"
    using doTransaction_overflow [OF now] assms(4) by fastforce
  note idle = server_ok_idle [OF assms(2) now tid]
  have ok: "mirrors e (w_disk w) (w_shared w)" "state_wf (w_shared w)" "state_inv (w_shared w)"
    "ss_last_tid (w_shared w) \<le> m_lastTid w"
    using assms(2) now by (auto simp: server_ok_def)
  show ?thesis
  proof (cases "txn_effect e (next_tid w) k (w_shared w)")
    case (Some s')
    note ready = proper_ready [OF assms(1) ok(1,3) assms(3) Some]
    have "state_wf s'" "ss_last_tid s' = next_tid w"
      using txn_effect_wf [OF ok(2) _ Some] txn_effect_last_tid [OF Some] ok(4) by (simp_all add: next_tid_def)
    then show ?thesis
      using doTransaction_outcomes [OF assms(1) idle ready Some, of early late] assms(4) ok(1,2,4) Some now
        mirrors_commit [OF assms(1) ok(1,3) assms(3) Some]
      by (auto simp: server_ok_def served_def) (simp_all add: next_tid_def)
  next
    case None
    note absent = proper_temp_absent [OF assms(1) ok(1,3) assms(3)]
    have "refuses_cleanly k"
    proof (rule ccontr)
      assume "\<not> refuses_cleanly k"
      then have "doTransaction e k early late w = Undefined UseAfterFree"
        using assms(3) by (intro doTransaction_uses_deleted_state [OF assms(1) idle absent None])
          (auto simp: proper_def user_ok_def clean_name_def plain_name_def)
      with assms(4) show False by simp
    qed
    with doTransaction_refused [OF assms(1) idle absent None] assms(4) ok now show ?thesis
      by (auto simp: server_ok_def served_def) (simp_all add: next_tid_def)
  qed
qed

text \<open>It never ends in an exception.\<close>

lemma doTransaction_no_throw:
  assumes "env_ok e" "server_ok e w" "proper (w_shared w) k"
  shows "doTransaction e k early late w \<noteq> Throws w'"
proof (cases "\<not> m_isCoordinator w \<or> m_isTransactionActive w")
  case True
  then show ?thesis using doTransaction_not_now [of w e k early late] by auto
next
  case False
  then have now: "m_isCoordinator w" "\<not> m_isTransactionActive w" by auto
  show ?thesis
  proof (cases "m_lastTid w < 2 ^ 31 - 1")
    case False
    with doTransaction_overflow [OF now] show ?thesis by simp
  next
    case True
    note idle = server_ok_idle [OF assms(2) now True]
    have ok: "mirrors e (w_disk w) (w_shared w)" "state_inv (w_shared w)"
      using assms(2) now by (auto simp: server_ok_def)
    note absent = proper_temp_absent [OF assms(1) ok assms(3)]
    show ?thesis
    proof (cases "txn_effect e (next_tid w) k (w_shared w)")
      case (Some s')
      with doTransaction_outcomes [OF assms(1) idle proper_ready [OF assms(1) ok assms(3) Some] Some] show ?thesis
        by (metis outcome.distinct(1,7))
    next
      case None
      have "\<And>u p. k = CreateUserTransaction u p \<Longrightarrow> u \<noteq> []"
        using assms(3) by (auto simp: proper_def user_ok_def clean_name_def plain_name_def)
      with doTransaction_refused [OF assms(1) idle absent None] 
        doTransaction_uses_deleted_state [OF assms(1) idle absent None] show ?thesis
        by (cases "refuses_cleanly k") simp_all
    qed
  qed
qed

end
