(* ===== verification/Service_Handler.thy ===== *)
theory Service_Handler
  imports Manager_Invariant
begin

text \<open>
  \<open>src/server/service/ServiceRequestHandler.cpp\<close>: the requests of the clients
  (\<open>proto/message.proto\<close>: \<open>Request\<close>, \<open>Response\<close>) and one handler per kind of request.
  A handler runs on the world of its server extended with its socket: the requests that
  will arrive, the outcome of each \<open>send\<close>, the responses that were sent.  It reaches the
  transaction manager through the argument \<open>do_txn\<close>; \<open>serveTransaction\<close> is the manager of
  the model, with the votes that arrive during each transaction taken from the world.
\<close>

section \<open>Requests and responses\<close>

datatype request_type =
    PING | SUBSCRIBE | DOWNLOAD | UPLOAD | LIST | LOGIN | LOGOUT | FILE_UPDATE | FILE_DATA | FRONTEND_SUBSCRIBE

record file_update =
  fu_filename :: string
  fu_deleted :: bool
  fu_hash :: string

text \<open>A field that is not set reads as the default of its type.\<close>

record request =
  r_type :: request_type
  r_username :: string
  r_password :: string
  r_filename :: string
  r_file_update :: file_update
  r_data_file :: file_update
  r_data :: string
  r_hostname :: string
  r_port :: int

definition empty_file_update :: file_update where
  "empty_file_update = \<lparr>fu_filename = [], fu_deleted = False, fu_hash = []\<rparr>"

definition new_request :: "request_type \<Rightarrow> request" where
  "new_request t =
     \<lparr>r_type = t, r_username = [], r_password = [], r_filename = [], r_file_update = empty_file_update,
      r_data_file = empty_file_update, r_data = [], r_hostname = [], r_port = 0\<rparr>"

datatype response =
    LOGIN_OK "int option"
  | ERROR string
  | UPDATED file_update
  | FILE_LIST "(string \<times> string) list"
  | PONG
  | FILE_UPDATED
  | FILE_DATA_R string string string
  | SEND_FILE_DATA

section \<open>The socket of a handler\<close>

text \<open>
  What \<open>receiveRequest\<close> finds: nothing it can use, a header without the magic string
  (the connection is closed then), or a request.
\<close>

datatype incoming = Failed | BadHeader | Incoming header request

record handler_world = mgr_world +
  h_in :: "incoming list"
  h_sends :: "bool list"
  h_out :: "response list"
  h_open :: bool
  h_rands :: "int list"
  h_votes :: "((bool \<times> int) list \<times> (bool \<times> int) list) list"

definition endConnection :: "('a handler_world_scheme, unit) cpp" where
  "endConnection = modifyC (\<lambda>w. w\<lparr>h_open := False\<rparr>)"

text \<open>\<open>sendMessage\<close>: an exhausted list of outcomes stands for sends that succeed.\<close>

definition sendMessage :: "response \<Rightarrow> ('a handler_world_scheme, bool) cpp" where
  "sendMessage r w =
     (if \<not> h_open w then Returns False w
      else (case h_sends w of
              [] \<Rightarrow> Returns True (w\<lparr>h_out := h_out w @ [r]\<rparr>)
            | True # rest \<Rightarrow> Returns True (w\<lparr>h_sends := rest, h_out := h_out w @ [r]\<rparr>)
            | False # rest \<Rightarrow> Returns False (w\<lparr>h_sends := rest\<rparr>)))"

definition receiveRequest :: "('a handler_world_scheme, (header \<times> request) option) cpp" where
  "receiveRequest w =
     (if \<not> h_open w then Returns None w
      else (case h_in w of
              [] \<Rightarrow> Blocks w
            | Failed # rest \<Rightarrow> Returns None (w\<lparr>h_in := rest\<rparr>)
            | BadHeader # rest \<Rightarrow> Returns None (w\<lparr>h_in := rest, h_open := False\<rparr>)
            | Incoming h r # rest \<Rightarrow> Returns (Some (h, r)) (w\<lparr>h_in := rest\<rparr>)))"

definition respond :: "response \<Rightarrow> ('a handler_world_scheme, unit) cpp" where
  "respond r = seqC (sendMessage r) endConnection"

definition serveTransaction :: "env \<Rightarrow> txn_kind \<Rightarrow> ('a handler_world_scheme, bool) cpp" where
  "serveTransaction e k =
     bindC (getC h_votes) (\<lambda>votes.
       case votes of
         [] \<Rightarrow> doTransaction e k [] []
       | (early, late) # rest \<Rightarrow> seqC (modifyC (\<lambda>w. w\<lparr>h_votes := rest\<rparr>)) (doTransaction e k early late))"

definition header_session :: "header \<Rightarrow> int" where
  "header_session h = sint (hdr_session_id h)"

section \<open>Login\<close>

text \<open>\<open>while (state.isSessionValid(session_id = rand()));\<close>\<close>

fun pickSession :: "server_state \<Rightarrow> int list \<Rightarrow> (int \<times> int list) option" where
  "pickSession s [] = None"
| "pickSession s (i # rest) = (if isSessionValid s i then pickSession s rest else Some (i, rest))"

definition newSessionId :: "('a handler_world_scheme, int) cpp" where
  "newSessionId w =
     (case pickSession (w_shared w) (h_rands w) of
        None \<Rightarrow> Blocks w
      | Some (i, rest) \<Rightarrow> Returns i (w\<lparr>h_rands := rest\<rparr>))"

definition startSession ::
  "(txn_kind \<Rightarrow> ('a handler_world_scheme, bool) cpp) \<Rightarrow> string \<Rightarrow> ('a handler_world_scheme, unit) cpp" where
  "startSession do_txn username =
     bindC (getC (\<lambda>w. 2 \<le> length (getUserSessions (w_shared w) username))) (\<lambda>many.
       if many then respond (ERROR ''Too many sessions'')
       else bindC newSessionId (\<lambda>session_id.
         bindC (do_txn (CreateSessionTransaction session_id username)) (\<lambda>ok.
           if \<not> ok then respond (ERROR ''Error creating session'')
           else seqC (sendMessage (LOGIN_OK (Some session_id))) (retC ()))))"

definition handleLogin ::
  "(txn_kind \<Rightarrow> ('a handler_world_scheme, bool) cpp) \<Rightarrow> request \<Rightarrow> int \<Rightarrow> ('a handler_world_scheme, unit) cpp" where
  "handleLogin do_txn r session_id =
     (let username = r_username r; password = r_password r in
      if username = [] \<or> password = [] then respond (ERROR ''Username or password empty'')
      else if session_id > 0 then respond (ERROR ''Already logged in'')
      else bindC (getC (\<lambda>w. hasUser (w_shared w) username)) (\<lambda>known.
        bindC (if known then retC True else do_txn (CreateUserTransaction username password)) (\<lambda>ok.
          if \<not> ok then respond (ERROR ''Error creating user'')
          else bindC (getC (\<lambda>w. checkPassword (w_shared w) username password)) (\<lambda>correct.
            if \<not> correct then respond (ERROR ''Wrong password'')
            else startSession do_txn username))))"

section \<open>Subscription\<close>

definition update_of :: "user_file \<Rightarrow> file_update" where
  "update_of f = \<lparr>fu_filename = uf_filename f, fu_deleted = uf_deleted f, fu_hash = uf_hash f\<rparr>"

fun sendUpdates :: "user_file list \<Rightarrow> ('a handler_world_scheme, bool) cpp" where
  "sendUpdates [] = retC True"
| "sendUpdates (f # files) =
     bindC (sendMessage (UPDATED (update_of f))) (\<lambda>ok. if ok then sendUpdates files else retC False)"

text \<open>
  One pass of the loop in the current state; the result is the tid to wait beyond, or
  \<open>None\<close> when the handler returns.
\<close>

definition subscribeTurn :: "string \<Rightarrow> int \<Rightarrow> int \<Rightarrow> ('a handler_world_scheme, int option) cpp" where
  "subscribeTurn user session_id tid =
     bindC (getC w_shared) (\<lambda>s.
       if \<not> getLastTid s > tid then retC (Some tid)
       else if \<not> isSessionValid s session_id then seqC endConnection (retC None)
       else bindC (sendUpdates (getUserFilesSince s user tid)) (\<lambda>ok.
         retC (if ok then Some (getLastTid s) else None)))"

text \<open>
  The loop; \<open>updates\<close> are the states that the transactions of other threads publish while
  the handler waits.
\<close>

fun subscribeLoop :: "string \<Rightarrow> int \<Rightarrow> int \<Rightarrow> server_state list \<Rightarrow> ('a handler_world_scheme, unit) cpp" where
  "subscribeLoop user session_id tid updates =
     bindC (subscribeTurn user session_id tid) (\<lambda>next.
       case next of
         None \<Rightarrow> retC ()
       | Some tid' \<Rightarrow>
           (case updates of
              [] \<Rightarrow> blockC
            | s # rest \<Rightarrow>
                seqC (modifyC (\<lambda>w. w\<lparr>w_shared := s\<rparr>)) (subscribeLoop user session_id tid' rest)))"

declare subscribeLoop.simps [simp del]

definition handleSubscribe ::
  "string \<Rightarrow> int \<Rightarrow> server_state list \<Rightarrow> ('a handler_world_scheme, unit) cpp" where
  "handleSubscribe user session_id updates =
     bindC (getC (\<lambda>w. getLastTid (w_shared w))) (\<lambda>tid. subscribeLoop user session_id tid updates)"

section \<open>Files\<close>

text \<open>A directory opens, and reading it throws.\<close>

definition handleDownload :: "env \<Rightarrow> request \<Rightarrow> string \<Rightarrow> ('a handler_world_scheme, unit) cpp" where
  "handleDownload e r user =
     bindC (getC (\<lambda>w. w)) (\<lambda>w.
       if \<not> hasFile (w_shared w) user (r_filename r) then respond (ERROR ''File not found'')
       else (case fs_lookup (w_disk w) (resolve (getFilePath e user (r_filename r))) of
               None \<Rightarrow> respond (ERROR ''Error opening file'')
             | Some Dir \<Rightarrow> throwC
             | Some (File c) \<Rightarrow>
                 respond (FILE_DATA_R (r_filename r) (getFileHash (w_shared w) user (r_filename r)) c)))"

definition handleList :: "string \<Rightarrow> ('a handler_world_scheme, unit) cpp" where
  "handleList user =
     bindC (getC (\<lambda>w. getUserFiles (w_shared w) user)) (\<lambda>files.
       bindC (sendMessage (FILE_LIST (map (\<lambda>f. (uf_filename f, uf_hash f)) files))) (\<lambda>ok.
         if \<not> ok then retC () else endConnection))"

definition handleLogout ::
  "(txn_kind \<Rightarrow> ('a handler_world_scheme, bool) cpp) \<Rightarrow> int \<Rightarrow> ('a handler_world_scheme, unit) cpp" where
  "handleLogout do_txn session_id =
     bindC (do_txn (RemoveSessionTransaction (to_int32 session_id))) (\<lambda>ok.
       if \<not> ok then respond (ERROR ''Error removing session'') else respond (LOGIN_OK None))"

definition handleUpload ::
  "(txn_kind \<Rightarrow> ('a handler_world_scheme, bool) cpp) \<Rightarrow> request \<Rightarrow> string \<Rightarrow> ('a handler_world_scheme, unit) cpp" where
  "handleUpload do_txn r user =
     bindC (do_txn (FileChangeTransaction user (fu_filename (r_data_file r)) False (r_data r))) (\<lambda>ok.
       if \<not> ok then respond (ERROR ''Error updating file'') else respond FILE_UPDATED)"

definition handleFileUpdate ::
  "(txn_kind \<Rightarrow> ('a handler_world_scheme, bool) cpp) \<Rightarrow> request \<Rightarrow> string \<Rightarrow> ('a handler_world_scheme, unit) cpp" where
  "handleFileUpdate do_txn r user =
     (let filename = fu_filename (r_file_update r); hash = fu_hash (r_file_update r) in
      if fu_deleted (r_file_update r) then
        bindC (do_txn (FileChangeTransaction user filename True [CHR 0x00])) (\<lambda>ok.
          if \<not> ok then respond (ERROR ''Error deleting file'') else respond FILE_UPDATED)
      else
        bindC (getC w_shared) (\<lambda>s.
          if hasFile s user filename \<and> getFileHash s user filename = hash then respond FILE_UPDATED
          else seqC (sendMessage SEND_FILE_DATA)
            (bindC receiveRequest (\<lambda>msg.
              case msg of
                None \<Rightarrow> respond (ERROR ''Error receiving request'')
              | Some (h, r2) \<Rightarrow>
                  if r_type r2 \<noteq> FILE_DATA then respond (ERROR ''Invalid request type'')
                  else handleUpload do_txn r2 user))))"

section \<open>handleRequest\<close>

definition handleFrontend ::
  "(txn_kind \<Rightarrow> ('a handler_world_scheme, bool) cpp) \<Rightarrow> request \<Rightarrow> ('a handler_world_scheme, unit) cpp" where
  "handleFrontend do_txn r =
     bindC (do_txn (NewFrontendTransaction (r_hostname r) (r_port r))) (\<lambda>ok.
       if \<not> ok then respond (ERROR ''Error creating frontend'') else respond (LOGIN_OK None))"

definition handleSession ::
  "env \<Rightarrow> (txn_kind \<Rightarrow> ('a handler_world_scheme, bool) cpp) \<Rightarrow> request \<Rightarrow> string \<Rightarrow> int \<Rightarrow> server_state list \<Rightarrow>
    ('a handler_world_scheme, unit) cpp" where
  "handleSession e do_txn r user session_id updates =
     (case r_type r of
        SUBSCRIBE \<Rightarrow> handleSubscribe user session_id updates
      | DOWNLOAD \<Rightarrow> handleDownload e r user
      | LIST \<Rightarrow> handleList user
      | LOGOUT \<Rightarrow> handleLogout do_txn session_id
      | FILE_UPDATE \<Rightarrow> handleFileUpdate do_txn r user
      | UPLOAD \<Rightarrow> handleUpload do_txn r user
      | _ \<Rightarrow> respond (ERROR ''Unknown request type''))"

definition handleRequest ::
  "env \<Rightarrow> (txn_kind \<Rightarrow> ('a handler_world_scheme, bool) cpp) \<Rightarrow> server_state list \<Rightarrow>
    ('a handler_world_scheme, unit) cpp" where
  "handleRequest e do_txn updates =
     bindC receiveRequest (\<lambda>msg.
       case msg of
         None \<Rightarrow> respond (ERROR ''Error receiving request'')
       | Some (h, r) \<Rightarrow>
           if r_type r = LOGIN then handleLogin do_txn r (header_session h)
           else if r_type r = PING then respond PONG
           else if r_type r = FRONTEND_SUBSCRIBE then handleFrontend do_txn r
           else bindC (getC w_shared) (\<lambda>s.
             if \<not> isSessionValid s (header_session h) then respond (ERROR ''Invalid session'')
             else handleSession e do_txn r (getUserFromSesssion s (header_session h)) (header_session h) updates))"

end
