(* ===== verification/Client.thy ===== *)
theory Client
  imports Service_Handler
begin

text \<open>
  \<open>src/client/mainClient.cpp\<close>, \<open>ClientConnection.{h,cpp}\<close> and \<open>ClientRequestHandler.cpp\<close>:
  the commands of the user, the watcher of the synchronised directory and the thread that
  follows the updates of the server.  Every command opens a connection of its own, a copy of
  \<open>mainConn\<close>; the requests that the client sends, with the session id of their header, are
  a log, and what \<open>receiveResponse\<close> returns to the commands is a list (\<open>None\<close>: no usable
  answer).  What the commands print is not modelled.
\<close>

record client_world =
  c_disk :: disk
  c_syncDirPath :: string
  c_session :: int
  c_connected :: bool
  c_hostname :: string
  c_port :: int
  c_mute :: bool
  c_mute_reads :: "bool list"
  c_notExit :: bool
  c_sent :: "(int \<times> request) list"
  c_replies :: "response option list"

section \<open>Requests\<close>

definition sendRequest :: "int \<Rightarrow> request \<Rightarrow> ('a client_world_scheme, unit) cpp" where
  "sendRequest session r = modifyC (\<lambda>w. w\<lparr>c_sent := c_sent w @ [(session, r)]\<rparr>)"

definition receiveResponse :: "('a client_world_scheme, response option) cpp" where
  "receiveResponse w =
     (case c_replies w of
        [] \<Rightarrow> Blocks w
      | r # rest \<Rightarrow> Returns r (w\<lparr>c_replies := rest\<rparr>))"

text \<open>A connection that copies \<open>mainConn\<close> carries its session id.\<close>

definition request_response :: "request \<Rightarrow> ('a client_world_scheme, response option) cpp" where
  "request_response r =
     bindC (getC c_session) (\<lambda>session. seqC (sendRequest session r) receiveResponse)"

definition is_error :: "response \<Rightarrow> bool" where
  "is_error r = (case r of ERROR m \<Rightarrow> True | _ \<Rightarrow> False)"

section \<open>Login\<close>

text \<open>
  \<open>loginConn\<close> is a \<open>Connection\<close>, whose session id is \<open>0\<close>.  A \<open>LOGIN_OK\<close> without a
  session id gives the default \<open>0\<close>.
\<close>

definition doLogin :: "string \<Rightarrow> string \<Rightarrow> ('a client_world_scheme, int) cpp" where
  "doLogin username password =
     seqC (modifyC (\<lambda>w. w\<lparr>c_session := -1\<rparr>))
    (bindC (getC c_connected) (\<lambda>connected.
       if \<not> connected then retC (-1)
       else
         seqC (sendRequest 0 ((new_request LOGIN)\<lparr>r_username := username, r_password := password\<rparr>))
        (bindC receiveResponse (\<lambda>resp.
           case resp of
             Some (LOGIN_OK i) \<Rightarrow>
               seqC (modifyC (\<lambda>w. w\<lparr>c_session := (case i of None \<Rightarrow> 0 | Some i \<Rightarrow> i)\<rparr>)) (retC 0)
           | _ \<Rightarrow> retC (-1)))))"

definition isLogged :: "'a client_world_scheme \<Rightarrow> bool" where
  "isLogged w \<longleftrightarrow> c_session w \<noteq> -1"

text \<open>\<open>ClientConnection(ConnectionArgs)\<close>, after the connection was tried.\<close>

definition ClientConnection ::
  "string \<Rightarrow> int \<Rightarrow> string \<Rightarrow> string \<Rightarrow> int \<Rightarrow> ('a client_world_scheme, unit) cpp" where
  "ClientConnection hostname port username password session =
     seqC (modifyC (\<lambda>w. w\<lparr>c_hostname := hostname, c_port := port\<rparr>))
       (if session = -1 then
          bindC (doLogin username password) (\<lambda>rv.
            modifyC (\<lambda>w. if rv = -1 \<or> c_session w = -1 then w\<lparr>c_connected := False\<rparr> else w))
        else modifyC (\<lambda>w. w\<lparr>c_session := session\<rparr>))"

text \<open>\<open>changeIP\<close>; \<open>connected\<close> tells whether the new server accepts the connection.\<close>

definition changeIP :: "string \<Rightarrow> int \<Rightarrow> string \<Rightarrow> string \<Rightarrow> bool \<Rightarrow> ('a client_world_scheme, unit) cpp" where
  "changeIP hostname port username password connected =
     bindC (getC c_session) (\<lambda>session.
       seqC (modifyC (\<lambda>w. w\<lparr>c_connected := connected\<rparr>)) (ClientConnection hostname port username password session))"

section \<open>Commands\<close>

definition sendLogout :: "('a client_world_scheme, unit) cpp" where
  "sendLogout = seqC (request_response (new_request LOGOUT)) (retC ())"

definition deleteFile :: "string \<Rightarrow> ('a client_world_scheme, unit) cpp" where
  "deleteFile path =
     seqC (request_response ((new_request FILE_UPDATE)
       \<lparr>r_file_update := \<lparr>fu_filename = path, fu_deleted = True, fu_hash = []\<rparr>\<rparr>)) (retC ())"

definition hash_of :: "env \<Rightarrow> disk \<Rightarrow> path \<Rightarrow> string" where
  "hash_of e d p = digest_to_string (getFileDigest (env_xxh64 e) d p)"

text \<open>Opening a directory for reading works, and reading it throws.\<close>

definition read_all :: "path \<Rightarrow> ('a client_world_scheme, string) cpp" where
  "read_all p w = (if fs_lookup (c_disk w) p = Some Dir then Throws w else Returns (fs_read (c_disk w) p) w)"

definition upload :: "env \<Rightarrow> string \<Rightarrow> ('a client_world_scheme, unit) cpp" where
  "upload e path =
     bindC (getC c_disk) (\<lambda>d.
       if \<not> fs_exists d (resolve path) then retC ()
       else bindC (read_all (resolve path)) (\<lambda>c.
         seqC (request_response ((new_request UPLOAD)
           \<lparr>r_data := c,
            r_data_file := \<lparr>fu_filename = path, fu_deleted = False, fu_hash = hash_of e d (resolve path)\<rparr>\<rparr>)) (retC ())))"

text \<open>\<open>open(path, out | trunc)\<close> fails exactly when \<open>fs_write\<close> has no effect.\<close>

definition can_write :: "disk \<Rightarrow> path \<Rightarrow> bool" where
  "can_write d p \<longleftrightarrow> p \<noteq> [] \<and> fs_is_directory d (butlast p) \<and> fs_lookup d p \<noteq> Some Dir"

definition store :: "path \<Rightarrow> string \<Rightarrow> ('a client_world_scheme, unit) cpp" where
  "store p c = modifyC (\<lambda>w. if can_write (c_disk w) p then w\<lparr>c_disk := fs_write p c (c_disk w)\<rparr> else w)"

definition download :: "string \<Rightarrow> ('a client_world_scheme, unit) cpp" where
  "download path =
     bindC (request_response ((new_request DOWNLOAD)\<lparr>r_filename := path\<rparr>)) (\<lambda>resp.
       case resp of
         Some (FILE_DATA_R n h c) \<Rightarrow> store (resolve path) c
       | _ \<Rightarrow> retC ())"

text \<open>\<open>ping\<close> copies \<open>mainConn\<close> into a \<open>Connection\<close>.\<close>

definition ping :: "('a client_world_scheme, unit) cpp" where
  "ping = seqC (sendRequest 0 (new_request PING)) (seqC receiveResponse (retC ()))"

definition listServer :: "('a client_world_scheme, unit) cpp" where
  "listServer = seqC (request_response (new_request LIST)) (retC ())"

definition listClient :: "('a client_world_scheme, string list) cpp" where
  "listClient w =
     (if fs_is_directory (c_disk w) (resolve (c_syncDirPath w))
      then Returns (fs_children (c_disk w) (resolve (c_syncDirPath w))) w else Throws w)"

definition getSyncDir :: "('a client_world_scheme, unit) cpp" where
  "getSyncDir w =
     (if fs_is_directory (c_disk w) (resolve (c_syncDirPath w)) then Returns () w
      else (case fs_create_directory (resolve (c_syncDirPath w)) (c_disk w) of
              None \<Rightarrow> Throws w
            | Some d \<Rightarrow> Returns () (w\<lparr>c_disk := d\<rparr>)))"

text \<open>The result is the new value of \<open>notExit\<close>: \<open>1\<close> (\<open>CONTINUE\<close>) or \<open>0\<close>.\<close>

definition terminal_Interaction :: "env \<Rightarrow> string \<Rightarrow> string \<Rightarrow> ('a client_world_scheme, int) cpp" where
  "terminal_Interaction e command arg =
     (if command = ''help'' then retC 1
      else if command = ''get_sync_dir'' then seqC getSyncDir (retC 1)
      else if command = ''list_client'' then seqC listClient (retC 1)
      else if command = ''list_server'' then seqC listServer (retC 1)
      else if command = ''exit'' then seqC sendLogout (retC 0)
      else if command = ''download'' then seqC (download arg) (retC 1)
      else if command = ''upload'' then seqC (upload e arg) (retC 1)
      else if command = ''delete'' then seqC (deleteFile arg) (retC 1)
      else if command = ''ping'' then seqC ping (retC 1)
      else retC 1)"

section \<open>The watcher of the directory\<close>

text \<open>The events of inotify that carry a name; an event without a name is skipped.\<close>

datatype notice = CloseWrite string | Delete string | Other string | Unnamed

text \<open>
  While \<open>muteUpdate\<close> is set, \<open>continue\<close> reads the same event again.  \<open>c_mute_reads\<close> are the
  values that the reads give while the other thread runs; afterwards the flag keeps its
  value, and a flag that stays set never lets the loop go on.
\<close>

definition waitUnmuted :: "('a client_world_scheme, unit) cpp" where
  "waitUnmuted w =
     (case dropWhile (\<lambda>b. b) (c_mute_reads w) of
        [] \<Rightarrow> if c_mute w then Blocks (w\<lparr>c_mute_reads := []\<rparr>) else Returns () (w\<lparr>c_mute_reads := []\<rparr>)
      | b # rest \<Rightarrow> Returns () (w\<lparr>c_mute_reads := rest\<rparr>))"

definition sync_path :: "'a client_world_scheme \<Rightarrow> string \<Rightarrow> path" where
  "sync_path w filename = resolve (c_syncDirPath w @ ''/'' @ filename)"

definition file_data_request :: "string \<Rightarrow> string \<Rightarrow> string \<Rightarrow> request" where
  "file_data_request filename hash c =
     (new_request FILE_DATA)\<lparr>r_data := c, r_data_file := \<lparr>fu_filename = filename, fu_deleted = False, fu_hash = hash\<rparr>\<rparr>"

text \<open>
  The exchange for a changed file; the second request goes over the same connection.  The
  result tells whether the loop goes on with the next event.  A file that is gone by then
  gives no data.
\<close>

definition announceChange :: "env \<Rightarrow> string \<Rightarrow> ('a client_world_scheme, bool) cpp" where
  "announceChange e filename =
     bindC (getC (\<lambda>w. hash_of e (c_disk w) (sync_path w filename))) (\<lambda>newHash.
       bindC (request_response ((new_request FILE_UPDATE)
           \<lparr>r_file_update := \<lparr>fu_filename = filename, fu_deleted = False, fu_hash = newHash\<rparr>\<rparr>)) (\<lambda>resp.
         case resp of
           None \<Rightarrow> retC False
         | Some (ERROR m) \<Rightarrow> retC False
         | Some FILE_UPDATED \<Rightarrow> retC False
         | Some SEND_FILE_DATA \<Rightarrow>
             bindC (bindC (getC (\<lambda>w. sync_path w filename)) read_all) (\<lambda>c.
               bindC (request_response (file_data_request filename newHash c)) (\<lambda>resp2.
                 case resp2 of
                   None \<Rightarrow> retC False
                 | Some (ERROR m) \<Rightarrow> retC False
                 | Some r \<Rightarrow> retC True))
         | Some r \<Rightarrow> retC True))"

fun verifica_modificacao :: "env \<Rightarrow> notice list \<Rightarrow> ('a client_world_scheme, unit) cpp" where
  "verifica_modificacao e [] = retC ()"
| "verifica_modificacao e (ev # rest) =
     (case ev of
        CloseWrite filename \<Rightarrow>
          seqC waitUnmuted
            (bindC (announceChange e filename) (\<lambda>go. if go then verifica_modificacao e rest else retC ()))
      | Delete filename \<Rightarrow> seqC (deleteFile filename) (verifica_modificacao e rest)
      | Other filename \<Rightarrow> verifica_modificacao e rest
      | Unnamed \<Rightarrow> verifica_modificacao e rest)"

text \<open>
  \<open>thread_monitoramento\<close>: the directory is created when it is missing, then every read of the
  inotify descriptor gives a batch of events.
\<close>

fun watchLoop :: "env \<Rightarrow> notice list list \<Rightarrow> ('a client_world_scheme, unit) cpp" where
  "watchLoop e batches =
     bindC (getC c_notExit) (\<lambda>go.
       if \<not> go then retC ()
       else (case batches of
               [] \<Rightarrow> blockC
             | b # rest \<Rightarrow> seqC (verifica_modificacao e b) (watchLoop e rest)))"

declare watchLoop.simps [simp del]

text \<open>
  \<open>adiciona_watcher\<close> only prints that it failed; every read of the loop then fails, and
  gives no event.
\<close>

definition thread_monitoramento :: "env \<Rightarrow> bool \<Rightarrow> notice list list \<Rightarrow> ('a client_world_scheme, unit) cpp" where
  "thread_monitoramento e watched batches =
     seqC getSyncDir (watchLoop e (if watched then batches else map (\<lambda>_. []) batches))"

section \<open>The updates of the server\<close>

definition set_mute :: "bool \<Rightarrow> ('a client_world_scheme, unit) cpp" where
  "set_mute b = modifyC (\<lambda>w. w\<lparr>c_mute := b\<rparr>)"

text \<open>One message of the subscription.\<close>

definition applyUpdate :: "env \<Rightarrow> file_update \<Rightarrow> ('a client_world_scheme, unit) cpp" where
  "applyUpdate e u =
     bindC (getC (\<lambda>w. sync_path w (fu_filename u))) (\<lambda>path.
       seqC (set_mute True)
      (seqC
         (if fu_deleted u then
            modifyC (\<lambda>w. case fs_remove path (c_disk w) of None \<Rightarrow> w | Some d \<Rightarrow> w\<lparr>c_disk := d\<rparr>)
          else
            bindC (getC (\<lambda>w. hash_of e (c_disk w) path)) (\<lambda>hash.
              if hash = fu_hash u then retC ()
              else
                bindC (request_response ((new_request DOWNLOAD)\<lparr>r_filename := fu_filename u\<rparr>)) (\<lambda>resp.
                  case resp of
                    Some (FILE_DATA_R n h c) \<Rightarrow> store path c
                  | _ \<Rightarrow> retC ())))
       (set_mute False)))"

text \<open>
  \<open>thread_updates\<close> on what its own connection receives: the loop ends when the connection is
  lost; a header without the magic string and messages of other types are skipped.
\<close>

datatype pushed = Lost | Garbled | Pushed response

fun followUpdates :: "env \<Rightarrow> pushed list \<Rightarrow> ('a client_world_scheme, unit) cpp" where
  "followUpdates e messages =
     bindC (getC c_notExit) (\<lambda>go.
       if \<not> go then retC ()
       else (case messages of
               [] \<Rightarrow> blockC
             | Lost # rest \<Rightarrow> retC ()
             | Garbled # rest \<Rightarrow> followUpdates e rest
             | Pushed (UPDATED u) # rest \<Rightarrow> seqC (applyUpdate e u) (followUpdates e rest)
             | Pushed r # rest \<Rightarrow> followUpdates e rest))"

declare followUpdates.simps [simp del]

definition thread_updates :: "env \<Rightarrow> pushed list \<Rightarrow> ('a client_world_scheme, unit) cpp" where
  "thread_updates e messages =
     bindC (getC c_session) (\<lambda>session.
       seqC (sendRequest session (new_request SUBSCRIBE))
         (bindC (getC c_connected) (\<lambda>connected. if connected then followUpdates e messages else retC ())))"

section \<open>A new coordinator\<close>

text \<open>\<open>ClientRequestHandler::handleRequest\<close>: \<open>None\<close> is a request that was not received.\<close>

definition handleCoordinator ::
  "(string \<times> int) option \<Rightarrow> string \<Rightarrow> string \<Rightarrow> bool \<Rightarrow> ('a client_world_scheme, unit) cpp" where
  "handleCoordinator info username password connected =
     (case info of None \<Rightarrow> retC () | Some (h, p) \<Rightarrow> changeIP h p username password connected)"

end
