(* ===== verification/Service_Correct.thy ===== *)
theory Service_Correct
  imports Service_Handler
begin

text \<open>
  The request handlers against the contract of the transaction service: the locale
  \<open>transaction_service\<close> states what a handler may rely on, the handlers are verified inside
  it, and the interpretation \<open>tm\<close> discharges it for the manager of the model, whatever
  votes arrive.
\<close>

section \<open>Executing the socket\<close>

definition can_send :: "'a handler_world_scheme \<Rightarrow> bool" where
  "can_send w \<longleftrightarrow> h_open w \<and> (h_sends w = [] \<or> hd (h_sends w))"

definition reply_of :: "'a handler_world_scheme \<Rightarrow> response \<Rightarrow> response list" where
  "reply_of w r = (if can_send w then [r] else [])"

definition sends_after :: "'a handler_world_scheme \<Rightarrow> bool list" where
  "sends_after w = (if h_open w then tl (h_sends w) else h_sends w)"

lemma sendMessage_simp [cpp_simps]:
  "sendMessage r w = Returns (can_send w) (w\<lparr>h_sends := sends_after w, h_out := h_out w @ reply_of w r\<rparr>)"
proof (cases w)
  case (fields d s t a1 a2 a3 a4 a5 a6 a7 a8 a9 a10 a11 i sends out op rands votes more)
  then show ?thesis
    by (cases sends) (auto simp: sendMessage_def can_send_def reply_of_def sends_after_def split: bool.splits)
qed

lemma endConnection_simp [cpp_simps]: "endConnection w = Returns () (w\<lparr>h_open := False\<rparr>)"
  by (simp add: endConnection_def cpp_simps)

lemma respond_simp [cpp_simps]:
  "respond r w = Returns () (w\<lparr>h_sends := sends_after w, h_out := h_out w @ reply_of w r, h_open := False\<rparr>)"
  by (simp add: respond_def cpp_simps)

text \<open>The part of the world that belongs to the socket.\<close>

definition socket :: "'a handler_world_scheme \<Rightarrow> incoming list \<times> bool list \<times> response list \<times> bool \<times> int list" where
  "socket w = (h_in w, h_sends w, h_out w, h_open w, h_rands w)"

lemma socket_replies: "socket v = socket w \<Longrightarrow> reply_of v r = reply_of w r \<and> sends_after v = sends_after w \<and>
    h_out v = h_out w \<and> h_in v = h_in w \<and> h_open v = h_open w \<and> h_rands v = h_rands w \<and> can_send v = can_send w"
  by (simp add: socket_def reply_of_def sends_after_def can_send_def)

section \<open>Sessions of a user\<close>

lemma length_getUserSessions:
  assumes "state_inv s"
  shows "length (getUserSessions s u) = card {i. sm_find (logged_user_sessions s) i = Some u}"
proof -
  note inv = state_invD(2) [OF assms]
  have "distinct (getUserSessions s u)"
    unfolding getUserSessions_def by (rule sm.filtered_keys(2) [OF inv])
  moreover have "set (getUserSessions s u) = {i. sm_find (logged_user_sessions s) i = Some u}"
    using getUserSessions_iff [OF assms] by blast
  ultimately show ?thesis by (metis distinct_card)
qed

lemma getUserSessions_finite:
  "state_inv s \<Longrightarrow> finite {i. sm_find (logged_user_sessions s) i = Some u}"
  using getUserSessions_iff [of s _ u] finite_set [of "getUserSessions s u"] by (simp add: set_eq_iff Collect_mem_eq [symmetric])
    (metis (mono_tags, lifting) Collect_cong Collect_mem_eq finite_set)

lemma getUserSessions_addSession:
  assumes "state_inv s" "\<not> isSessionValid s i"
  shows "length (getUserSessions (addSession i u s) v) = (if v = u then 1 else 0) + length (getUserSessions s v)"
proof -
  have fresh: "sm_find (logged_user_sessions s) (to_int32 i) = None"
    using assms(2) by (simp add: isSessionValid_iff)
  have "{j. sm_find (logged_user_sessions (addSession i u s)) j = Some v} =
      (if v = u then insert (to_int32 i) {j. sm_find (logged_user_sessions s) j = Some v}
       else {j. sm_find (logged_user_sessions s) j = Some v})"
    using assms(1) fresh by (auto simp: addSession_def state_invD)
  with assms(1) fresh show ?thesis
    by (simp add: length_getUserSessions getUserSessions_finite)
qed

lemma sessions_frame:
  "logged_user_sessions (setUserLastTid v t s) = logged_user_sessions s"
  "logged_user_sessions (setLastTid t s) = logged_user_sessions s"
  by (simp_all add: setUserLastTid_def setLastTid_def)

lemma getUserSessions_frame:
  "logged_user_sessions t = logged_user_sessions s \<Longrightarrow> getUserSessions t u = getUserSessions s u"
  "logged_user_sessions t = logged_user_sessions s \<Longrightarrow> isSessionValid t i = isSessionValid s i"
  "logged_user_sessions t = logged_user_sessions s \<Longrightarrow> getUserFromSesssion t i = getUserFromSesssion s i"
  by (simp_all add: getUserSessions_def isSessionValid_def getUserFromSesssion_def)

text \<open>The effects of the two transactions of a login.\<close>

lemma effect_create_session:
  assumes "state_inv s" "txn_effect e tid (CreateSessionTransaction i u) s = Some s'"
  shows "isSessionValid s' i \<and> getUserFromSesssion s' i = u \<and> \<not> isSessionValid s i \<and>
    length (getUserSessions s' u) = Suc (length (getUserSessions s u)) \<and> senhas s' = senhas s"
proof -
  let ?s = "setLastTid tid s"
  have new: "\<not> isSessionValid ?s i" and s': "s' = setUserLastTid u tid (addSession i u ?s)"
    using assms(2) by (auto simp: txn_effect_def kind_effect_def split: if_splits)
  have inv: "state_inv ?s" using assms(1) by simp
  have "isSessionValid s' i" "getUserFromSesssion s' i = u"
    using isSessionValid_addSession [OF inv] getUserFromSesssion_addSession [OF inv new]
    by (simp_all add: s' getUserSessions_frame(2,3) [OF sessions_frame(1)])
  moreover have "length (getUserSessions s' u) = Suc (length (getUserSessions s u))"
    using getUserSessions_addSession [OF inv new, of u u]
    by (simp add: s' getUserSessions_frame(1) [OF sessions_frame(1)] getUserSessions_frame(1) [OF sessions_frame(2)])
  moreover have "senhas s' = senhas s"
    by (simp add: s' setUserLastTid_def addSession_def setLastTid_def)
  ultimately show ?thesis
    using new by (simp add: getUserSessions_frame(2) [OF sessions_frame(2)])
qed

lemma effect_create_user:
  assumes "state_inv s" "txn_effect e tid (CreateUserTransaction u p) s = Some s'"
  shows "\<not> hasUser s u \<and> checkPassword s' u p \<and> logged_user_sessions s' = logged_user_sessions s"
proof -
  have "\<not> hasUser s u"
    using assms(2) by (auto simp: txn_effect_def kind_effect_def effect_lookups [OF assms(1)] split: if_splits)
  moreover have "logged_user_sessions s' = logged_user_sessions s"
    using assms(2) by (auto simp: txn_effect_def kind_effect_def setUserLastTid_def addUser_def setLastTid_def
        split: if_splits)
  ultimately show ?thesis
    using effect_users [OF assms, of u] by (simp add: checkPassword_iff)
qed

section \<open>The contract of the transaction service\<close>

text \<open>
  The transactions that run without touching freed memory: the kinds that return at once
  when they are refused, and the others when they will be accepted.
\<close>

definition can_run :: "server_state \<Rightarrow> txn_kind \<Rightarrow> bool" where
  "can_run s k \<longleftrightarrow>
     (case k of
        CreateUserTransaction u p \<Rightarrow> u \<noteq> [] \<and> p \<noteq> [] \<and> \<not> hasUser s u
      | CreateSessionTransaction i u \<Rightarrow> \<not> isSessionValid s i \<and> hasUser s u
      | _ \<Rightarrow> True)"

lemma can_run_effect:
  assumes "state_inv s" "can_run s k" "\<not> refuses_cleanly k"
  shows "txn_effect e tid k s \<noteq> None"
  using assms(2,3) getUserSessions_frame(2) [OF sessions_frame(2)]
  by (cases k) (auto simp: can_run_def refuses_cleanly_def txn_effect_def kind_effect_def effect_lookups [OF assms(1)])

text \<open>A transaction that was committed: on the state and on the disk.\<close>

definition committed :: "env \<Rightarrow> txn_kind \<Rightarrow> 'a world_scheme \<Rightarrow> 'a world_scheme \<Rightarrow> bool" where
  "committed e k w w' \<longleftrightarrow>
     (\<exists>tid. ss_last_tid (w_shared w) < tid \<and> txn_effect e tid k (w_shared w) = Some (w_shared w') \<and>
       fs_lookup (w_disk w') = committed_view e k tid (fs_lookup (w_disk w)))"

lemma committed_effect:
  "committed e k w w' \<Longrightarrow> \<exists>tid. ss_last_tid (w_shared w) < tid \<and> txn_effect e tid k (w_shared w) = Some (w_shared w')"
  by (auto simp: committed_def)

text \<open>A request whose user or file name is one plain name.\<close>

definition good_request :: "request \<Rightarrow> bool" where
  "good_request r \<longleftrightarrow>
     (case r_type r of
        LOGIN \<Rightarrow> user_ok (r_username r)
      | FILE_UPDATE \<Rightarrow> file_ok (fu_filename (r_file_update r))
      | UPLOAD \<Rightarrow> file_ok (fu_filename (r_data_file r))
      | FILE_DATA \<Rightarrow> file_ok (fu_filename (r_data_file r))
      | _ \<Rightarrow> True)"

definition good_incoming :: "incoming \<Rightarrow> bool" where
  "good_incoming i = (case i of Incoming h r \<Rightarrow> good_request r | _ \<Rightarrow> True)"

locale transaction_service =
  fixes do_txn :: "txn_kind \<Rightarrow> ('a handler_world_scheme, bool) cpp"
    and e :: env
    and ok :: "'a handler_world_scheme \<Rightarrow> bool"
  assumes returns: "\<lbrakk>ok w; proper (w_shared w) k; do_txn k w = Returns b w'\<rbrakk> \<Longrightarrow>
      ok w' \<and> socket w' = socket w \<and>
      (if b then committed e k w w' else w_shared w' = w_shared w \<and> w_disk w' = w_disk w)"
    and safe: "\<lbrakk>ok w; proper (w_shared w) k; can_run (w_shared w) k\<rbrakk> \<Longrightarrow> runs (\<lambda>b w'. True) (do_txn k) w"
    and consistent: "ok w \<Longrightarrow> state_wf (w_shared w)"
    and stored: "ok w \<Longrightarrow> mirrors e (w_disk w) (w_shared w)"
    and ok_socket: "ok (w\<lparr>h_in := x1\<rparr>) \<longleftrightarrow> ok w" "ok (w\<lparr>h_sends := x2\<rparr>) \<longleftrightarrow> ok w" "ok (w\<lparr>h_out := x3\<rparr>) \<longleftrightarrow> ok w"
      "ok (w\<lparr>h_open := x4\<rparr>) \<longleftrightarrow> ok w" "ok (w\<lparr>h_rands := x5\<rparr>) \<longleftrightarrow> ok w"
begin

lemmas ok_simps = ok_socket

text \<open>A handler that runs one transaction and reports how it ended.\<close>

definition reports :: "txn_kind \<Rightarrow> response \<Rightarrow> string \<Rightarrow> 'a handler_world_scheme \<Rightarrow> 'a handler_world_scheme \<Rightarrow> bool" where
  "reports k r m w w' \<longleftrightarrow>
     ok w' \<and> \<not> h_open w' \<and> h_in w' = h_in w \<and>
     (committed e k w w' \<and> h_out w' = h_out w @ reply_of w r \<or>
      w_shared w' = w_shared w \<and> w_disk w' = w_disk w \<and> h_out w' = h_out w @ reply_of w (ERROR m))"

lemma txn_respond:
  assumes "ok w" "proper (w_shared w) k"
    and "bindC (do_txn k) (\<lambda>ok. if \<not> ok then respond (ERROR m) else respond r) w = Returns () w'"
  shows "reports k r m w w'"
proof -
  obtain b v where v: "do_txn k w = Returns b v"
    and w': "(if \<not> b then respond (ERROR m) else respond r) v = Returns () w'"
    using assms(3) by (auto simp: bindC_Returns_iff)
  note R = returns [OF assms(1,2) v]
  then have "socket v = socket w" by blast
  note S = socket_replies [OF this]
  from R S w' show ?thesis
    by (cases b) (auto simp: reports_def cpp_simps ok_socket committed_def)
qed

lemma upload_reports:
  "\<lbrakk>ok w; hasUser (w_shared w) user; file_ok (fu_filename (r_data_file r)); handleUpload do_txn r user w = Returns () w'\<rbrakk> \<Longrightarrow>
    reports (FileChangeTransaction user (fu_filename (r_data_file r)) False (r_data r)) FILE_UPDATED
      ''Error updating file'' w w'"
  unfolding handleUpload_def by (rule txn_respond) (simp_all add: proper_def)

lemma logout_reports:
  "\<lbrakk>ok w; handleLogout do_txn i w = Returns () w'\<rbrakk> \<Longrightarrow>
    reports (RemoveSessionTransaction (to_int32 i)) (LOGIN_OK None) ''Error removing session'' w w'"
  unfolding handleLogout_def by (rule txn_respond) (simp_all add: proper_def)

lemma frontend_reports:
  "\<lbrakk>ok w; handleFrontend do_txn r w = Returns () w'\<rbrakk> \<Longrightarrow>
    reports (NewFrontendTransaction (r_hostname r) (r_port r)) (LOGIN_OK None) ''Error creating frontend'' w w'"
  unfolding handleFrontend_def by (rule txn_respond) (simp_all add: proper_def)

lemma delete_reports:
  "\<lbrakk>ok w; hasUser (w_shared w) user; file_ok (fu_filename (r_file_update r)); fu_deleted (r_file_update r);
     handleFileUpdate do_txn r user w = Returns () w'\<rbrakk> \<Longrightarrow>
    reports (FileChangeTransaction user (fu_filename (r_file_update r)) True [CHR 0x00]) FILE_UPDATED
      ''Error deleting file'' w w'"
  by (rule txn_respond) (simp_all add: proper_def handleFileUpdate_def)

text \<open>Login.\<close>

definition logs_in :: "string \<Rightarrow> string \<Rightarrow> int \<Rightarrow> 'a handler_world_scheme \<Rightarrow> 'a handler_world_scheme \<Rightarrow> bool" where
  "logs_in u p i w w' \<longleftrightarrow>
     checkPassword (w_shared w') u p \<and> isSessionValid (w_shared w') i \<and>
     getUserFromSesssion (w_shared w') i = u \<and> \<not> isSessionValid (w_shared w) i \<and>
     length (getUserSessions (w_shared w') u) \<le> 2"

lemma pickSession_fresh: "pickSession s is = Some (i, rest) \<Longrightarrow> \<not> isSessionValid s i"
  by (induction "is") (auto split: if_splits)

lemma startSession_logs_in:
  assumes "ok w" "checkPassword (w_shared w) u p" "startSession do_txn u w = Returns () w'"
  shows "ok w' \<and> ((\<exists>i. logs_in u p i w w' \<and> h_out w' = h_out w @ reply_of w (LOGIN_OK (Some i))) \<or>
      w_shared w' = w_shared w \<and> (\<exists>m. h_out w' = h_out w @ reply_of w (ERROR m)))"
proof (cases "2 \<le> length (getUserSessions (w_shared w) u)")
  case True
  with assms show ?thesis by (auto simp: startSession_def cpp_simps ok_socket)
next
  case False
  with assms(3) obtain i rest b v where
    i: "pickSession (w_shared w) (h_rands w) = Some (i, rest)" and
    v: "do_txn (CreateSessionTransaction i u) (w\<lparr>h_rands := rest\<rparr>) = Returns b v" and
    w': "(if \<not> b then respond (ERROR ''Error creating session'')
          else seqC (sendMessage (LOGIN_OK (Some i))) (retC ())) v = Returns () w'"
    by (auto simp: startSession_def bindC_Returns_iff getC_simp newSessionId_def split: option.splits)
  have R: "ok v" "socket v = socket (w\<lparr>h_rands := rest\<rparr>)"
    "if b then \<exists>tid. ss_last_tid (w_shared w) < tid \<and> txn_effect e tid (CreateSessionTransaction i u) (w_shared w) = Some (w_shared v)
       else w_shared v = w_shared w"
    using returns [OF _ _ v] assms(1) by (auto simp: proper_def ok_socket committed_def split: if_splits)
  have S: "h_out v = h_out w" "reply_of v r = reply_of w r" for r
    using R(2) by (simp_all add: socket_def reply_of_def can_send_def)
  show ?thesis
  proof (cases b)
    case True
    then obtain tid where "txn_effect e tid (CreateSessionTransaction i u) (w_shared w) = Some (w_shared v)"
      using R(3) by auto
    with effect_create_session [OF state_wf_inv [OF consistent [OF assms(1)]] this] False assms(2) have "logs_in u p i w v"
      by (simp add: logs_in_def checkPassword_iff)
    with True R(1) S w' show ?thesis by (auto simp: cpp_simps ok_socket logs_in_def)
  next
    case False
    with R S w' show ?thesis by (auto simp: cpp_simps ok_socket)
  qed
qed

lemma login_logs_in:
  assumes "ok w" "user_ok (r_username r)" "handleLogin do_txn r sid w = Returns () w'"
  shows "ok w' \<and> ((\<exists>i. logs_in (r_username r) (r_password r) i w w' \<and> h_out w' = h_out w @ reply_of w (LOGIN_OK (Some i))) \<or>
      logged_user_sessions (w_shared w') = logged_user_sessions (w_shared w) \<and> (\<exists>m. h_out w' = h_out w @ reply_of w (ERROR m)))"
proof -
  let ?u = "r_username r" and ?p = "r_password r" and ?s = "w_shared w"
  consider "?u = [] \<or> ?p = [] \<or> sid > 0" | "hasUser ?s ?u" "?u \<noteq> []" "?p \<noteq> []" "\<not> sid > 0"
    | "\<not> hasUser ?s ?u" "?u \<noteq> []" "?p \<noteq> []" "\<not> sid > 0" by blast
  then show ?thesis
  proof cases
    case 1
    with assms(1,3) show ?thesis
      by (auto simp: handleLogin_def Let_def cpp_simps ok_socket split: if_splits)
  next
    case 2
    show ?thesis
    proof (cases "checkPassword ?s ?u ?p")
      case True
      with 2 assms(3) have "startSession do_txn ?u w = Returns () w'"
        by (simp add: handleLogin_def Let_def cpp_simps)
      from startSession_logs_in [OF assms(1) True this] show ?thesis by auto
    next
      case False
      with 2 assms(1,3) show ?thesis by (auto simp: handleLogin_def Let_def cpp_simps ok_socket)
    qed
  next
    case 3
    obtain b v where v: "do_txn (CreateUserTransaction ?u ?p) w = Returns b v"
      and w': "(if \<not> b then respond (ERROR ''Error creating user'')
        else bindC (getC (\<lambda>w. checkPassword (w_shared w) ?u ?p)) (\<lambda>correct.
            if \<not> correct then respond (ERROR ''Wrong password'') else startSession do_txn ?u)) v = Returns () w'"
      using 3 assms(3) by (auto simp: handleLogin_def Let_def bindC_Returns_iff getC_simp)
    have R: "ok v" "socket v = socket w"
      "if b then \<exists>tid. ss_last_tid ?s < tid \<and> txn_effect e tid (CreateUserTransaction ?u ?p) ?s = Some (w_shared v)
       else w_shared v = ?s"
      using returns [OF assms(1) _ v] assms(2) by (auto simp: proper_def committed_def split: if_splits)
    note S = socket_replies [OF R(2)]
    show ?thesis
    proof (cases b)
      case True
      then obtain tid where "txn_effect e tid (CreateUserTransaction ?u ?p) ?s = Some (w_shared v)"
        using R(3) by auto
      note U = effect_create_user [OF state_wf_inv [OF consistent [OF assms(1)]] this]
      with True w' have "startSession do_txn ?u v = Returns () w'"
        by (simp add: cpp_simps)
      moreover have "isSessionValid (w_shared v) i = isSessionValid ?s i" for i
        by (rule getUserSessions_frame(2)) (use U in simp)
      then have "logs_in ?u ?p i v w' = logs_in ?u ?p i w w'" for i
        by (simp add: logs_in_def)
      moreover have "checkPassword (w_shared v) ?u ?p" using U by simp
      ultimately show ?thesis
        using startSession_logs_in [OF R(1), of ?u ?p w'] U S by auto
    next
      case False
      with R S w' show ?thesis by (auto simp: cpp_simps ok_socket)
    qed
  qed
qed


text \<open>No request makes the server throw or touch freed memory.\<close>

definition ready :: "'a handler_world_scheme \<Rightarrow> bool" where
  "ready w \<longleftrightarrow> ok w \<and> (\<forall>i \<in> set (h_in w). good_incoming i)"

lemma runs_respond: "ready w \<Longrightarrow> runs (\<lambda>_. ready) (respond r) w"
  and runs_send: "ready w \<Longrightarrow> runs (\<lambda>_. ready) (sendMessage r) w"
  and runs_end: "ready w \<Longrightarrow> runs (\<lambda>_. ready) endConnection w"
  by (simp_all add: runs_def cpp_simps ready_def ok_socket)

lemma runs_do_txn:
  assumes "ready w" "proper (w_shared w) k" "can_run (w_shared w) k"
  shows "runs (\<lambda>b v. ready v \<and> socket v = socket w \<and>
    (if b then \<exists>tid. txn_effect e tid k (w_shared w) = Some (w_shared v) else w_shared v = w_shared w)) (do_txn k) w"
proof (rule runs_result)
  show "runs (\<lambda>x t. True) (do_txn k) w" using assms by (intro safe) (simp_all add: ready_def)
  show "ready v \<and> socket v = socket w \<and>
    (if b then \<exists>tid. txn_effect e tid k (w_shared w) = Some (w_shared v) else w_shared v = w_shared w)"
    if "do_txn k w = Returns b v" for b v
    using returns [OF _ assms(2) that] assms(1) by (auto simp: ready_def socket_def committed_def split: if_splits)
qed

lemma runs_txn_respond:
  assumes "ready w" "proper (w_shared w) k" "can_run (w_shared w) k"
  shows "runs (\<lambda>_. ready) (bindC (do_txn k) (\<lambda>ok. if \<not> ok then respond r else respond q)) w"
  by (rule runs_bind, rule runs_mono [OF runs_do_txn [OF assms]]) (simp add: runs_respond)

lemma runs_upload:
  "\<lbrakk>ready w; hasUser (w_shared w) user; file_ok (fu_filename (r_data_file r))\<rbrakk> \<Longrightarrow>
    runs (\<lambda>_. ready) (handleUpload do_txn r user) w"
  unfolding handleUpload_def by (rule runs_txn_respond) (simp_all add: proper_def can_run_def)

lemma runs_startSession:
  assumes "ready w" "hasUser (w_shared w) u"
  shows "runs (\<lambda>_. ready) (startSession do_txn u) w"
proof (cases "2 \<le> length (getUserSessions (w_shared w) u) \<or> pickSession (w_shared w) (h_rands w) = None")
  case True
  with assms(1) show ?thesis
    by (auto simp: startSession_def newSessionId_def runs_def cpp_simps ready_def ok_socket)
next
  case False
  then obtain i rest where i: "pickSession (w_shared w) (h_rands w) = Some (i, rest)" by auto
  let ?v = "w\<lparr>h_rands := rest\<rparr>"
  have run: "startSession do_txn u w = bindC (do_txn (CreateSessionTransaction i u)) (\<lambda>ok.
      if \<not> ok then respond (ERROR ''Error creating session'')
      else seqC (sendMessage (LOGIN_OK (Some i))) (retC ())) ?v"
    using False i by (simp add: startSession_def newSessionId_def cpp_simps)
  have "ready ?v" "proper (w_shared ?v) (CreateSessionTransaction i u)"
    "can_run (w_shared ?v) (CreateSessionTransaction i u)"
    using assms pickSession_fresh [OF i] by (simp_all add: ready_def ok_socket proper_def can_run_def)
  then have "runs (\<lambda>_. ready) (bindC (do_txn (CreateSessionTransaction i u)) (\<lambda>ok.
      if \<not> ok then respond (ERROR ''Error creating session'')
      else seqC (sendMessage (LOGIN_OK (Some i))) (retC ()))) ?v"
    by (intro runs_bind runs_mono [OF runs_do_txn])
      (auto simp: runs_respond intro!: runs_seq runs_mono [OF runs_send] runs_leaf)
  with run show ?thesis by (simp add: runs_def)
qed

lemma runs_login:
  assumes "ready w" "user_ok (r_username r)"
  shows "runs (\<lambda>_. ready) (handleLogin do_txn r sid) w"
proof -
  let ?u = "r_username r" and ?p = "r_password r"
  have start: "runs (\<lambda>_. ready) (bindC (getC (\<lambda>w. checkPassword (w_shared w) ?u ?p)) (\<lambda>correct.
            if \<not> correct then respond (ERROR ''Wrong password'') else startSession do_txn ?u)) v"
    if "ready v" for v
    by (rule runs_bind, rule runs_leaf) (use that in \<open>auto simp: runs_respond checkPassword_iff hasUser_def intro!: runs_startSession\<close>)
  have new: "proper (w_shared w) (CreateUserTransaction ?u ?p)" "can_run (w_shared w) (CreateUserTransaction ?u ?p)"
    if "?u \<noteq> []" "?p \<noteq> []" "\<not> hasUser (w_shared w) ?u"
    using that assms(2) by (simp_all add: proper_def can_run_def)
  have user: "runs (\<lambda>b. ready) (if hasUser (w_shared w) ?u then retC True else do_txn (CreateUserTransaction ?u ?p)) w"
    if "?u \<noteq> []" "?p \<noteq> []"
  proof (cases "hasUser (w_shared w) ?u")
    case True
    with assms(1) show ?thesis by (simp add: runs_leaf)
  next
    case False
    with runs_mono [OF runs_do_txn [OF assms(1) new [OF that False]]] show ?thesis by auto
  qed
  show ?thesis
    unfolding handleLogin_def Let_def
    by (auto simp: assms(1) runs_respond intro!: runs_bind runs_leaf runs_mono [OF user] start split del: if_split split: if_splits)
qed


lemma runs_receive:
  "ready w \<Longrightarrow> runs (\<lambda>msg v. ready v \<and> w_shared v = w_shared w \<and>
     (case msg of None \<Rightarrow> True | Some (h, r) \<Rightarrow> good_request r)) receiveRequest w"
  by (cases "h_in w") (auto simp: runs_def receiveRequest_def ready_def ok_socket good_incoming_def split: incoming.splits)

lemma runs_fileUpdate:
  assumes "ready w" "hasUser (w_shared w) user" "file_ok (fu_filename (r_file_update r))"
  shows "runs (\<lambda>_. ready) (handleFileUpdate do_txn r user) w"
proof (cases "fu_deleted (r_file_update r)")
  case True
  with assms show ?thesis
    by (simp add: handleFileUpdate_def runs_txn_respond proper_def can_run_def)
next
  case False
  have rest: "runs (\<lambda>_. ready) (bindC receiveRequest (\<lambda>msg. case msg of
        None \<Rightarrow> respond (ERROR ''Error receiving request'')
      | Some (h, r2) \<Rightarrow> if r_type r2 \<noteq> FILE_DATA then respond (ERROR ''Invalid request type'')
          else handleUpload do_txn r2 user)) v" if "ready v" "w_shared v = w_shared w" for v
    by (rule runs_bind, rule runs_mono [OF runs_receive [OF that(1)]])
      (use that(2) assms(2) in \<open>auto simp: runs_respond good_request_def intro!: runs_upload split: option.splits\<close>)
  have "runs (\<lambda>_. ready) (seqC (sendMessage SEND_FILE_DATA) (bindC receiveRequest (\<lambda>msg. case msg of
        None \<Rightarrow> respond (ERROR ''Error receiving request'')
      | Some (h, r2) \<Rightarrow> if r_type r2 \<noteq> FILE_DATA then respond (ERROR ''Invalid request type'')
          else handleUpload do_txn r2 user))) w"
    by (rule runs_seq, simp add: runs_def [of _ "sendMessage r" for r] sendMessage_simp, rule rest)
      (use assms(1) in \<open>simp_all add: ready_def ok_socket\<close>)
  with False assms(1) show ?thesis
    by (auto simp: handleFileUpdate_def Let_def runs_respond intro!: runs_bind runs_leaf)
qed

lemma runs_download:
  assumes "ready w" "hasUser (w_shared w) user"
  shows "runs (\<lambda>_. ready) (handleDownload e r user) w"
proof -
  have m: "mirrors e (w_disk w) (w_shared w)" "state_inv (w_shared w)"
    using stored consistent assms(1) by (simp_all add: ready_def)
  have "fs_lookup (w_disk w) (resolve (getFilePath e user (r_filename r))) \<noteq> Some Dir"
    if "hasFile (w_shared w) user (r_filename r)"
    using that mirrorsD(4) [OF m, of user "r_filename r"]
    by (auto simp: hasFile_findFile file_stored_def file_path_def getFilePath_def)
  with assms(1) show ?thesis
    unfolding handleDownload_def
    by (intro runs_bind runs_leaf) (auto simp: runs_respond split: option.split node.split)
qed

lemma runs_list: "ready w \<Longrightarrow> runs (\<lambda>_. ready) (handleList user) w"
  by (simp add: runs_def handleList_def cpp_simps ready_def ok_socket)

lemma runs_subscribe: "ready w \<Longrightarrow> runs (\<lambda>_. ready) (handleSubscribe user sid []) w"
  by (simp add: runs_def handleSubscribe_def subscribeLoop.simps subscribeTurn_def cpp_simps)

lemma runs_session:
  assumes "ready w" "hasUser (w_shared w) user" "good_request r"
  shows "runs (\<lambda>_. ready) (handleSession e do_txn r user sid []) w"
  using assms
  by (cases "r_type r") (simp_all add: handleSession_def runs_respond runs_subscribe runs_list runs_download
      runs_fileUpdate runs_upload good_request_def handleLogout_def runs_txn_respond proper_def can_run_def)

lemma session_user:
  assumes "state_wf s" "isSessionValid s i"
  shows "hasUser s (getUserFromSesssion s i)"
  using assms by (auto simp: isSessionValid_iff getUserFromSesssion_def dest: state_wf_session)

theorem request_runs:
  assumes "ready w"
  shows "runs (\<lambda>_. ready) (handleRequest e do_txn []) w"
proof -
  have rest: "runs (\<lambda>_. ready) (bindC (getC w_shared) (\<lambda>s.
        if \<not> isSessionValid s sid then respond (ERROR ''Invalid session'')
        else handleSession e do_txn r (getUserFromSesssion s sid) sid [])) v"
    if "ready v" "good_request r" for v r sid
    by (rule runs_bind, rule runs_leaf)
      (use that session_user [OF consistent] in \<open>auto simp: runs_respond ready_def intro!: runs_session\<close>)
  show ?thesis
    unfolding handleRequest_def
    by (rule runs_bind, rule runs_mono [OF runs_receive [OF assms]])
      (auto simp: runs_respond handleFrontend_def runs_txn_respond proper_def can_run_def good_request_def
        split: option.split intro!: runs_login rest)
qed

end

section \<open>The manager provides the contract\<close>

lemma server_ok_handler:
  "server_ok e (w\<lparr>h_in := x1\<rparr>) = server_ok e w" "server_ok e (w\<lparr>h_sends := x2\<rparr>) = server_ok e w"
  "server_ok e (w\<lparr>h_out := x3\<rparr>) = server_ok e w" "server_ok e (w\<lparr>h_open := x4\<rparr>) = server_ok e w"
  "server_ok e (w\<lparr>h_rands := x5\<rparr>) = server_ok e w" "server_ok e (w\<lparr>h_votes := x6\<rparr>) = server_ok e w"
  by (simp_all add: server_ok_def)

text \<open>A server that runs no transaction now: the state the read lock of a handler sees.\<close>

definition quiet :: "env \<Rightarrow> 'a mgr_world_scheme \<Rightarrow> bool" where
  "quiet e w \<longleftrightarrow> env_ok e \<and> server_ok e w \<and> \<not> m_isTransactionActive w"

lemma serveTransaction_cases:
  "\<exists>early late v. serveTransaction e k w = doTransaction e k early late (w\<lparr>h_votes := v\<rparr>)"
proof (cases "h_votes w")
  case Nil
  then have "serveTransaction e k w = doTransaction e k [] [] (w\<lparr>h_votes := []\<rparr>)"
    by (cases w) (simp add: serveTransaction_def cpp_simps)
  then show ?thesis by blast
next
  case (Cons x v)
  then have "serveTransaction e k w = doTransaction e k (fst x) (snd x) (w\<lparr>h_votes := v\<rparr>)"
    by (cases x) (simp add: serveTransaction_def cpp_simps)
  then show ?thesis by blast
qed

lemma same_socket: "mgr_world.more v = mgr_world.more w \<Longrightarrow> socket v = socket w"
  by (cases v, cases w) (simp add: socket_def)

lemma serveTransaction_returns:
  assumes "quiet e w" "proper (w_shared w) k" "serveTransaction e k w = Returns b w'"
  shows "quiet e w' \<and> socket w' = socket w \<and>
    (if b then committed e k w w' else w_shared w' = w_shared w \<and> w_disk w' = w_disk w)"
proof -
  obtain early late v where run: "serveTransaction e k w = doTransaction e k early late (w\<lparr>h_votes := v\<rparr>)"
    using serveTransaction_cases by blast
  have "server_ok e w' \<and> served e k (w\<lparr>h_votes := v\<rparr>) b w'"
    by (rule doTransaction_returns [of _ _ _ early late]) (use assms run in \<open>simp_all add: quiet_def server_ok_handler\<close>)
  moreover from this have "socket w' = socket (w\<lparr>h_votes := v\<rparr>)"
    by (intro same_socket) (simp add: served_def)
  moreover have "socket (w\<lparr>h_votes := v\<rparr>) = socket w" by (simp add: socket_def)
  moreover have "ss_last_tid (w_shared w) < next_tid (w\<lparr>h_votes := v\<rparr>)"
    using assms(1) by (simp add: quiet_def server_ok_def next_tid_def)
  ultimately show ?thesis
    using assms(1) by (auto simp: quiet_def served_def committed_def)
qed

lemma doTransaction_runs:
  assumes "quiet e w" "proper (w_shared w) k" "can_run (w_shared w) k"
  shows "runs (\<lambda>b w'. True) (doTransaction e k early late) w"
proof (cases "m_isCoordinator w \<and> m_lastTid w < 2 ^ 31 - 1")
  case False
  then show ?thesis
    using assms(1) doTransaction_not_now [of w e k early late] doTransaction_overflow [of w e k early late]
    by (cases "m_isCoordinator w") (auto simp: runs_def quiet_def not_less)
next
  case True
  have ok: "env_ok e" "server_ok e w" "\<not> m_isTransactionActive w" "mirrors e (w_disk w) (w_shared w)" "state_inv (w_shared w)"
    using assms(1) by (auto simp: quiet_def server_ok_def)
  note idle = server_ok_idle [OF ok(2) _ ok(3)]
  show ?thesis
  proof (cases "txn_effect e (next_tid w) k (w_shared w)")
    case (Some s')
    from doTransaction_outcomes [OF ok(1) idle proper_ready [OF ok(1,4,5) assms(2) Some] Some, of early late] True show ?thesis
      by (auto simp: runs_def)
  next
    case None
    with can_run_effect [OF ok(5) assms(3)] have "refuses_cleanly k" by blast
    with doTransaction_refused [OF ok(1) idle proper_temp_absent [OF ok(1,4,5) assms(2)] None, of early late] True show ?thesis
      by (simp add: runs_def)
  qed
qed

lemma serveTransaction_runs:
  assumes "quiet e w" "proper (w_shared w) k" "can_run (w_shared w) k"
  shows "runs (\<lambda>b w'. True) (serveTransaction e k) w"
proof -
  obtain early late v where run: "serveTransaction e k w = doTransaction e k early late (w\<lparr>h_votes := v\<rparr>)"
    using serveTransaction_cases by blast
  have "runs (\<lambda>b w'. True) (doTransaction e k early late) (w\<lparr>h_votes := v\<rparr>)"
    by (rule doTransaction_runs) (use assms in \<open>simp_all add: quiet_def server_ok_handler\<close>)
  with run show ?thesis by (simp add: runs_def)
qed

lemma quiet_facts:
  "quiet e w \<Longrightarrow> state_wf (w_shared w)" "quiet e w \<Longrightarrow> mirrors e (w_disk w) (w_shared w)"
  "quiet e (w\<lparr>h_in := x1\<rparr>) = quiet e w" "quiet e (w\<lparr>h_sends := x2\<rparr>) = quiet e w" "quiet e (w\<lparr>h_out := x3\<rparr>) = quiet e w"
  "quiet e (w\<lparr>h_open := x4\<rparr>) = quiet e w" "quiet e (w\<lparr>h_rands := x5\<rparr>) = quiet e w"
  by (auto simp: quiet_def server_ok_def)

interpretation tm: transaction_service "serveTransaction e" e "quiet e" for e
  by unfold_locales
    (rule serveTransaction_returns; assumption | rule serveTransaction_runs; assumption | rule quiet_facts; assumption
     | rule quiet_facts)+

end
