(* ===== verification/Service_Replies.thy ===== *)
theory Service_Replies
  imports Service_Correct
begin

text \<open>
  What the clients are told: requests without a session are refused, a download and a list
  are what the disk and the table hold, and a subscriber is told of every file that is
  changed, but of no file that is deleted.
\<close>

section \<open>Requests without a valid session\<close>

definition needs_session :: "request_type \<Rightarrow> bool" where
  "needs_session t \<longleftrightarrow> t \<notin> {LOGIN, PING, FRONTEND_SUBSCRIBE}"

definition with_reply :: "'a handler_world_scheme \<Rightarrow> response \<Rightarrow> 'a handler_world_scheme" where
  "with_reply w r = w\<lparr>h_sends := sends_after w, h_out := h_out w @ reply_of w r, h_open := False\<rparr>"

lemma respond_with_reply: "respond r w = Returns () (with_reply w r)"
  by (simp add: respond_simp with_reply_def)

lemma receive_first:
  "h_open w \<Longrightarrow> h_in w = Incoming h r # rest \<Longrightarrow> receiveRequest w = Returns (Some (h, r)) (w\<lparr>h_in := rest\<rparr>)"
  by (simp add: receiveRequest_def)

lemma request_without_session:
  assumes "h_open w" "h_in w = Incoming h r # rest" "needs_session (r_type r)"
    and "\<not> isSessionValid (w_shared w) (header_session h)"
  shows "handleRequest e do_txn updates w =
    Returns () (with_reply (w\<lparr>h_in := rest\<rparr>) (ERROR ''Invalid session''))"
proof -
  have "r_type r \<noteq> LOGIN" "r_type r \<noteq> PING" "r_type r \<noteq> FRONTEND_SUBSCRIBE"
    using assms(3) by (auto simp: needs_session_def)
  with assms show ?thesis
    by (simp add: handleRequest_def receive_first bindC_def getC_simp respond_with_reply)
qed

text \<open>With a valid session the handler runs for the user of the session.\<close>

lemma request_with_session:
  assumes "h_open w" "h_in w = Incoming h r # rest" "needs_session (r_type r)"
    and "isSessionValid (w_shared w) (header_session h)"
  shows "handleRequest e do_txn updates w =
    handleSession e do_txn r (getUserFromSesssion (w_shared w) (header_session h)) (header_session h) updates
      (w\<lparr>h_in := rest\<rparr>)"
proof -
  have "r_type r \<noteq> LOGIN" "r_type r \<noteq> PING" "r_type r \<noteq> FRONTEND_SUBSCRIBE"
    using assms(3) by (auto simp: needs_session_def)
  with assms show ?thesis
    by (simp add: handleRequest_def receive_first bindC_def getC_simp)
qed

text \<open>The session id of a header is narrowed: ids that agree modulo \<open>2 ^ 32\<close> are one session.\<close>

lemma session_id_narrowed:
  "isSessionValid s (i + k * 2 ^ 32) = isSessionValid s i"
  "getUserFromSesssion s (i + k * 2 ^ 32) = getUserFromSesssion s i"
  by (simp_all only: isSessionValid_def getUserFromSesssion_def to_int32_shift)

section \<open>Downloads and lists\<close>

lemma download_found:
  assumes "mirrors e (w_disk w) (w_shared w)" "state_inv (w_shared w)"
    and "hasFile (w_shared w) user (r_filename r)"
  shows "\<exists>c. fs_lookup (w_disk w) (file_path e user (r_filename r)) = Some (File c) \<and>
    handleDownload e r user w =
      Returns () (with_reply w (FILE_DATA_R (r_filename r) (content_hash (env_xxh64 e) c) c))"
proof -
  obtain f where f: "findFile (w_shared w) user (r_filename r) = Some f"
    using assms(3) by (auto simp: hasFile_findFile)
  with mirrorsD(4) [OF assms(1,2)] have "file_stored e (w_disk w) user (r_filename r) f" by blast
  then obtain c where c: "fs_lookup (w_disk w) (file_path e user (r_filename r)) = Some (File c)"
    "uf_hash f = content_hash (env_xxh64 e) c"
    by (auto simp: file_stored_def split: option.splits node.splits)
  moreover have "resolve (getFilePath e user (r_filename r)) = file_path e user (r_filename r)"
    by (simp add: file_path_def getFilePath_def)
  ultimately show ?thesis
    using assms(3) f
    by (simp add: handleDownload_def bindC_def getC_simp respond_with_reply getFileHash_findFile)
qed

lemma download_missing:
  "\<not> hasFile (w_shared w) user (r_filename r) \<Longrightarrow>
    handleDownload e r user w = Returns () (with_reply w (ERROR ''File not found''))"
  by (simp add: handleDownload_def bindC_def getC_simp respond_with_reply)

lemma list_complete:
  assumes "state_wf (w_shared w)" "can_send w"
  shows "\<exists>fs. handleList user w = Returns () (with_reply w (FILE_LIST fs)) \<and>
    (\<forall>n h. (n, h) \<in> set fs \<longleftrightarrow> (\<exists>f. findFile (w_shared w) user n = Some f \<and> uf_hash f = h))"
proof -
  let ?fs = "map (\<lambda>f. (uf_filename f, uf_hash f)) (getUserFiles (w_shared w) user)"
  have "handleList user w = Returns () (with_reply w (FILE_LIST ?fs))"
    using assms(2) by (simp add: handleList_def cpp_simps with_reply_def)
  moreover have "(n, h) \<in> set ?fs \<longleftrightarrow> (\<exists>f. findFile (w_shared w) user n = Some f \<and> uf_hash f = h)" for n h
    using getUserFiles_iff [of "w_shared w" _ user] assms(1) state_wf_file [OF assms(1)]
    by (auto simp: image_iff Bex_def)
  ultimately show ?thesis by blast
qed

section \<open>Requests that change the server\<close>

text \<open>A transaction that the coordinator can run and that all replicas vote for is committed.\<close>

lemma serveTransaction_commits:
  assumes "quiet e w" "m_isCoordinator w" "m_lastTid w < 2 ^ 31 - 1" "proper (w_shared w) k"
    and "txn_effect e (next_tid w) k (w_shared w) = Some s'" "h_votes w = (early, late) # rest"
    and "length (ballots (next_tid w) early) \<le> length (getActiveServers w)"
    and "unanimous (length (getActiveServers w)) (ballots (next_tid w) (early @ late)) = Some True"
  shows "\<exists>v. serveTransaction e k w = Returns True v"
proof -
  let ?w = "w\<lparr>h_votes := rest\<rparr>"
  have run: "serveTransaction e k w = doTransaction e k early late ?w"
    using assms(6) by (simp add: serveTransaction_def cpp_simps)
  have ok: "env_ok e" "mirrors e (w_disk w) (w_shared w)" "state_inv (w_shared w)" "coordinator_idle e ?w"
    using assms(1-3) server_ok_idle [of e ?w] by (auto simp: quiet_def server_ok_def server_ok_handler)
  from doTransaction_accepted [OF ok(1,4), of k s' early late] proper_ready [OF ok(1-3) assms(4,5)] assms(5,7,8)
  show ?thesis by (auto simp: run next_tid_def getActiveServers_def getLastTid_def)
qed

text \<open>The handlers that end with one transaction then report its success.\<close>

lemma upload_answered:
  assumes "serveTransaction e (FileChangeTransaction user (fu_filename (r_data_file r)) False (r_data r)) w = Returns True v"
  shows "handleUpload (serveTransaction e) r user w = Returns () (with_reply v FILE_UPDATED)"
  using assms by (simp add: handleUpload_def bindC_def respond_with_reply)

lemma delete_answered:
  assumes "serveTransaction e (FileChangeTransaction user (fu_filename (r_file_update r)) True [CHR 0x00]) w = Returns True v"
    and "fu_deleted (r_file_update r)"
  shows "handleFileUpdate (serveTransaction e) r user w = Returns () (with_reply v FILE_UPDATED)"
  using assms by (simp add: handleFileUpdate_def bindC_def respond_with_reply)

lemma logout_answered:
  assumes "serveTransaction e (RemoveSessionTransaction (to_int32 i)) w = Returns True v"
  shows "handleLogout (serveTransaction e) i w = Returns () (with_reply v (LOGIN_OK None))"
  using assms by (simp add: handleLogout_def bindC_def respond_with_reply)

section \<open>Subscriptions\<close>

text \<open>A history of the shared state: each state is the effect of a later transaction.\<close>

inductive history :: "env \<Rightarrow> server_state \<Rightarrow> server_state list \<Rightarrow> bool" for e where
  start: "history e s []"
| step: "\<lbrakk>ss_last_tid s < tid; txn_effect e tid k s = Some s'; history e s' states\<rbrakk> \<Longrightarrow>
    history e s (s' # states)"

inductive_cases history_step: "history e s (s' # states)"

text \<open>A file of the new state is a file of the old one or is newer than the old state.\<close>

lemma effect_new_files:
  assumes "state_inv s" "txn_effect e tid k s = Some s'" "findFile s' u n = Some f"
  shows "findFile s u n = Some f \<or> uf_last_tid f = tid"
  using effect_files [OF assms(1,2), of u n] assms(3)
  by (auto simp: the_file_def split: txn_kind.splits if_splits)

lemma sendUpdates_run:
  "\<exists>b w'. sendUpdates files w = Returns b w' \<and> w_shared w' = w_shared w \<and>
    (b \<longrightarrow> h_out w' = h_out w @ map (\<lambda>f. UPDATED (update_of f)) files) \<and>
    (\<exists>k. h_out w' = h_out w @ take k (map (\<lambda>f. UPDATED (update_of f)) files))"
proof (induction files arbitrary: w)
  case Nil
  show ?case by (rule exI [of _ True]) (simp add: cpp_simps)
next
  case (Cons f files)
  show ?case
  proof (cases "can_send w")
    case False
    then show ?thesis
      by (auto simp: cpp_simps reply_of_def intro: exI [of _ 0])
  next
    case True
    let ?w = "w\<lparr>h_sends := sends_after w, h_out := h_out w @ [UPDATED (update_of f)]\<rparr>"
    obtain b w' k where IH: "sendUpdates files ?w = Returns b w'" "w_shared w' = w_shared ?w"
      "b \<longrightarrow> h_out w' = h_out ?w @ map (\<lambda>f. UPDATED (update_of f)) files"
      "h_out w' = h_out ?w @ take k (map (\<lambda>f. UPDATED (update_of f)) files)"
      using Cons.IH [of ?w] by blast
    have "w_shared w' = w_shared w"
      "b \<longrightarrow> h_out w' = h_out w @ map (\<lambda>f. UPDATED (update_of f)) (f # files)"
      "h_out w' = h_out w @ take (Suc k) (map (\<lambda>f. UPDATED (update_of f)) (f # files))"
      using IH(2-4) by simp_all
    moreover
    have "sendUpdates (f # files) w = Returns b w'"
      using True IH(1) by (simp add: cpp_simps reply_of_def)
    ultimately show ?thesis by blast
  qed
qed

lemma sendUpdates_open:
  assumes "h_open w" "h_sends w = []"
  shows "\<exists>v. sendUpdates files w = Returns True v"
  using assms by (induction files arbitrary: w) (auto simp: cpp_simps can_send_def sends_after_def)

text \<open>
  What a subscriber knows: a file of the current state that is newer than \<open>start\<close> and not
  newer than \<open>tid\<close> was announced.
\<close>

definition told :: "string \<Rightarrow> int \<Rightarrow> int \<Rightarrow> 'a handler_world_scheme \<Rightarrow> bool" where
  "told user start tid w \<longleftrightarrow>
     (\<forall>f \<in> set (getUserFiles (w_shared w) user).
        start < uf_last_tid f \<and> uf_last_tid f \<le> tid \<longrightarrow> UPDATED (update_of f) \<in> set (h_out w))"

lemma turn_tells:
  assumes "state_wf (w_shared w)" "told user start tid w" "start \<le> tid"
    and "subscribeTurn user sid tid w = Returns (Some tid') w'"
  shows "w_shared w' = w_shared w \<and> tid' = max tid (ss_last_tid (w_shared w)) \<and> told user start tid' w'"
proof (cases "tid < ss_last_tid (w_shared w)")
  case False
  with assms(2,4) show ?thesis
    by (auto simp: subscribeTurn_def cpp_simps getLastTid_def)
next
  case True
  obtain b v k where v: "sendUpdates (getUserFilesSince (w_shared w) user tid) w = Returns b v"
    "w_shared v = w_shared w"
    "b \<longrightarrow> h_out v = h_out w @ map (\<lambda>f. UPDATED (update_of f)) (getUserFilesSince (w_shared w) user tid)"
    using sendUpdates_run by blast
  have end_v: "b" "w' = v" "tid' = ss_last_tid (w_shared w)"
    using assms(4) True v(1) by (auto simp: subscribeTurn_def cpp_simps getLastTid_def split: if_splits)
  have "UPDATED (update_of f) \<in> set (h_out v)"
    if f: "f \<in> set (getUserFiles (w_shared w) user)" "start < uf_last_tid f" for f
  proof (cases "uf_last_tid f \<le> tid")
    case True
    with f assms(2) v(3) end_v(1) show ?thesis by (auto simp: told_def)
  next
    case False
    with f(1) assms(1) have "f \<in> set (getUserFilesSince (w_shared w) user tid)"
      by (auto simp: getUserFilesSince_iff getUserFiles_iff)
    with v(3) end_v(1) show ?thesis by auto
  qed
  with v(2) end_v True show ?thesis by (auto simp: told_def)
qed

lemma loop_tells:
  assumes "history e (w_shared w) states" "state_wf (w_shared w)" "told user start tid w" "start \<le> tid"
    and "tid \<le> ss_last_tid (w_shared w)" "subscribeLoop user sid tid states w = Blocks w'"
  shows "told user start (ss_last_tid (w_shared w')) w' \<and> w_shared w' = last (w_shared w # states)"
  using assms
proof (induction states arbitrary: w tid rule: list.induct)
  case Nil
  from Nil.prems(6) obtain tid' where "subscribeTurn user sid tid w = Returns (Some tid') w'"
    by (auto simp: subscribeLoop.simps [of _ _ _ "[]"] bindC_def subscribeTurn_def cpp_simps
        split: outcome.splits option.splits if_splits) (metis sendUpdates_run outcome.distinct(3))+
  from turn_tells [OF Nil.prems(2,3,4) this] Nil.prems(5) show ?case by (auto simp: max_absorb2)
next
  case (Cons s states)
  obtain tid1 k where s: "ss_last_tid (w_shared w) < tid1" "txn_effect e tid1 k (w_shared w) = Some s" "history e s states"
    using Cons.prems(1) by (rule history_step)
  from Cons.prems(6) consider
      (stuck) "subscribeTurn user sid tid w = Blocks w'"
    | (go) tid' v where "subscribeTurn user sid tid w = Returns (Some tid') v"
        "subscribeLoop user sid tid' states (v\<lparr>w_shared := s\<rparr>) = Blocks w'"
    by (auto simp: subscribeLoop.simps [of _ _ _ "s # states"] bindC_def seqC_case modifyC_simp retC_simp
        split: outcome.splits option.splits)
  then show ?case
  proof cases
    case stuck
    then show ?thesis
      using sendUpdates_run [of "getUserFilesSince (w_shared w) user tid" w]
      by (auto simp: subscribeTurn_def cpp_simps split: if_splits)
  next
    case go
    note turn = turn_tells [OF Cons.prems(2-4) go(1)]
    have inv: "state_inv (w_shared w)" using Cons.prems(2) by simp
    have wf: "state_wf s" "ss_last_tid s = tid1"
      using txn_effect_wf [OF Cons.prems(2) _ s(2)] txn_effect_last_tid [OF s(2)] s(1) by auto
    have "told user start tid' (v\<lparr>w_shared := s\<rparr>)"
      unfolding told_def
    proof clarsimp
      fix f
      assume f: "f \<in> set (getUserFiles s user)" "start < uf_last_tid f" "uf_last_tid f \<le> tid'"
      then obtain n where "findFile s user n = Some f" using wf(1) getUserFiles_iff by fastforce
      with effect_new_files [OF inv s(2)] f(3) turn Cons.prems(5) s(1) have "findFile (w_shared w) user n = Some f"
        by fastforce
      with inv have "f \<in> set (getUserFiles (w_shared v) user)"
        using turn by (auto simp: getUserFiles_iff)
      with turn f show "UPDATED (update_of f) \<in> set (h_out v)" by (simp add: told_def)
    qed
    with Cons.IH [of "v\<lparr>w_shared := s\<rparr>" tid'] s(1,3) wf turn Cons.prems(4,5) go(2) show ?thesis by auto
  qed
qed

text \<open>
  A subscriber that is still connected was told of every file that changed since it
  subscribed.
\<close>

lemma subscriber_told:
  assumes "state_wf (w_shared w)" "history e (w_shared w) states"
    and "handleSubscribe user sid states w = Blocks w'"
    and "findFile (last (w_shared w # states)) user n = Some f" "ss_last_tid (w_shared w) < uf_last_tid f"
    and "state_wf (last (w_shared w # states))"
  shows "UPDATED (update_of f) \<in> set (h_out w')"
proof -
  let ?tid = "ss_last_tid (w_shared w)"
  have run: "subscribeLoop user sid ?tid states w = Blocks w'"
    using assms(3) by (simp add: handleSubscribe_def cpp_simps getLastTid_def)
  have told: "told user ?tid ?tid w"
    by (auto simp: told_def)
  have all: "told user ?tid (ss_last_tid (w_shared w')) w'" and now: "w_shared w' = last (w_shared w # states)"
    using loop_tells [OF assms(2,1) told order_refl order_refl run] by blast+
  have "f \<in> set (getUserFiles (w_shared w') user)" "uf_last_tid f \<le> ss_last_tid (w_shared w')"
    using assms(4,6) getUserFiles_iff [of "w_shared w'" f user] state_wf_file [OF assms(6,4)]
    unfolding now by auto
  with all assms(5) show ?thesis by (auto simp: told_def)
qed

text \<open>No message of a subscription says that a file was deleted.\<close>

lemma turn_no_deletion:
  assumes "state_wf (w_shared w)" "\<forall>u. UPDATED u \<in> set (h_out w) \<longrightarrow> \<not> fu_deleted u"
    and "subscribeTurn user sid tid w = Returns x w'"
  shows "(\<forall>u. UPDATED u \<in> set (h_out w') \<longrightarrow> \<not> fu_deleted u) \<and> w_shared w' = w_shared w"
proof -
  have "\<not> uf_deleted f" if "f \<in> set (getUserFilesSince (w_shared w) user tid)" for f
    using that getUserFilesSince_iff [of "w_shared w"] state_wf_file [OF assms(1)] assms(1) by fastforce
  then have "\<forall>u. UPDATED u \<in> set (take k (map (\<lambda>f. UPDATED (update_of f)) (getUserFilesSince (w_shared w) user tid))) \<longrightarrow>
      \<not> fu_deleted u" for k
    by (auto simp: update_of_def dest!: in_set_takeD)
  moreover obtain b v k where "sendUpdates (getUserFilesSince (w_shared w) user tid) w = Returns b v"
    "w_shared v = w_shared w"
    "h_out v = h_out w @ take k (map (\<lambda>f. UPDATED (update_of f)) (getUserFilesSince (w_shared w) user tid))"
    using sendUpdates_run by blast
  ultimately show ?thesis
    using assms(2,3) by (auto simp: subscribeTurn_def cpp_simps split: if_splits)
qed

end
