(* ===== verification/Client_Correct.thy ===== *)
theory Client_Correct
  imports Client Service_Replies
begin

text \<open>
  The client, alone and against the handlers of the server: login, uploads and downloads end
  to end, the updates of a subscription, and what the watcher of the directory does with the
  events it reads.
\<close>

section \<open>Requests\<close>

lemma request_response_simp:
  "request_response r w =
     (case c_replies w of
        [] \<Rightarrow> Blocks (w\<lparr>c_sent := c_sent w @ [(c_session w, r)]\<rparr>)
      | x # rest \<Rightarrow> Returns x (w\<lparr>c_sent := c_sent w @ [(c_session w, r)], c_replies := rest\<rparr>))"
  by (simp add: request_response_def sendRequest_def receiveResponse_def cpp_simps split: list.split)

lemma can_write_lookup:
  assumes "sm_inv d" "can_write d p"
  shows "fs_lookup (fs_write p c d) p = Some (File c)"
proof -
  have "fs_write p c d = sm_assign p (File c) d" "p \<noteq> []"
    using assms(2) by (simp_all add: fs_write_def can_write_def)
  with assms(1) show ?thesis by (simp add: fs_lookup_def sm.find_assign)
qed

section \<open>Login\<close>

text \<open>The result is \<open>0\<close> exactly when the client is logged in afterwards.\<close>

lemma doLogin_result:
  assumes "doLogin u p w = Returns rv w'" "\<forall>i. Some (LOGIN_OK (Some i)) \<in> set (c_replies w) \<longrightarrow> i \<noteq> -1"
  shows "rv = (if isLogged w' then 0 else -1)"
  using assms
  by (auto simp: doLogin_def sendRequest_def receiveResponse_def cpp_simps isLogged_def
      split: list.splits option.splits response.splits if_splits)

text \<open>
  A client that logs in against the server of the model holds a session that the server
  knows as its user's.
\<close>

definition login_request :: "string \<Rightarrow> string \<Rightarrow> request" where
  "login_request u p = (new_request LOGIN)\<lparr>r_username := u, r_password := p\<rparr>"

lemma doLogin_sends:
  assumes "doLogin u p w = Returns 0 w'"
  shows "c_sent w' = c_sent w @ [(0, login_request u p)] \<and>
    (\<exists>i rest. c_replies w = Some (LOGIN_OK i) # rest \<and> c_session w' = (case i of None \<Rightarrow> 0 | Some i \<Rightarrow> i))"
  using assms
  by (auto simp: doLogin_def sendRequest_def receiveResponse_def cpp_simps login_request_def
      split: list.splits option.splits response.splits if_splits)

lemma login_session:
  assumes "quiet e sw" "user_ok u" "h_out sw = []"
    and "handleLogin (serveTransaction e) (login_request u p) 0 sw = Returns () sw'"
    and "doLogin u p w = Returns 0 w'" "map Some (h_out sw') = c_replies w"
  shows "isSessionValid (w_shared sw') (c_session w') \<and>
    getUserFromSesssion (w_shared sw') (c_session w') = u \<and> checkPassword (w_shared sw') u p"
proof -
  obtain i where i: "c_replies w = [Some (LOGIN_OK i)]" "c_session w' = (case i of None \<Rightarrow> 0 | Some i \<Rightarrow> i)"
  proof -
    obtain i rest where "c_replies w = Some (LOGIN_OK i) # rest" "c_session w' = (case i of None \<Rightarrow> 0 | Some i \<Rightarrow> i)"
      using doLogin_sends [OF assms(5)] by blast
    moreover have "length (h_out sw') \<le> 1"
      using tm.login_logs_in [OF assms(1) _ assms(4)] assms(2,3) by (auto simp: login_request_def new_request_def reply_of_def)
    ultimately show ?thesis
      using assms(6) by (intro that [of i]) (auto dest!: arg_cong [of _ _ length])
  qed
  then have out: "h_out sw' = [LOGIN_OK i]"
    using assms(6) by (cases "h_out sw'") auto
  from tm.login_logs_in [OF assms(1) _ assms(4)] assms(2,3) out obtain j where
    "tm.logs_in u p j sw sw'" "reply_of sw (LOGIN_OK (Some j)) = [LOGIN_OK i]"
    by (auto simp: login_request_def new_request_def reply_of_def split: if_splits)
  with i(2) show ?thesis by (auto simp: tm.logs_in_def reply_of_def split: if_splits)
qed

section \<open>Uploads and downloads\<close>

text \<open>What the server holds after an upload was committed, and after one that it reported as done.\<close>

lemma committed_upload:
  assumes "quiet e w" "hasUser (w_shared w) user" "file_ok n" "committed e (FileChangeTransaction user n False x) w w'"
  shows "fs_lookup (w_disk w') (file_path e user n) = Some (File x) \<and>
    (\<exists>f. findFile (w_shared w') user n = Some f \<and> uf_hash f = content_hash (env_xxh64 e) x \<and>
       ss_last_tid (w_shared w) < uf_last_tid f)"
proof -
  let ?k = "FileChangeTransaction user n False x"
  have ok: "state_inv (w_shared w)" "env_ok e" "user_ok user"
    using assms(1,2) mirrorsD(2) [of e "w_disk w" "w_shared w" user]
    by (auto simp: quiet_def server_ok_def hasUser_def user_stored_def)
  obtain tid where t: "ss_last_tid (w_shared w) < tid" "txn_effect e tid ?k (w_shared w) = Some (w_shared w')"
    "fs_lookup (w_disk w') = committed_view e ?k tid (fs_lookup (w_disk w))"
    using assms(4) by (auto simp: committed_def)
  have "file_path e user n \<noteq> tid_path e"
    using tid_paths_differ(5) [OF ok(2), of "tid_path e" user n] ok(3) assms(3) by simp
  moreover have "findFile (w_shared w') user n = Some (the_file e tid n x)"
    using effect_files [OF ok(1) t(2)] by simp
  ultimately show ?thesis
    using t(1,3) by (simp add: committed_view_def published_view_def the_file_def)
qed

lemma upload_stored:
  assumes "quiet e w" "hasUser (w_shared w) user" "file_ok (fu_filename (r_data_file r))"
    and "handleUpload (serveTransaction e) r user w = Returns () w'" "FILE_UPDATED \<in> set (h_out w')" "h_out w = []"
  shows "quiet e w' \<and>
    fs_lookup (w_disk w') (file_path e user (fu_filename (r_data_file r))) = Some (File (r_data r)) \<and>
    (\<exists>f. findFile (w_shared w') user (fu_filename (r_data_file r)) = Some f \<and>
       uf_hash f = content_hash (env_xxh64 e) (r_data r))"
proof -
  let ?k = "FileChangeTransaction user (fu_filename (r_data_file r)) False (r_data r)"
  have "tm.reports e ?k FILE_UPDATED ''Error updating file'' w w'"
    by (rule tm.upload_reports [OF assms(1-4)])
  then have "quiet e w'" and "committed e ?k w w'"
    using assms(5,6) by (auto simp: tm.reports_def reply_of_def split: if_splits)
  with committed_upload [OF assms(1-3)] show ?thesis by blast
qed

text \<open>A file that was uploaded is what a later download of it gives.\<close>

lemma upload_download:
  assumes "quiet e w" "hasUser (w_shared w) user" "file_ok (fu_filename (r_data_file r))"
    and "handleUpload (serveTransaction e) r user w = Returns () w'" "FILE_UPDATED \<in> set (h_out w')" "h_out w = []"
    and "r_filename q = fu_filename (r_data_file r)" "w_shared v = w_shared w'" "w_disk v = w_disk w'"
  shows "handleDownload e q user v =
    Returns () (with_reply v (FILE_DATA_R (r_filename q) (content_hash (env_xxh64 e) (r_data r)) (r_data r)))"
proof -
  note S = upload_stored [OF assms(1-6)]
  then have "mirrors e (w_disk v) (w_shared v)" "state_inv (w_shared v)"
    using assms(8,9) by (auto simp: quiet_def server_ok_def)
  moreover have "hasFile (w_shared v) user (r_filename q)"
    using S assms(7,8) by (auto simp: hasFile_findFile)
  ultimately obtain c where "fs_lookup (w_disk v) (file_path e user (r_filename q)) = Some (File c)"
    "handleDownload e q user v = Returns () (with_reply v (FILE_DATA_R (r_filename q) (content_hash (env_xxh64 e) c) c))"
    using download_found by blast
  with S assms(7,9) show ?thesis by simp
qed

text \<open>A deletion that the server reported as done.\<close>

lemma delete_removed:
  assumes "quiet e w" "hasUser (w_shared w) user" "file_ok (fu_filename (r_file_update r))" "fu_deleted (r_file_update r)"
    and "handleFileUpdate (serveTransaction e) r user w = Returns () w'" "FILE_UPDATED \<in> set (h_out w')" "h_out w = []"
  shows "quiet e w' \<and> fs_lookup (w_disk w') (file_path e user (fu_filename (r_file_update r))) = None \<and>
    (\<forall>u n. findFile (w_shared w') u n =
      (if u = user \<and> n = fu_filename (r_file_update r) then None else findFile (w_shared w) u n))"
proof -
  let ?n = "fu_filename (r_file_update r)" and ?k = "FileChangeTransaction user (fu_filename (r_file_update r)) True [CHR 0x00]"
  have ok: "state_inv (w_shared w)" "env_ok e" "user_ok user"
    using assms(1,2) mirrorsD(2) [of e "w_disk w" "w_shared w" user]
    by (auto simp: quiet_def server_ok_def hasUser_def user_stored_def)
  have "tm.reports e ?k FILE_UPDATED ''Error deleting file'' w w'"
    by (rule tm.delete_reports [OF assms(1-5)])
  then have q: "quiet e w'" and "committed e ?k w w'"
    using assms(6,7) by (auto simp: tm.reports_def reply_of_def split: if_splits)
  then obtain tid where t: "txn_effect e tid ?k (w_shared w) = Some (w_shared w')"
    "fs_lookup (w_disk w') = committed_view e ?k tid (fs_lookup (w_disk w))"
    by (auto simp: committed_def)
  have "file_path e user ?n \<noteq> tid_path e"
    using tid_paths_differ(5) [OF ok(2), of "tid_path e" user ?n] ok(3) assms(3) by simp
  then show ?thesis
    using q t(2) effect_files [OF ok(1) t(1)] by (simp add: committed_view_def published_view_def)
qed

text \<open>A logout that the server reported as done ends one session.\<close>

lemma logout_ended:
  assumes "quiet e w" "handleLogout (serveTransaction e) i w = Returns () w'" "LOGIN_OK None \<in> set (h_out w')" "h_out w = []"
  shows "quiet e w' \<and> \<not> isSessionValid (w_shared w') i \<and>
    (\<forall>j. to_int32 j \<noteq> to_int32 i \<longrightarrow> isSessionValid (w_shared w') j = isSessionValid (w_shared w) j \<and>
      getUserFromSesssion (w_shared w') j = getUserFromSesssion (w_shared w) j)"
proof -
  let ?k = "RemoveSessionTransaction (to_int32 i)"
  have "tm.reports e ?k (LOGIN_OK None) ''Error removing session'' w w'"
    by (rule tm.logout_reports [OF assms(1,2)])
  then have q: "quiet e w'" and "committed e ?k w w'"
    using assms(3,4) by (auto simp: tm.reports_def reply_of_def split: if_splits)
  then obtain tid where "txn_effect e tid ?k (w_shared w) = Some (w_shared w')"
    by (auto simp: committed_def)
  then have "w_shared w' = setUserLastTid [] tid (removeSession (to_int32 i) (setLastTid tid (w_shared w)))"
    by (simp add: txn_effect_def kind_effect_def split: if_splits)
  then have "logged_user_sessions (w_shared w') = sm_erase (to_int32 i) (logged_user_sessions (w_shared w))"
    by (simp add: sessions_frame removeSession_def)
  then show ?thesis
    using q by (auto simp: isSessionValid_iff getUserFromSesssion_def sm.find_erase)
qed

text \<open>The \<open>upload\<close> command sends the file, the digest that the server computes, and the path.\<close>

lemma upload_sends:
  assumes "fs_lookup (c_disk w) (resolve path) = Some (File c)" "c_replies w = x # rest"
  shows "\<exists>r. upload e path w = Returns () (w\<lparr>c_sent := c_sent w @ [(c_session w, r)], c_replies := rest\<rparr>) \<and>
    r_type r = UPLOAD \<and> r_data r = c \<and> fu_filename (r_data_file r) = path \<and>
    fu_hash (r_data_file r) = content_hash (env_xxh64 e) c"
  using assms
  by (intro exI [of _ "(new_request UPLOAD)\<lparr>r_data := c,
      r_data_file := \<lparr>fu_filename = path, fu_deleted = False, fu_hash = content_hash (env_xxh64 e) c\<rparr>\<rparr>"])
    (simp add: upload_def read_all_def cpp_simps request_response_simp new_request_def fs_exists_def fs_read_def
      hash_of_def digest_of_file)

section \<open>Updates\<close>

text \<open>
  The parts of the client's world that an update leaves alone, whatever the answer is: all
  but the file itself and the log.
\<close>

definition elsewhere :: "path \<Rightarrow> 'a client_world_scheme \<Rightarrow> 'a client_world_scheme \<Rightarrow> bool" where
  "elsewhere p w w' \<longleftrightarrow>
     (\<forall>q. q \<noteq> p \<longrightarrow> fs_lookup (c_disk w') q = fs_lookup (c_disk w) q) \<and> sm_inv (c_disk w') \<and>
     c_syncDirPath w' = c_syncDirPath w \<and> c_session w' = c_session w \<and> c_notExit w' = c_notExit w \<and> \<not> c_mute w'"

lemma fs_write_elsewhere:
  "sm_inv d \<Longrightarrow> q \<noteq> p \<Longrightarrow> fs_lookup (fs_write p c d) q = fs_lookup d q"
  "sm_inv d \<Longrightarrow> sm_inv (fs_write p c d)"
  by (auto simp: fs_write_def fs_lookup_def sm.find_assign sm.inv_assign)

lemma fs_remove_elsewhere:
  assumes "fs_remove p d = Some d'" "sm_inv d"
  shows "q \<noteq> p \<Longrightarrow> fs_lookup d' q = fs_lookup d q" "sm_inv d'"
  using assms by (auto simp: fs_remove_def fs_lookup_def sm.find_erase sm.inv_erase split: option.splits node.splits if_splits)

lemma applyUpdate_elsewhere:
  assumes "applyUpdate e u w = Returns () w'" "sm_inv (c_disk w)"
  shows "elsewhere (sync_path w (fu_filename u)) w w'"
proof (cases "fu_deleted u")
  case True
  with assms show ?thesis
    by (cases "fs_remove (sync_path w (fu_filename u)) (c_disk w)")
      (auto simp: applyUpdate_def set_mute_def cpp_simps elsewhere_def fs_remove_elsewhere)
next
  case False
  show ?thesis
  proof (cases "hash_of e (c_disk w) (sync_path w (fu_filename u)) = fu_hash u")
    case True
    with False assms show ?thesis
      by (auto simp: applyUpdate_def set_mute_def cpp_simps elsewhere_def)
  next
    case differs: False
    then obtain x rest where "c_replies w = x # rest"
      using assms(1) False
      by (cases "c_replies w") (auto simp: applyUpdate_def set_mute_def cpp_simps request_response_simp)
    with False differs assms show ?thesis
      by (auto simp: applyUpdate_def set_mute_def cpp_simps request_response_simp store_def elsewhere_def
          fs_write_elsewhere split: option.splits response.splits if_splits)
  qed
qed

text \<open>
  A client that is told of a file and downloads it from the server has a file with the
  announced digest; unless it had one before, it has the contents of the server.
\<close>

definition download_request :: "string \<Rightarrow> request" where
  "download_request n = (new_request DOWNLOAD)\<lparr>r_filename := n\<rparr>"

lemma update_synchronises:
  assumes "mirrors e (w_disk sw) (w_shared sw)" "state_wf (w_shared sw)"
    and "findFile (w_shared sw) user n = Some f" "can_send sw"
    and "sm_inv (c_disk w)" "can_write (c_disk w) (sync_path w n)"
    and "handleDownload e (download_request n) user sw = Returns () sw'" "h_out sw' = h_out sw @ [r]"
    and "c_replies w = Some r # rest"
  shows "\<exists>w' c. applyUpdate e (update_of f) w = Returns () w' \<and>
    fs_lookup (w_disk sw) (file_path e user n) = Some (File c) \<and>
    hash_of e (c_disk w') (sync_path w n) = content_hash (env_xxh64 e) c \<and>
    (hash_of e (c_disk w) (sync_path w n) = content_hash (env_xxh64 e) c \<or>
     fs_lookup (c_disk w') (sync_path w n) = Some (File c))"
proof -
  have inv: "state_inv (w_shared sw)" using assms(2) by simp
  have f: "uf_filename f = n" "\<not> uf_deleted f" using state_wf_file [OF assms(2,3)] by auto
  have has: "hasFile (w_shared sw) user (r_filename (download_request n))"
    using assms(3) by (simp add: hasFile_findFile download_request_def)
  obtain c where c: "fs_lookup (w_disk sw) (file_path e user n) = Some (File c)"
    "handleDownload e (download_request n) user sw =
      Returns () (with_reply sw (FILE_DATA_R n (content_hash (env_xxh64 e) c) c))"
    using download_found [OF assms(1) inv has] by (auto simp: download_request_def)
  then have r: "r = FILE_DATA_R n (content_hash (env_xxh64 e) c) c"
    using assms(4,7,8) by (simp add: with_reply_def reply_of_def)
  have hash: "uf_hash f = content_hash (env_xxh64 e) c"
    using mirrorsD(4) [OF assms(1) inv assms(3)] c(1) by (simp add: file_stored_def)
  let ?p = "sync_path w n"
  show ?thesis
  proof (cases "hash_of e (c_disk w) ?p = uf_hash f")
    case True
    then have "applyUpdate e (update_of f) w = Returns () (w\<lparr>c_mute := False\<rparr>)"
      using f by (simp add: applyUpdate_def set_mute_def cpp_simps update_of_def sync_path_def)
    with True c(1) hash show ?thesis by auto
  next
    case False
    let ?w' = "w\<lparr>c_disk := fs_write ?p c (c_disk w), c_sent := c_sent w @ [(c_session w, download_request n)],
      c_replies := rest, c_mute := False\<rparr>"
    have "applyUpdate e (update_of f) w = Returns () ?w'"
      using False f assms(6,9) r
      by (simp add: applyUpdate_def set_mute_def cpp_simps update_of_def request_response_simp store_def
          download_request_def sync_path_def)
    moreover have "fs_lookup (c_disk ?w') ?p = Some (File c)"
      using can_write_lookup [OF assms(5,6)] by simp
    moreover from this have "hash_of e (c_disk ?w') ?p = content_hash (env_xxh64 e) c"
      by (simp add: hash_of_def digest_of_file)
    ultimately show ?thesis using c(1) by blast
  qed
qed

text \<open>A server can make the client write anywhere: the name of an update is not checked.\<close>

lemma update_escapes:
  assumes "plain_name dir" "plain_name n"
  shows "sync_path (w\<lparr>c_syncDirPath := base @ ''/'' @ dir\<rparr>) (''../'' @ n) = resolve (base @ ''/'' @ n)"
proof -
  have "sync_path (w\<lparr>c_syncDirPath := base @ ''/'' @ dir\<rparr>) (''../'' @ n) = resolve ((base @ ''/'' @ dir) @ ''/..'' @ ''/'' @ n)"
    by (simp add: sync_path_def)
  also have "\<dots> = resolve base @ [n]"
    using resolve_append_plain [OF assms(2), of "(base @ ''/'' @ dir) @ ''/..''"]
      resolve_append_plain [OF assms(1), of base] resolve_append [of "base @ ''/'' @ dir" "''..''"]
    by (simp add: push_name_def)
  finally show ?thesis using resolve_append_plain [OF assms(2), of base] by simp
qed

section \<open>The watcher\<close>

text \<open>
  When the server already has the file, the watcher returns: the events behind it in the
  buffer are lost.
\<close>

lemma events_lost:
  assumes "\<not> c_mute w" "c_mute_reads w = []" "c_replies w = Some FILE_UPDATED # rest"
  shows "verifica_modificacao e (CloseWrite f # events) w = verifica_modificacao e [CloseWrite f] w"
    and "\<exists>r. verifica_modificacao e (CloseWrite f # events) w =
      Returns () (w\<lparr>c_sent := c_sent w @ [(c_session w, r)], c_replies := rest\<rparr>)"
  using assms
  by (cases w, simp add: cpp_simps waitUnmuted_def announceChange_def request_response_simp)+

text \<open>
  \<open>muteUpdate\<close> delays an event, it does not drop it: the watcher spins while it is set, and
  for ever when it stays set.
\<close>

lemma mute_spins:
  assumes "c_mute w" "\<forall>b \<in> set (c_mute_reads w). b"
  shows "verifica_modificacao e (CloseWrite f # events) w = Blocks (w\<lparr>c_mute_reads := []\<rparr>)"
proof -
  have none: "dropWhile (\<lambda>b. b) (c_mute_reads w) = []" using assms(2) by (simp add: dropWhile_eq_Nil_conv)
  have "waitUnmuted w = Blocks (w\<lparr>c_mute_reads := []\<rparr>)"
    unfolding waitUnmuted_def none using assms(1) by simp
  then show ?thesis by (simp add: cpp_simps)
qed

lemma mute_delays:
  assumes "c_mute_reads w = replicate k True @ False # reads"
  shows "verifica_modificacao e (CloseWrite f # events) w =
    verifica_modificacao e (CloseWrite f # events) (w\<lparr>c_mute_reads := False # reads\<rparr>)"
  using assms by (simp add: cpp_simps waitUnmuted_def dropWhile_append)

text \<open>A changed file that the server does not have is sent with its digest.\<close>

lemma change_sent:
  assumes "\<not> c_mute w" "c_mute_reads w = []" "fs_lookup (c_disk w) (sync_path w n) = Some (File c)"
    and "c_replies w = [Some SEND_FILE_DATA, Some FILE_UPDATED]"
  shows "\<exists>r. verifica_modificacao e [CloseWrite n] w =
      Returns () (w\<lparr>c_sent := c_sent w @ [(c_session w, r), (c_session w, file_data_request n (content_hash (env_xxh64 e) c) c)],
        c_replies := []\<rparr>) \<and>
    r_type r = FILE_UPDATE \<and> r_file_update r = \<lparr>fu_filename = n, fu_deleted = False, fu_hash = content_hash (env_xxh64 e) c\<rparr>"
  using assms
  by (cases w) (simp add: cpp_simps waitUnmuted_def announceChange_def request_response_simp read_all_def fs_read_def
      hash_of_def digest_of_file sync_path_def new_request_def)

text \<open>Without a watch on the directory the thread reads on, and announces nothing.\<close>

lemma unwatched_idle:
  assumes "fs_is_directory (c_disk w) (resolve (c_syncDirPath w))"
  shows "thread_monitoramento e False batches w = (if c_notExit w then Blocks w else Returns () w)"
proof -
  have "watchLoop e (map (\<lambda>_. []) batches) w = (if c_notExit w then Blocks w else Returns () w)"
  proof (induction batches)
    case Nil
    show ?case by (simp add: watchLoop.simps [of e "[]"] cpp_simps)
  next
    case (Cons b batches)
    then show ?case by (simp add: watchLoop.simps [of e "[] # map (\<lambda>_. []) batches"] cpp_simps)
  qed
  with assms show ?thesis by (simp add: thread_monitoramento_def getSyncDir_def seqC_case)
qed

section \<open>A new coordinator\<close>

text \<open>The session is kept: the client does not log in again.\<close>

lemma changeIP_keeps_session:
  assumes "isLogged w"
  shows "changeIP h p u pw ok w = Returns () (w\<lparr>c_connected := ok, c_hostname := h, c_port := p\<rparr>)"
  using assms by (cases w) (simp add: changeIP_def ClientConnection_def cpp_simps isLogged_def)

end
