(* ===== verification/Failover.thy ===== *)
theory Failover
  imports Manager_Correct
begin

text \<open>
  A change of coordinator: \<open>setIsCoordinator\<close> while a transaction is open, and the
  transaction ids that a former replica hands out.
\<close>

section \<open>setIsCoordinator\<close>

lemma setIsCoordinator_idle:
  "\<not> m_isTransactionActive w \<Longrightarrow> setIsCoordinator e b w = Returns () (w\<lparr>m_isCoordinator := b\<rparr>)"
  by (simp add: setIsCoordinator_def cpp_simps)

text \<open>
  A replica that has voted to commit and is told of a coordinator rolls back on its own; a
  result that arrives afterwards is obeyed in name only.
\<close>

lemma setIsCoordinator_voted:
  assumes "env_ok e" "disk_idle e (w_disk w)" "kind_ready e (fs_lookup (w_disk w)) k"
    and "fs_wf d" "fs_lookup d = prepared_view e k tid (fs_lookup (w_disk w))"
  shows "setIsCoordinator e b (voted_world w tid True d (prepared_txn k tid s)) =
    Returns () ((voted_world w tid True (w_disk w) (rolled_back_txn (prepared_txn k tid s)))
      \<lparr>m_isTransactionActive := False, m_isCoordinator := b\<rparr>)"
proof -
  let ?v = "voted_world w tid True d (prepared_txn k tid s)"
  have active: "m_isTransactionActive ?v" by (simp add: voted_world_def)
  from rollback_restores [OF assms(1,2), of ?v s tid] assms(3-5) have
    "rollback e ?v = Returns () (?v\<lparr>w_disk := w_disk w, w_txn := rolled_back_txn (w_txn ?v)\<rparr>)"
    by simp
  then show ?thesis
    using active by (cases w) (simp add: setIsCoordinator_def rollbackTransaction_def forceRollback_def cpp_simps,
      simp add: voted_world_def)
qed

lemma commit_after_takeover:
  assumes "w_txn w = rolled_back_txn (prepared_txn k tid s)"
  shows "obeyResult e True w = Returns True (w\<lparr>m_isTransactionActive := False\<rparr>)"
  using assms
  by (simp add: obeyResult_def commitTransaction_def commit_def cpp_simps rolled_back_txn_def)

section \<open>Transaction ids\<close>

text \<open>A replica's own counter does not follow the transactions it commits.\<close>

lemma receiveNewTransaction_counter:
  assumes "env_ok e" "replica_idle e w" "kind_ready e (fs_lookup (w_disk w)) k"
    and "txn_effect e tid k (w_shared w) = Some s'"
    and "receiveNewTransaction e (received k tid) rs w = Returns b v"
  shows "m_lastTid v = m_lastTid w \<and> \<not> m_isTransactionActive v \<and> (b \<longrightarrow> w_shared v = s')"
  using receiveNewTransaction_accepted [OF assms(1-4), of rs] assms(5)
  by (auto split: option.splits bool.splits)

lemma tid_reused:
  assumes "env_ok e" "replica_idle e w" "kind_ready e (fs_lookup (w_disk w)) k"
    and "txn_effect e tid k (w_shared w) = Some s'"
    and "receiveNewTransaction e (received k tid) rs w = Returns True v"
    and "setIsCoordinator e True v = Returns () u"
  shows "m_isCoordinator u \<and> next_tid u = next_tid w \<and> ss_last_tid (w_shared u) = tid"
proof -
  note v = receiveNewTransaction_counter [OF assms(1-5)]
  then have "u = v\<lparr>m_isCoordinator := True\<rparr>"
    using assms(6) setIsCoordinator_idle [of v e True] by simp
  with v txn_effect_last_tid [OF assms(4)] show ?thesis by (simp add: next_tid_def)
qed

end
