(* ===== verification/Server_Config.thy ===== *)
theory Server_Config
  imports Std_Map
begin

text \<open>
  The configuration file of a server: \<open>Server::getSyncerDirFromConfig\<close> and
  \<open>Server::loadConfig\<close> in \<open>src/server/Server.cpp\<close>, as functions from the text of
  \<open>config.txt\<close>.  What the code does with a malformed file is an error value: an exception
  of \<open>std::stoi\<close> or \<open>substr\<close>, or the use of fields that were never read.
\<close>

datatype config_error = InvalidArgument | OutOfRange | UninitialisedFields

record server_entry =
  se_host :: string
  se_adminPort :: int
  se_servicePort :: int
  se_transactionPort :: int

record config =
  cf_id :: int
  cf_port :: int
  cf_admin_port :: int
  cf_transaction_port :: int
  cf_host :: string
  cf_warmup :: int
  cf_dir :: string
  cf_servers :: "(int, server_entry) smap"

section \<open>Streams\<close>

text \<open>\<open>std::getline\<close> until the end of the file.\<close>

fun lines_of :: "string \<Rightarrow> string list" where
  "lines_of [] = []"
| "lines_of (c # cs) =
     (if c = CHR 0x0A then [] # lines_of cs
      else (case lines_of cs of
              [] \<Rightarrow> [[c]]
            | l # ls \<Rightarrow> (c # l) # ls))"

text \<open>\<open>iss >> word\<close>: the word and the rest of the stream.\<close>

definition next_word :: "string \<Rightarrow> string \<times> string" where
  "next_word s = (let t = dropWhile is_space s in
     (takeWhile (\<lambda>c. \<not> is_space c) t, dropWhile (\<lambda>c. \<not> is_space c) t))"

text \<open>\<open>iss >> i\<close>: \<open>None\<close> when no number can be read or it does not fit an \<open>int\<close>.\<close>

definition next_int :: "string \<Rightarrow> int option \<times> string" where
  "next_int s =
     (let t = dropWhile is_space s;
          negative = (t \<noteq> [] \<and> hd t = CHR ''-'');
          u = (if t \<noteq> [] \<and> (hd t = CHR ''-'' \<or> hd t = CHR ''+'') then tl t else t);
          ds = takeWhile is_digit u;
          v = (if negative then - int (digits_val ds) else int (digits_val ds))
      in (if ds = [] \<or> v < - (2 ^ 31) \<or> 2 ^ 31 \<le> v then None else Some v, dropWhile is_digit u))"

definition stoi :: "string \<Rightarrow> config_error + int" where
  "stoi s =
     (let t = dropWhile is_space s;
          u = (if t \<noteq> [] \<and> (hd t = CHR ''-'' \<or> hd t = CHR ''+'') then tl t else t)
      in if takeWhile is_digit u = [] then Inl InvalidArgument
         else (case fst (next_int s) of None \<Rightarrow> Inl OutOfRange | Some v \<Rightarrow> Inr v))"

section \<open>getSyncerDirFromConfig\<close>

definition is_comment :: "string \<Rightarrow> bool" where
  "is_comment line \<longleftrightarrow> line \<noteq> [] \<and> hd line = CHR ''#''"

fun syncerDir_from :: "string list \<Rightarrow> string" where
  "syncerDir_from [] = ''.syncer/''"
| "syncerDir_from (line # ls) =
     (if is_comment line then syncerDir_from ls
      else (case next_word line of (key, rest) \<Rightarrow>
        if key = ''syncer_dir:'' then fst (next_word rest) else syncerDir_from ls))"

definition getSyncerDirFromConfig :: "string \<Rightarrow> string" where
  "getSyncerDirFromConfig text = syncerDir_from (lines_of text)"

section \<open>loadConfig\<close>

text \<open>
  One line of \<open>other_servers_ip\<close>: id, host, service port, admin port and transaction
  port.  After a failed extraction the remaining variables stay uninitialised; only the last
  one is then 0.
\<close>

definition server_line :: "string \<Rightarrow> config_error + int \<times> server_entry" where
  "server_line line =
     (let l = takeWhile (\<lambda>c. c \<noteq> CHR ''#'') line in
      if length l < 2 then Inl OutOfRange
      else case next_int (drop 2 l) of
        (None, _) \<Rightarrow> Inl UninitialisedFields
      | (Some i, s1) \<Rightarrow>
          (case next_word s1 of (ip, s2) \<Rightarrow>
             if ip = [] then Inl UninitialisedFields
             else case next_int s2 of
               (None, _) \<Rightarrow> Inl UninitialisedFields
             | (Some sp, s3) \<Rightarrow>
                 (case next_int s3 of
                    (None, _) \<Rightarrow> Inl UninitialisedFields
                  | (Some ap, s4) \<Rightarrow>
                      (case next_int s4 of
                         (Some tp, _) \<Rightarrow> Inr (i, \<lparr>se_host = ip, se_adminPort = ap, se_servicePort = sp, se_transactionPort = tp\<rparr>)
                       | (None, _) \<Rightarrow> Inr (i, \<lparr>se_host = ip, se_adminPort = ap, se_servicePort = sp, se_transactionPort = 0\<rparr>)))))"

text \<open>\<open>servers.emplace\<close>: the first entry with an id stays.\<close>

fun load_servers :: "string list \<Rightarrow> config \<Rightarrow> config_error + config" where
  "load_servers [] cf = Inr cf"
| "load_servers (line # ls) cf =
     (if is_comment line \<or> line = [] then load_servers ls cf
      else case server_line line of
        Inl err \<Rightarrow> Inl err
      | Inr (i, entry) \<Rightarrow> load_servers ls (cf\<lparr>cf_servers := sm_emplace i entry (cf_servers cf)\<rparr>))"

definition set_number :: "(int \<Rightarrow> config \<Rightarrow> config) \<Rightarrow> string \<Rightarrow> config \<Rightarrow> config_error + config" where
  "set_number f value cf = (case stoi value of Inl err \<Rightarrow> Inl err | Inr v \<Rightarrow> Inr (f v cf))"

definition load_line :: "string \<Rightarrow> string \<Rightarrow> config \<Rightarrow> config_error + config" where
  "load_line key value cf =
     (if key = ''server_id:'' then set_number (\<lambda>v. cf_id_update (\<lambda>_. v)) value cf
      else if key = ''server_port:'' then set_number (\<lambda>v. cf_port_update (\<lambda>_. v)) value cf
      else if key = ''server_admin_port:'' then set_number (\<lambda>v. cf_admin_port_update (\<lambda>_. v)) value cf
      else if key = ''server_transaction_port:'' then set_number (\<lambda>v. cf_transaction_port_update (\<lambda>_. v)) value cf
      else if key = ''server_host:'' then Inr (cf\<lparr>cf_host := value\<rparr>)
      else if key = ''warmup_time:'' then set_number (\<lambda>v. cf_warmup_update (\<lambda>_. v mod 2 ^ 32)) value cf
      else if key = ''syncer_dir:'' then Inr (cf\<lparr>cf_dir := value\<rparr>)
      else Inr cf)"

fun load_lines :: "string list \<Rightarrow> config \<Rightarrow> config_error + config" where
  "load_lines [] cf = Inr cf"
| "load_lines (line # ls) cf =
     (if is_comment line then load_lines ls cf
      else case next_word line of (key, rest) \<Rightarrow>
        if key = ''other_servers_ip:'' then load_servers ls cf
        else case load_line key (fst (next_word rest)) cf of
          Inl err \<Rightarrow> Inl err
        | Inr cf' \<Rightarrow> load_lines ls cf')"

text \<open>The members' values before \<open>loadConfig\<close>; the directory is the one of the constructor.\<close>

definition initial_config :: "string \<Rightarrow> config" where
  "initial_config dir =
     \<lparr>cf_id = 0, cf_port = 0, cf_admin_port = 0, cf_transaction_port = 0, cf_host = [], cf_warmup = 15,
      cf_dir = dir, cf_servers = sm_empty\<rparr>"

definition loadConfig :: "string \<Rightarrow> config_error + config" where
  "loadConfig text = load_lines (lines_of text) (initial_config (getSyncerDirFromConfig text))"

section \<open>Reading back what is printed\<close>

lemma takeWhile_dropWhile_append:
  assumes "\<forall>c \<in> set w. P c" "t = [] \<or> \<not> P (hd t)"
  shows "takeWhile P (w @ t) = w \<and> dropWhile P (w @ t) = t"
  using assms by (cases t) (simp_all add: takeWhile_append2 dropWhile_append2)

definition is_word :: "string \<Rightarrow> bool" where
  "is_word w \<longleftrightarrow> w \<noteq> [] \<and> (\<forall>c \<in> set w. \<not> is_space c)"

lemma space_char [simp]: "is_space (CHR '' '')"
  by (simp add: is_space_def)

lemma next_word_print:
  assumes "is_word w" "t = [] \<or> is_space (hd t)"
  shows "next_word (CHR '' '' # w @ t) = (w, t)" "next_word (w @ t) = (w, t)"
proof -
  have "dropWhile is_space (w @ t) = w @ t" using assms(1) by (cases w) (auto simp: is_word_def)
  then show "next_word (w @ t) = (w, t)" "next_word (CHR '' '' # w @ t) = (w, t)"
    using takeWhile_dropWhile_append [of w "\<lambda>c. \<not> is_space c" t] assms
    by (auto simp: next_word_def Let_def is_word_def)
qed

lemma show_nat_chars: "c \<in> set (show_nat n) \<Longrightarrow> is_digit c \<and> \<not> is_space c \<and> c \<noteq> CHR ''-'' \<and> c \<noteq> CHR ''+'' \<and> c \<noteq> CHR ''#''"
proof -
  assume "c \<in> set (show_nat n)"
  then obtain d where d: "d < 10" "c = digit_char d" using show_nat_digits by blast
  moreover have "\<not> is_digit (CHR ''#'')" by (simp add: is_digit_def)
  ultimately show ?thesis using digit_char_props [of d] by metis
qed

lemma show_int_word: "is_word (show_int i)"
  using show_nat_chars by (auto simp: is_word_def show_int_def is_space_def)

lemma next_int_print:
  assumes "- (2 ^ 31) \<le> i" "i < 2 ^ 31" "t = [] \<or> is_space (hd t)"
  shows "next_int (show_int i @ t) = (Some i, t)" "next_int (CHR '' '' # show_int i @ t) = (Some i, t)"
proof -
  let ?n = "nat \<bar>i\<bar>"
  obtain c cs where n: "show_nat ?n = c # cs" by (cases "show_nat ?n") auto
  then have c: "is_digit c" "\<not> is_space c" "c \<noteq> CHR ''-''" "c \<noteq> CHR ''+''"
    using show_nat_chars [of c ?n] by auto
  have "t = [] \<or> \<not> is_digit (hd t)" using assms(3) by (auto simp: is_space_def is_digit_def)
  then have ds: "takeWhile is_digit (show_nat ?n @ t) = show_nat ?n" "dropWhile is_digit (show_nat ?n @ t) = t"
    using takeWhile_dropWhile_append [of "show_nat ?n" is_digit t] show_nat_chars by blast+
  have minus: "\<not> is_space (CHR ''-'')" by (simp add: is_space_def)
  show "next_int (show_int i @ t) = (Some i, t)"
  proof (cases "i < 0")
    case True
    then have "show_int i = CHR ''-'' # show_nat ?n" by (simp add: show_int_def)
    with True assms ds minus show ?thesis by (simp add: next_int_def Let_def digits_val_show_nat)
  next
    case False
    then have "show_int i = show_nat ?n" by (simp add: show_int_def)
    moreover have "dropWhile is_space (show_nat ?n @ t) = show_nat ?n @ t" using n c(2) by simp
    moreover have "hd (show_nat ?n @ t) \<noteq> CHR ''-''" "hd (show_nat ?n @ t) \<noteq> CHR ''+''" using n c by simp_all
    ultimately show ?thesis using False assms ds by (simp add: next_int_def Let_def digits_val_show_nat)
  qed
  then show "next_int (CHR '' '' # show_int i @ t) = (Some i, t)"
    by (simp add: next_int_def)
qed

text \<open>A server line in the documented format is read as it is written.\<close>

definition print_server :: "int \<Rightarrow> server_entry \<Rightarrow> string" where
  "print_server i s =
     ''- '' @ show_int i @ '' '' @ se_host s @ '' '' @ show_int (se_servicePort s) @ '' '' @
     show_int (se_adminPort s) @ '' '' @ show_int (se_transactionPort s)"

definition int32 :: "int \<Rightarrow> bool" where
  "int32 i \<longleftrightarrow> - (2 ^ 31) \<le> i \<and> i < 2 ^ 31"

lemma show_int_no_hash: "CHR ''#'' \<notin> set (show_int i)"
  using show_nat_chars by (auto simp: show_int_def)

lemma server_line_print:
  assumes "int32 i" "int32 (se_servicePort s)" "int32 (se_adminPort s)" "int32 (se_transactionPort s)"
    and "is_word (se_host s)" "CHR ''#'' \<notin> set (se_host s)" "comment = [] \<or> hd comment = CHR ''#''"
  shows "server_line (print_server i s @ comment) = Inr (i, s)"
proof -
  let ?l = "print_server i s"
  have no_hash: "\<forall>c \<in> set ?l. c \<noteq> CHR ''#''"
    using assms(6) show_int_no_hash by (auto simp: print_server_def)
  have cut: "takeWhile (\<lambda>c. c \<noteq> CHR ''#'') (?l @ comment) = ?l"
    using takeWhile_dropWhile_append [OF no_hash] assms(7) by auto
  note numbers = next_int_print [OF conjunct1 conjunct2, OF assms(1,1) [unfolded int32_def]]
    next_int_print [OF conjunct1 conjunct2, OF assms(2,2) [unfolded int32_def]]
    next_int_print [OF conjunct1 conjunct2, OF assms(3,3) [unfolded int32_def]]
    next_int_print(2) [OF conjunct1 conjunct2, OF assms(4,4) [unfolded int32_def], of "[]", simplified]
  have "drop 2 ?l = show_int i @ '' '' @ se_host s @ '' '' @ show_int (se_servicePort s) @ '' '' @
     show_int (se_adminPort s) @ '' '' @ show_int (se_transactionPort s)" "\<not> length ?l < 2"
    by (simp_all add: print_server_def)
  then show ?thesis
    using cut assms(5) by (simp add: server_line_def numbers next_word_print [OF assms(5)]) (simp add: is_word_def)
qed

end
