(* ===== verification/Server_Process.thy ===== *)
theory Server_Process
  imports Transaction_Manager Server_Config
begin

text \<open>
  \<open>src/server/Server.cpp\<close>, \<open>Replica.cpp\<close>, \<open>Election.cpp\<close> and
  \<open>admin/AdminRequestHandler.cpp\<close>: the table of replicas and their heartbeats, the choice
  of a coordinator, and the loop of \<open>Server::start\<close>.  Admin messages that are sent are a
  log; the answers to the heartbeats, and the messages that arrive while an election
  waits, are lists.
\<close>

datatype admin_msg =
    HEARTBEAT
  | ELECTION int
  | ELECTION_ANSWER int
  | ELECTION_COORDINATOR int
  | NEW_COORDINATOR string int

record election =
  el_highestAliveReply :: int
  el_victorious :: int

record server_world = mgr_world +
  sv_id :: int
  sv_port :: int
  sv_host :: string
  sv_isCoordinator :: bool
  sv_election :: "election option"
  sv_listening :: bool
  sv_admin_sent :: "(string \<times> int \<times> admin_msg) list"
  sv_heartbeats :: "admin_msg option list"
  sv_replies :: "admin_msg list"

section \<open>Replicas\<close>

definition replica_ids :: "'a mgr_world_scheme \<Rightarrow> int list" where
  "replica_ids w = map ri_id (m_replicas w)"

definition find_replica :: "int \<Rightarrow> 'a mgr_world_scheme \<Rightarrow> replica_info option" where
  "find_replica i w = find (\<lambda>r. ri_id r = i) (m_replicas w)"

definition change_replica ::
  "int \<Rightarrow> (replica_info \<Rightarrow> replica_info) \<Rightarrow> ('a server_world_scheme, unit) cpp" where
  "change_replica i f =
     modifyC (\<lambda>w. w\<lparr>m_replicas := map (\<lambda>r. if ri_id r = i then f r else r) (m_replicas w)\<rparr>)"

text \<open>\<open>servers.at(i)\<close>\<close>

definition getReplica :: "int \<Rightarrow> ('a server_world_scheme, replica_info) cpp" where
  "getReplica i w = (case find_replica i w of None \<Rightarrow> Throws w | Some r \<Rightarrow> Returns r w)"

definition send_admin :: "string \<Rightarrow> int \<Rightarrow> admin_msg \<Rightarrow> ('a server_world_scheme, unit) cpp" where
  "send_admin host port m = modifyC (\<lambda>w. w\<lparr>sv_admin_sent := sv_admin_sent w @ [(host, port, m)]\<rparr>)"

definition send_replica :: "replica_info \<Rightarrow> admin_msg \<Rightarrow> ('a server_world_scheme, unit) cpp" where
  "send_replica r m = send_admin (ri_host r) (ri_adminPort r) m"

text \<open>The answer to a heartbeat; none within the timeout when the list is exhausted.\<close>

definition next_heartbeat :: "('a server_world_scheme, admin_msg option) cpp" where
  "next_heartbeat w =
     (case sv_heartbeats w of
        [] \<Rightarrow> Returns None w
      | h # rest \<Rightarrow> Returns h (w\<lparr>sv_heartbeats := rest\<rparr>))"

definition checkAliveBlocking :: "int \<Rightarrow> ('a server_world_scheme, bool) cpp" where
  "checkAliveBlocking i =
     bindC (getReplica i) (\<lambda>r.
       if \<not> ri_alive r then retC False
       else seqC (send_replica r HEARTBEAT)
         (bindC next_heartbeat (\<lambda>resp.
            case resp of
              None \<Rightarrow> seqC (change_replica i (ri_alive_update (\<lambda>_. False))) (retC False)
            | Some m \<Rightarrow> retC (m = HEARTBEAT))))"

definition checkAlive :: "int \<Rightarrow> ('a server_world_scheme, unit) cpp" where
  "checkAlive i = seqC (checkAliveBlocking i) (retC ())"

section \<open>The coordinator\<close>

definition inform_frontends :: "('a server_world_scheme, unit) cpp" where
  "inform_frontends =
     bindC (getC (\<lambda>w. w)) (\<lambda>w.
       forC (getFrontends (w_shared w)) (\<lambda>f.
         send_admin (fc_hostname f) (fc_port f) (NEW_COORDINATOR (sv_host w) (sv_port w))))"

definition startCoordinator :: "env \<Rightarrow> ('a server_world_scheme, unit) cpp" where
  "startCoordinator e =
     seqC (setIsCoordinator e True)
    (seqC inform_frontends
    (bindC (getC (\<lambda>w. w)) (\<lambda>w.
       seqC (forC (replica_ids w) (\<lambda>i.
               whenC (i \<noteq> m_coordinator_id w \<and> i \<noteq> sv_id w)
                 (forC (replica_ids w) (\<lambda>j. checkAlive j))))
         (bindC (getC sv_listening) (\<lambda>listening.
            if listening then retC () else modifyC (\<lambda>w. w\<lparr>sv_listening := True\<rparr>))))))"

definition setCoordinator :: "env \<Rightarrow> int \<Rightarrow> ('a server_world_scheme, unit) cpp" where
  "setCoordinator e i =
     bindC (getC sv_id) (\<lambda>own.
       seqC (modifyC (\<lambda>w. w\<lparr>m_coordinator_id := i, sv_isCoordinator := (i = own)\<rparr>))
      (seqC (setIsCoordinator e (i = own))
         (if i \<noteq> own
          then bindC (getReplica i) (\<lambda>r. change_replica i (ri_isCoordinator_update (\<lambda>_. True)))
          else startCoordinator e)))"

definition checkCoordinatorAlive :: "('a server_world_scheme, bool) cpp" where
  "checkCoordinatorAlive =
     bindC (getC (\<lambda>w. w)) (\<lambda>w.
       if m_coordinator_id w = -1 then retC False
       else if m_coordinator_id w = sv_id w then retC True
       else checkAliveBlocking (m_coordinator_id w))"

section \<open>Elections\<close>

definition on_election :: "(election \<Rightarrow> election) \<Rightarrow> ('a server_world_scheme, unit) cpp" where
  "on_election f w =
     (case sv_election w of
        None \<Rightarrow> Undefined UninitialisedPointer
      | Some el \<Rightarrow> Returns () (w\<lparr>sv_election := Some (f el)\<rparr>))"

definition see_election :: "(election \<Rightarrow> 'b) \<Rightarrow> ('a server_world_scheme, 'b) cpp" where
  "see_election f w =
     (case sv_election w of
        None \<Rightarrow> Undefined UninitialisedPointer
      | Some el \<Rightarrow> Returns (f el) w)"

definition receiveAnswer :: "int \<Rightarrow> election \<Rightarrow> election" where
  "receiveAnswer i el =
     (if i > el_highestAliveReply el then el\<lparr>el_highestAliveReply := i\<rparr> else el)"

definition receiveCoordinatorMessage :: "int \<Rightarrow> election \<Rightarrow> election" where
  "receiveCoordinatorMessage i el =
     (if el_victorious el = -1 then el\<lparr>el_victorious := i\<rparr> else el)"

text \<open>What can arrive while the election waits.\<close>

datatype election_event = Answered int | Announced int

definition deliver :: "election_event \<Rightarrow> election \<Rightarrow> election" where
  "deliver ev = (case ev of Answered i \<Rightarrow> receiveAnswer i | Announced i \<Rightarrow> receiveCoordinatorMessage i)"

definition getMoreImportantServers :: "'a server_world_scheme \<Rightarrow> replica_info list" where
  "getMoreImportantServers w = filter (\<lambda>r. ri_id r > sv_id w) (m_replicas w)"

definition highest_id :: "int \<Rightarrow> replica_info list \<Rightarrow> int" where
  "highest_id own rs = fold (\<lambda>r hi. if ri_id r > hi then ri_id r else hi) rs own"

text \<open>The messages of an election, over a connection to the admin port each.\<close>

definition informVictory :: "int \<Rightarrow> replica_info \<Rightarrow> ('a server_world_scheme, unit) cpp" where
  "informVictory own r = send_replica r (ELECTION_COORDINATOR own)"

definition informElection :: "int \<Rightarrow> replica_info \<Rightarrow> ('a server_world_scheme, unit) cpp" where
  "informElection own r = send_replica r (ELECTION own)"

lemma inform_simps [simp]:
  "informVictory own = (\<lambda>r. send_replica r (ELECTION_COORDINATOR own))"
  "informElection own = (\<lambda>r. send_replica r (ELECTION own))"
  by (simp_all add: fun_eq_iff informVictory_def informElection_def)

text \<open>
  The waits, of five seconds each, on what arrives until they end: an answer from a server
  with a higher id, or the announcement of a coordinator, ends the wait early.
\<close>

definition waitReply :: "election_event list \<Rightarrow> ('a server_world_scheme, unit) cpp" where
  [simp]: "waitReply replies = forC replies (\<lambda>ev. on_election (deliver ev))"

definition waitVictory :: "election_event list \<Rightarrow> ('a server_world_scheme, unit) cpp" where
  [simp]: "waitVictory announcements = forC announcements (\<lambda>ev. on_election (deliver ev))"

definition winElection :: "env \<Rightarrow> ('a server_world_scheme, unit) cpp" where
  "winElection e =
     bindC (getC sv_id) (\<lambda>own.
       seqC (on_election (el_victorious_update (\<lambda>_. own)))
      (seqC (setCoordinator e own)
      (bindC (getC m_replicas) (\<lambda>rs.
         seqC (forC rs (informVictory own))
           (startCoordinator e)))))"

text \<open>
  \<open>Election::startElection\<close>.  Each round lists what arrives during \<open>waitReply\<close> and what
  arrives during \<open>waitVictory\<close>; both waits also end by their timeouts.  Exhausted rounds
  stand for an election that goes on.
\<close>

fun runElection :: "env \<Rightarrow> (election_event list \<times> election_event list) list \<Rightarrow>
  ('a server_world_scheme, unit) cpp" where
  "runElection e rounds =
     bindC (getC (\<lambda>w. w)) (\<lambda>w.
       seqC (on_election (el_highestAliveReply_update (\<lambda>_. sv_id w)))
         (if highest_id (sv_id w) (m_replicas w) = sv_id w then winElection e
          else
            seqC (forC (getMoreImportantServers w) (informElection (sv_id w)))
              (case rounds of
                 [] \<Rightarrow> blockC
               | (replies, announcements) # rest \<Rightarrow>
                   seqC (waitReply replies)
                     (bindC (see_election el_highestAliveReply) (\<lambda>hi.
                        if hi = sv_id w then winElection e
                        else
                          seqC (waitVictory announcements)
                            (bindC (see_election el_victorious) (\<lambda>v.
                               if v = -1 then runElection e rest else setCoordinator e v)))))))"

declare runElection.simps [simp del]

text \<open>\<open>Server::startElection\<close>; the nested call finds the election already started.\<close>

definition startElection ::
  "env \<Rightarrow> (election_event list \<times> election_event list) list \<Rightarrow> ('a server_world_scheme, unit) cpp" where
  "startElection e rounds =
     bindC (getC sv_election) (\<lambda>el.
       if el \<noteq> None then retC ()
       else
         seqC (modifyC (\<lambda>w. w\<lparr>sv_election := Some \<lparr>el_highestAliveReply = -1, el_victorious = -1\<rparr>\<rparr>))
        (seqC (runElection e rounds)
        (bindC (getC m_coordinator_id) (\<lambda>c.
           if c = -1 then retC () else modifyC (\<lambda>w. w\<lparr>sv_election := None\<rparr>)))))"

section \<open>Admin messages\<close>

definition handleHeartbeat :: "('a server_world_scheme, unit) cpp" where
  "handleHeartbeat = modifyC (\<lambda>w. w\<lparr>sv_replies := sv_replies w @ [HEARTBEAT]\<rparr>)"

definition handleElection ::
  "env \<Rightarrow> int \<Rightarrow> (election_event list \<times> election_event list) list \<Rightarrow> ('a server_world_scheme, unit) cpp" where
  "handleElection e sender rounds =
     bindC (getReplica sender) (\<lambda>r.
       bindC (getC sv_id) (\<lambda>own.
         seqC (send_replica r (ELECTION_ANSWER own))
           (bindC (getC sv_election) (\<lambda>el.
              if el = None then startElection e rounds else retC ()))))"

definition handleAdminRequest ::
  "env \<Rightarrow> admin_msg option \<Rightarrow> (election_event list \<times> election_event list) list \<Rightarrow>
    ('a server_world_scheme, unit) cpp" where
  "handleAdminRequest e msg rounds =
     (case msg of
        None \<Rightarrow> retC ()
      | Some HEARTBEAT \<Rightarrow> handleHeartbeat
      | Some (ELECTION sender) \<Rightarrow> handleElection e sender rounds
      | Some (ELECTION_ANSWER i) \<Rightarrow>
          bindC (getC sv_election) (\<lambda>el. if el \<noteq> None then on_election (receiveAnswer i) else retC ())
      | Some (ELECTION_COORDINATOR i) \<Rightarrow>
          bindC (getC sv_election) (\<lambda>el.
            if el \<noteq> None then on_election (receiveCoordinatorMessage i) else setCoordinator e i)
      | Some (NEW_COORDINATOR h p) \<Rightarrow> retC ())"

section \<open>The loop of a server\<close>

text \<open>One turn of the loop in \<open>Server::start\<close>; the threads of \<open>checkAlive\<close> run one by one.\<close>

definition serverTurn ::
  "env \<Rightarrow> (election_event list \<times> election_event list) list \<Rightarrow> ('a server_world_scheme, unit) cpp" where
  "serverTurn e rounds =
     bindC (getC (\<lambda>w. w)) (\<lambda>w.
       if m_coordinator_id w = -1 then startElection e rounds
       else if sv_isCoordinator w then forC (replica_ids w) (\<lambda>i. checkAlive i)
       else bindC checkCoordinatorAlive (\<lambda>alive. if \<not> alive then startElection e rounds else retC ()))"

text \<open>
  \<open>Server::start\<close> after the warm-up: the first election, then one turn for each list of
  rounds until \<open>stop\<close> clears \<open>isRunning\<close>.
\<close>

fun serverLoop ::
  "env \<Rightarrow> (election_event list \<times> election_event list) list list \<Rightarrow> ('a server_world_scheme, unit) cpp" where
  "serverLoop e [] = retC ()"
| "serverLoop e (rounds # turns) = seqC (serverTurn e rounds) (serverLoop e turns)"

definition serverStart ::
  "env \<Rightarrow> (election_event list \<times> election_event list) list \<Rightarrow>
    (election_event list \<times> election_event list) list list \<Rightarrow> ('a server_world_scheme, unit) cpp" where
  "serverStart e rounds turns =
     bindC (getC m_coordinator_id) (\<lambda>c.
       seqC (if c = -1 then startElection e rounds else retC ()) (serverLoop e turns))"

text \<open>\<open>Server::Server\<close>: the members after \<open>loadConfig\<close>.\<close>

definition replica_of :: "int \<times> server_entry \<Rightarrow> replica_info" where
  "replica_of p = (case p of (i, s) \<Rightarrow>
     \<lparr>ri_id = i, ri_host = se_host s, ri_adminPort = se_adminPort s, ri_servicePort = se_servicePort s,
      ri_transactionPort = se_transactionPort s, ri_isCoordinator = False, ri_alive = True\<rparr>)"

definition Server :: "config \<Rightarrow> world \<Rightarrow> server_world" where
  "Server cf w =
     mgr_world.extend (TransactionManager False w (map replica_of (cf_servers cf)) (-1))
       \<lparr>sv_id = cf_id cf, sv_port = cf_port cf, sv_host = cf_host cf, sv_isCoordinator = False,
        sv_election = None, sv_listening = False, sv_admin_sent = [], sv_heartbeats = [], sv_replies = []\<rparr>"

end
