(* ===== verification/Election_Correct.thy ===== *)
theory Election_Correct
  imports Server_Correct
begin

text \<open>
  The outcome of an election as a function of the messages that arrive (\<open>election_result\<close>),
  and the proof that \<open>runElection\<close> computes it and leaves the server with that
  coordinator.
\<close>

section \<open>The rule\<close>

text \<open>The state of the election after some messages.\<close>

definition after :: "election_event list \<Rightarrow> election \<Rightarrow> election" where
  "after evs el = fold deliver evs el"

definition somebody_higher :: "'a server_world_scheme \<Rightarrow> bool" where
  "somebody_higher w \<longleftrightarrow> (\<exists>r \<in> set (m_replicas w). sv_id w < ri_id r)"

fun election_result :: "int \<Rightarrow> int \<Rightarrow> (election_event list \<times> election_event list) list \<Rightarrow> int option" where
  "election_result own victorious [] = None"
| "election_result own victorious ((replies, announcements) # rest) =
     (let el = after replies \<lparr>el_highestAliveReply = own, el_victorious = victorious\<rparr> in
      if el_highestAliveReply el = own then Some own
      else let v = el_victorious (after announcements el) in
        if v = -1 then election_result own (-1) rest else Some v)"

lemma highest_after:
  "el_highestAliveReply (after evs el) = fold (\<lambda>ev h. case ev of Answered i \<Rightarrow> max h i | Announced i \<Rightarrow> h) evs (el_highestAliveReply el)"
  by (induction evs arbitrary: el)
    (auto simp: after_def deliver_def receiveAnswer_def receiveCoordinatorMessage_def max_def split: election_event.split)

text \<open>The own id stays the highest exactly when no higher server answers.\<close>

lemma highest_own:
  assumes "el_highestAliveReply el = own"
  shows "el_highestAliveReply (after evs el) = own \<longleftrightarrow> (\<forall>i. Answered i \<in> set evs \<longrightarrow> i \<le> own)"
proof -
  let ?f = "\<lambda>ev h. case ev of Answered i \<Rightarrow> max h i | Announced i \<Rightarrow> h"
  have "h \<le> fold ?f evs h \<and> (fold ?f evs h = h \<longleftrightarrow> (\<forall>i. Answered i \<in> set evs \<longrightarrow> i \<le> h))" for h
  proof (induction evs arbitrary: h)
    case Nil
    then show ?case by simp
  next
    case (Cons ev evs)
    show ?case
    proof (cases ev)
      case (Announced i)
      with Cons.IH [of h] show ?thesis by auto
    next
      case (Answered i)
      with Cons.IH [of "max h i"] show ?thesis by (cases "i \<le> h") (auto simp: max_def)
    qed
  qed
  with assms show ?thesis by (simp add: highest_after)
qed

text \<open>The first announcement wins.\<close>

lemma victorious_after:
  "el_victorious (after evs el) =
     (if el_victorious el \<noteq> -1 then el_victorious el
      else case filter (\<lambda>i. i \<noteq> -1) (concat (map (\<lambda>ev. case ev of Answered i \<Rightarrow> [] | Announced i \<Rightarrow> [i]) evs)) of
        [] \<Rightarrow> -1 | i # _ \<Rightarrow> i)"
  by (induction evs arbitrary: el)
    (auto simp: after_def deliver_def receiveAnswer_def receiveCoordinatorMessage_def split: election_event.split list.split)

lemma victorious_announced:
  "el_victorious (after evs el) \<noteq> el_victorious el \<Longrightarrow> Announced (el_victorious (after evs el)) \<in> set evs"
proof (induction evs arbitrary: el)
  case Nil
  then show ?case by (simp add: after_def)
next
  case (Cons ev evs)
  from Cons.IH [of "deliver ev el"] Cons.prems show ?case
    by (cases ev) (auto simp: after_def deliver_def receiveAnswer_def receiveCoordinatorMessage_def split: if_splits)
qed

lemma victorious_twice:
  "el_victorious (after bs (after as el)) = el_victorious el \<or>
    Announced (el_victorious (after bs (after as el))) \<in> set as \<union> set bs"
  by (metis Un_iff victorious_announced)

text \<open>
  The result is the own id after a round without a higher answer, or an id that was
  announced.
\<close>

lemma result_announced:
  assumes "election_result own vic rounds = Some c" "c \<noteq> own"
  shows "c = vic \<or> (\<exists>(replies, announcements) \<in> set rounds. Announced c \<in> set replies \<union> set announcements)"
  using assms
proof (induction own vic rounds rule: election_result.induct)
  case (1 own vic)
  then show ?case by simp
next
  case (2 own vic replies announcements rest)
  let ?el = "after replies \<lparr>el_highestAliveReply = own, el_victorious = vic\<rparr>"
  let ?v = "el_victorious (after announcements ?el)"
  have higher: "el_highestAliveReply ?el \<noteq> own" using "2.prems" by auto
  have known: "?v = vic \<or> Announced ?v \<in> set replies \<union> set announcements"
    using victorious_twice [of announcements replies "\<lparr>el_highestAliveReply = own, el_victorious = vic\<rparr>"] by simp
  show ?case
  proof (cases "?v = -1")
    case False
    with "2.prems" higher known show ?thesis by auto
  next
    case True
    with "2.prems" higher have "election_result own (-1) rest = Some c" by (simp add: Let_def)
    with "2.IH" [OF refl higher refl True _ "2.prems"(2)] have
      "c = -1 \<or> (\<exists>(replies, announcements) \<in> set rest. Announced c \<in> set replies \<union> set announcements)" by simp
    with True known show ?thesis by auto
  qed
qed

lemma own_wins:
  assumes "election_result own vic rounds = Some own" "vic \<noteq> own"
    and "\<forall>(replies, announcements) \<in> set rounds. Announced own \<notin> set replies \<union> set announcements"
  shows "\<exists>(replies, announcements) \<in> set rounds. \<forall>i. Answered i \<in> set replies \<longrightarrow> i \<le> own"
  using assms
proof (induction own vic rounds rule: election_result.induct)
  case (1 own vic)
  then show ?case by simp
next
  case (2 own vic replies announcements rest)
  let ?el = "after replies \<lparr>el_highestAliveReply = own, el_victorious = vic\<rparr>"
  let ?v = "el_victorious (after announcements ?el)"
  show ?case
  proof (cases "el_highestAliveReply ?el = own")
    case True
    then show ?thesis using highest_own [of "\<lparr>el_highestAliveReply = own, el_victorious = vic\<rparr>" own replies] by auto
  next
    case False
    have "?v = vic \<or> Announced ?v \<in> set replies \<union> set announcements"
      using victorious_twice [of announcements replies "\<lparr>el_highestAliveReply = own, el_victorious = vic\<rparr>"] by simp
    with "2.prems" False have v: "?v = -1" "election_result own (-1) rest = Some own"
      by (auto simp: Let_def split: if_splits)
    show ?thesis
    proof (cases "own = -1")
      case True
      with v(1) \<open>?v = vic \<or> _\<close> "2.prems"(2,3) show ?thesis by auto
    next
      case False
      with "2.IH" [OF refl \<open>el_highestAliveReply ?el \<noteq> own\<close> refl v(1) v(2)] "2.prems"(3) show ?thesis by auto
    qed
  qed
qed

section \<open>The server after an election\<close>

text \<open>A server whose coordinator is \<open>c\<close>; \<open>ids\<close> are the ids of its table.\<close>

definition led :: "int \<Rightarrow> int \<Rightarrow> int list \<Rightarrow> 'a server_world_scheme \<Rightarrow> bool" where
  "led c own ids w \<longleftrightarrow>
     m_coordinator_id w = c \<and> sv_isCoordinator w = (c = own) \<and> m_isCoordinator w = (c = own) \<and>
     sv_id w = own \<and> replica_ids w = ids \<and> \<not> m_isTransactionActive w \<and> sv_election w \<noteq> None"

lemma find_id: "i \<in> set (map ri_id rs) \<longleftrightarrow> (\<exists>r. find (\<lambda>r. ri_id r = i) rs = Some r \<and> ri_id r = i)"
  by (induction rs) auto

lemma find_replica_ids: "i \<in> set (replica_ids w) \<longleftrightarrow> (\<exists>r. find_replica i w = Some r \<and> ri_id r = i)"
  unfolding replica_ids_def find_replica_def by (rule find_id)

lemma led_updates [simp]:
  "led c own ids (w\<lparr>sv_admin_sent := x1\<rparr>) = led c own ids w" "led c own ids (w\<lparr>sv_heartbeats := x2\<rparr>) = led c own ids w"
  "led c own ids (w\<lparr>sv_listening := x3\<rparr>) = led c own ids w"
  by (simp_all add: led_def replica_ids_def)

lemma led_change:
  "(\<And>r. ri_id (f r) = ri_id r) \<Longrightarrow>
    led c own ids (w\<lparr>m_replicas := map (\<lambda>r. if ri_id r = i then f r else r) (m_replicas w)\<rparr>) = led c own ids w"
  by (auto simp: led_def replica_ids_def comp_def if_distrib [of ri_id] cong: if_cong)

lemma ends_checkAlive:
  assumes "led c own ids w" "i \<in> set ids"
  shows "ends (\<lambda>_. led c own ids) (checkAlive i) w"
proof -
  obtain r where r: "find_replica i w = Some r"
    using assms find_replica_ids [of i w] by (auto simp: led_def)
  have change: "ends (\<lambda>_. led c own ids) (change_replica i (ri_alive_update (\<lambda>_. False))) v" if "led c own ids v" for v
    unfolding change_replica_def by (rule ends_leaf) (use that in \<open>simp add: led_change\<close>)
  show ?thesis
  proof (cases "ri_alive r")
    case False
    with r assms show ?thesis by (simp add: checkAlive_def checkAliveBlocking_def ends_def cpp_simps getReplica_def)
  next
    case True
    let ?w = "w\<lparr>sv_admin_sent := sv_admin_sent w @ [(ri_host r, ri_adminPort r, HEARTBEAT)]\<rparr>"
    obtain h v where h: "next_heartbeat ?w = Returns h v" "led c own ids v"
      using assms(1) by (cases "sv_heartbeats w") (auto simp: next_heartbeat_def)
    obtain u where u: "change_replica i (ri_alive_update (\<lambda>_. False)) v = Returns () u" "led c own ids u"
      using change [OF h(2)] by (auto simp: ends_def)
    from True r h u show ?thesis
      by (cases h) (simp_all add: checkAlive_def checkAliveBlocking_def ends_def cpp_simps getReplica_def
          send_replica_def send_admin_def)
  qed
qed

lemma ends_when: "(b \<Longrightarrow> ends P m s) \<Longrightarrow> (\<not> b \<Longrightarrow> P () s) \<Longrightarrow> ends P (whenC b m) s"
  by (simp add: whenC_def ends_leaf)

lemma ends_send: "led c own ids w \<Longrightarrow> ends (\<lambda>_. led c own ids) (send_admin h p m) w"
  unfolding send_admin_def by (rule ends_leaf) simp

lemma ends_inform_frontends: "led c own ids w \<Longrightarrow> ends (\<lambda>_. led c own ids) inform_frontends w"
  unfolding inform_frontends_def by (intro ends_bind ends_leaf ends_for ends_send)

lemma setIsCoordinator_same:
  "\<not> m_isTransactionActive w \<Longrightarrow> setIsCoordinator e b w = Returns () (w\<lparr>m_isCoordinator := b\<rparr>)"
  by (simp add: setIsCoordinator_def cpp_simps)

lemma ends_startCoordinator:
  assumes "led own own ids w"
  shows "ends (\<lambda>_. led own own ids) (startCoordinator e) w"
proof -
  have start: "ends (\<lambda>_. led own own ids) (setIsCoordinator e True) w"
    using assms by (auto simp: ends_def setIsCoordinator_same led_def replica_ids_def)
  have probe: "ends (\<lambda>_. led own own ids) (forC (replica_ids v) (\<lambda>i. whenC (i \<noteq> m_coordinator_id v \<and> i \<noteq> sv_id v)
      (forC (replica_ids v) (\<lambda>j. checkAlive j)))) v" if "led own own ids v" for v
  proof (rule ends_for [where I = "led own own ids", OF _ that])
    fix i u
    assume u: "led own own ids u"
    have ids: "replica_ids v = ids" using that by (simp add: led_def)
    show "ends (\<lambda>_. led own own ids) (whenC (i \<noteq> m_coordinator_id v \<and> i \<noteq> sv_id v)
        (forC (replica_ids v) (\<lambda>j. checkAlive j))) u"
      unfolding ids by (intro ends_when ends_for ends_checkAlive u)
  qed
  have listen: "ends (\<lambda>_. led own own ids) (bindC (getC sv_listening) (\<lambda>listening.
      if listening then retC () else modifyC (\<lambda>w. w\<lparr>sv_listening := True\<rparr>))) v" if "led own own ids v" for v
    using that by (auto simp: ends_def cpp_simps)
  show ?thesis
    unfolding startCoordinator_def
    by (intro ends_seq ends_bind ends_mono [OF start] ends_mono [OF ends_inform_frontends] ends_leaf
        ends_mono [OF probe] listen)
qed

definition electable :: "'a server_world_scheme \<Rightarrow> bool" where
  "electable w \<longleftrightarrow> \<not> m_isTransactionActive w \<and> sv_election w \<noteq> None"

lemma setCoordinator_own:
  assumes "electable w"
  shows "ends (\<lambda>_. led (sv_id w) (sv_id w) (replica_ids w)) (setCoordinator e (sv_id w)) w"
proof -
  let ?v = "w\<lparr>m_coordinator_id := sv_id w, sv_isCoordinator := True, m_isCoordinator := True\<rparr>"
  have "led (sv_id w) (sv_id w) (replica_ids w) ?v"
    using assms by (simp add: led_def electable_def replica_ids_def)
  from ends_startCoordinator [OF this, of e] show ?thesis
    using assms by (cases w) (simp add: setCoordinator_def ends_def cpp_simps setIsCoordinator_same electable_def)
qed

lemma setCoordinator_other:
  assumes "electable w" "i \<noteq> sv_id w" "i \<in> set (replica_ids w)"
  shows "ends (\<lambda>_. led i (sv_id w) (replica_ids w)) (setCoordinator e i) w"
proof -
  let ?v = "w\<lparr>m_coordinator_id := i, sv_isCoordinator := False, m_isCoordinator := False\<rparr>"
  have led: "led i (sv_id w) (replica_ids w) ?v"
    using assms by (simp add: led_def electable_def replica_ids_def)
  obtain r where r: "find_replica i ?v = Some r"
    using assms(3) find_replica_ids [of i ?v] by (auto simp: replica_ids_def)
  have "ends (\<lambda>_. led i (sv_id w) (replica_ids w)) (change_replica i (ri_isCoordinator_update (\<lambda>_. True))) ?v"
    unfolding change_replica_def by (rule ends_leaf, rule led_change [THEN iffD2, OF _ led]) simp
  then show ?thesis
    using assms r by (cases w) (simp add: setCoordinator_def ends_def cpp_simps setIsCoordinator_same electable_def getReplica_def)
qed

text \<open>An id that is not in the table: the server has taken it for its coordinator, and throws.\<close>

lemma setCoordinator_unknown:
  assumes "\<not> m_isTransactionActive w" "i \<noteq> sv_id w" "i \<notin> set (replica_ids w)"
  shows "setCoordinator e i w =
    Throws (w\<lparr>m_coordinator_id := i, sv_isCoordinator := False, m_isCoordinator := False\<rparr>)"
proof -
  have "find_replica i (w\<lparr>m_coordinator_id := i, sv_isCoordinator := False, m_isCoordinator := False\<rparr>) = None"
    using assms(3) by (auto simp: find_replica_def replica_ids_def find_None_iff)
  with assms show ?thesis
    by (cases w) (simp add: setCoordinator_def cpp_simps setIsCoordinator_same getReplica_def)
qed

lemma winElection_leads:
  assumes "electable w"
  shows "ends (\<lambda>_. led (sv_id w) (sv_id w) (replica_ids w)) (winElection e) w"
proof -
  obtain el where el: "sv_election w = Some el" using assms by (auto simp: electable_def)
  let ?v = "w\<lparr>sv_election := Some (el\<lparr>el_victorious := sv_id w\<rparr>)\<rparr>"
  have "ends (\<lambda>_. led (sv_id w) (sv_id w) (replica_ids w)) (setCoordinator e (sv_id w)) ?v"
    using setCoordinator_own [of ?v e] assms by (simp add: electable_def replica_ids_def)
  moreover have "ends (\<lambda>_. led (sv_id w) (sv_id w) (replica_ids w)) (bindC (getC m_replicas) (\<lambda>rs.
         seqC (forC rs (\<lambda>r. send_replica r (ELECTION_COORDINATOR (sv_id w)))) (startCoordinator e))) u"
    if "led (sv_id w) (sv_id w) (replica_ids w) u" for u
    unfolding send_replica_def
    by (rule ends_bind, rule ends_leaf, rule ends_seq, rule ends_mono, rule ends_for [OF ends_send that])
      (auto intro: ends_startCoordinator)
  ultimately have "ends (\<lambda>_. led (sv_id w) (sv_id w) (replica_ids w))
      (seqC (setCoordinator e (sv_id w)) (bindC (getC m_replicas) (\<lambda>rs.
         seqC (forC rs (\<lambda>r. send_replica r (ELECTION_COORDINATOR (sv_id w)))) (startCoordinator e)))) ?v"
    by (intro ends_seq) (rule ends_mono)
  moreover have "winElection e w = seqC (setCoordinator e (sv_id w)) (bindC (getC m_replicas) (\<lambda>rs.
         seqC (forC rs (\<lambda>r. send_replica r (ELECTION_COORDINATOR (sv_id w)))) (startCoordinator e))) ?v"
    using el by (simp add: winElection_def bindC_def getC_simp seqC_case [of "on_election f" for f] on_election_def)
  ultimately show ?thesis by (simp only: ends_def)
qed

lemma highest_id_own: "highest_id own rs = own \<longleftrightarrow> (\<forall>r \<in> set rs. ri_id r \<le> own)"
proof -
  have "h \<le> highest_id h rs \<and> (highest_id h rs = h \<longleftrightarrow> (\<forall>r \<in> set rs. ri_id r \<le> h))" for h
  proof (induction rs arbitrary: h)
    case Nil
    then show ?case by (simp add: highest_id_def)
  next
    case (Cons r rs)
    from Cons.IH [of h] Cons.IH [of "ri_id r"] show ?case
      by (cases "ri_id r \<le> h") (auto simp: highest_id_def)
  qed
  then show ?thesis by blast
qed

lemma on_election_events:
  "sv_election w = Some el \<Longrightarrow>
    forC evs (\<lambda>ev. on_election (deliver ev)) w = Returns () (w\<lparr>sv_election := Some (after evs el)\<rparr>)"
  by (induction evs arbitrary: w el) (simp_all add: cpp_simps on_election_def after_def)

lemma send_all_replicas:
  "\<exists>sent. forC rs (\<lambda>r. send_replica r m) w = Returns () (w\<lparr>sv_admin_sent := sent\<rparr>)"
proof (induction rs arbitrary: w)
  case Nil
  show ?case by (rule exI [of _ "sv_admin_sent w"]) (simp add: cpp_simps)
next
  case (Cons r rs)
  let ?w = "w\<lparr>sv_admin_sent := sv_admin_sent w @ [(ri_host r, ri_adminPort r, m)]\<rparr>"
  obtain sent where "forC rs (\<lambda>r. send_replica r m) ?w = Returns () (?w\<lparr>sv_admin_sent := sent\<rparr>)"
    using Cons.IH by blast
  moreover have "forC (r # rs) (\<lambda>r. send_replica r m) w = forC rs (\<lambda>r. send_replica r m) ?w"
    by (simp only: forC.simps seqC_case) (simp add: send_replica_def send_admin_def modifyC_simp)
  ultimately show ?case by (intro exI [of _ sent]) simp
qed

text \<open>The highest server wins at once.\<close>

lemma runElection_highest:
  assumes "electable w" "\<not> somebody_higher w"
  shows "ends (\<lambda>_. led (sv_id w) (sv_id w) (replica_ids w)) (runElection e rounds) w"
proof -
  obtain el where el: "sv_election w = Some el" using assms(1) by (auto simp: electable_def)
  let ?v = "w\<lparr>sv_election := Some (el\<lparr>el_highestAliveReply := sv_id w\<rparr>)\<rparr>"
  have "highest_id (sv_id w) (m_replicas w) = sv_id w"
    using assms(2) by (auto simp: highest_id_own somebody_higher_def not_less)
  then have "runElection e rounds w = winElection e ?v"
    using el by (simp add: runElection.simps cpp_simps on_election_def)
  moreover have "ends (\<lambda>_. led (sv_id w) (sv_id w) (replica_ids w)) (winElection e) ?v"
    using winElection_leads [of ?v e] assms(1) by (simp add: electable_def replica_ids_def)
  ultimately show ?thesis by (simp add: ends_def)
qed

lemma runElection_round:
  assumes "sv_election w = Some el" "somebody_higher w"
  shows "\<exists>sent. runElection e ((replies, announcements) # rest) w =
    (let el1 = after replies (el\<lparr>el_highestAliveReply := sv_id w\<rparr>); el2 = after announcements el1;
         v = w\<lparr>sv_admin_sent := sent\<rparr> in
     if el_highestAliveReply el1 = sv_id w then winElection e (v\<lparr>sv_election := Some el1\<rparr>)
     else if el_victorious el2 = -1 then runElection e rest (v\<lparr>sv_election := Some el2\<rparr>)
     else setCoordinator e (el_victorious el2) (v\<lparr>sv_election := Some el2\<rparr>))"
proof -
  let ?el = "el\<lparr>el_highestAliveReply := sv_id w\<rparr>"
  let ?v = "w\<lparr>sv_election := Some ?el\<rparr>"
  have higher: "highest_id (sv_id w) (m_replicas w) \<noteq> sv_id w"
    using assms(2) by (fastforce simp: highest_id_own somebody_higher_def)
  obtain sent where sent: "forC (getMoreImportantServers w) (\<lambda>r. send_replica r (ELECTION (sv_id w))) ?v =
      Returns () (?v\<lparr>sv_admin_sent := sent\<rparr>)"
    using send_all_replicas by blast
  show ?thesis
    using assms(1) higher sent
    by (intro exI [of _ sent])
      (simp add: runElection.simps [of e "(replies, announcements) # rest"] cpp_simps on_election_def [of "el_highestAliveReply_update f" for f]
        on_election_events [of _ "?el"] on_election_events see_election_def Let_def)
qed

text \<open>How a call ends when the result of the election is \<open>r\<close>.\<close>

definition settles ::
  "int option \<Rightarrow> int \<Rightarrow> int list \<Rightarrow> ('a server_world_scheme, unit) cpp \<Rightarrow> 'a server_world_scheme \<Rightarrow> bool" where
  "settles r own ids m w \<longleftrightarrow>
     (case r of
        None \<Rightarrow> \<exists>v. m w = Blocks v
      | Some c \<Rightarrow>
          if c = own \<or> c \<in> set ids then ends (\<lambda>_. led c own ids) m w else \<exists>v. m w = Throws v)"

lemma settles_cong: "m w = m' w' \<Longrightarrow> settles r own ids m w = settles r own ids m' w'"
  by (simp add: settles_def ends_def split: option.split)

lemma settles_set:
  assumes "electable w"
  shows "settles (Some c) (sv_id w) (replica_ids w) (setCoordinator e c) w"
proof (cases "c = sv_id w")
  case True
  with setCoordinator_own [OF assms, of e] show ?thesis by (simp add: settles_def)
next
  case False
  then show ?thesis
    using setCoordinator_other [OF assms False] setCoordinator_unknown [of w c e] assms
    by (cases "c \<in> set (replica_ids w)") (auto simp: settles_def electable_def)
qed

text \<open>With a higher server, the election ends as the rule says.\<close>

theorem runElection_result:
  assumes "electable w" "somebody_higher w" "sv_election w = Some el"
  shows "settles (election_result (sv_id w) (el_victorious el) rounds) (sv_id w) (replica_ids w) (runElection e rounds) w"
  using assms
proof (induction rounds arbitrary: w el)
  case Nil
  let ?v = "w\<lparr>sv_election := Some (el\<lparr>el_highestAliveReply := sv_id w\<rparr>)\<rparr>"
  have "highest_id (sv_id w) (m_replicas w) \<noteq> sv_id w"
    using Nil.prems(2) by (fastforce simp: highest_id_own somebody_higher_def)
  moreover obtain sent where "forC (getMoreImportantServers w) (\<lambda>r. send_replica r (ELECTION (sv_id w))) ?v =
      Returns () (?v\<lparr>sv_admin_sent := sent\<rparr>)"
    using send_all_replicas by blast
  ultimately show ?case
    using Nil.prems(3) by (simp add: settles_def runElection.simps [of e "[]"] cpp_simps on_election_def)
next
  case (Cons round rounds)
  obtain replies announcements where round: "round = (replies, announcements)" by (cases round)
  let ?el1 = "after replies (el\<lparr>el_highestAliveReply := sv_id w\<rparr>)"
  let ?el2 = "after announcements ?el1"
  let ?result = "election_result (sv_id w) (el_victorious el) (round # rounds)"
  have same: "el\<lparr>el_highestAliveReply := sv_id w\<rparr> = \<lparr>el_highestAliveReply = sv_id w, el_victorious = el_victorious el\<rparr>"
    by (cases el) simp
  obtain sent where run: "runElection e (round # rounds) w =
    (let v = w\<lparr>sv_admin_sent := sent\<rparr> in
     if el_highestAliveReply ?el1 = sv_id w then winElection e (v\<lparr>sv_election := Some ?el1\<rparr>)
     else if el_victorious ?el2 = -1 then runElection e rounds (v\<lparr>sv_election := Some ?el2\<rparr>)
     else setCoordinator e (el_victorious ?el2) (v\<lparr>sv_election := Some ?el2\<rparr>))"
    using runElection_round [OF Cons.prems(3,2), of e replies announcements rounds] round by (auto simp: Let_def)
  let ?v1 = "w\<lparr>sv_admin_sent := sent, sv_election := Some ?el1\<rparr>" and ?v2 = "w\<lparr>sv_admin_sent := sent, sv_election := Some ?el2\<rparr>"
  have v: "electable ?v1" "electable ?v2" "somebody_higher ?v2" "sv_id ?v1 = sv_id w" "replica_ids ?v1 = replica_ids w"
    "sv_id ?v2 = sv_id w" "replica_ids ?v2 = replica_ids w" "sv_election ?v2 = Some ?el2"
    using Cons.prems(1,2) by (simp_all add: electable_def somebody_higher_def replica_ids_def)
  consider "el_highestAliveReply ?el1 = sv_id w"
    | "el_highestAliveReply ?el1 \<noteq> sv_id w" "el_victorious ?el2 = -1"
    | "el_highestAliveReply ?el1 \<noteq> sv_id w" "el_victorious ?el2 \<noteq> -1" by blast
  then show ?case
  proof cases
    case 1
    then have "?result = Some (sv_id w)" "runElection e (round # rounds) w = winElection e ?v1"
      using run round by (simp_all add: same [symmetric])
    with winElection_leads [OF v(1), of e] v(4,5) show ?thesis by (simp add: settles_def ends_def)
  next
    case 2
    then have "?result = election_result (sv_id w) (el_victorious ?el2) rounds"
      "runElection e (round # rounds) w = runElection e rounds ?v2"
      using run round by (simp_all add: same [symmetric] Let_def)
    with Cons.IH [OF v(2,3,8)] settles_cong [of "runElection e (round # rounds)" w] show ?thesis
      unfolding v(6,7) by metis
  next
    case 3
    then have "?result = Some (el_victorious ?el2)"
      "runElection e (round # rounds) w = setCoordinator e (el_victorious ?el2) ?v2"
      using run round by (simp_all add: same [symmetric])
    with settles_set [OF v(2), of "el_victorious ?el2" e] settles_cong [of "runElection e (round # rounds)" w] show ?thesis
      unfolding v(6,7) by metis
  qed
qed

text \<open>The whole election of a server that is not in one.\<close>

lemma startElection_run:
  assumes "sv_election w = None"
  shows "startElection e rounds w =
    (case runElection e rounds (w\<lparr>sv_election := Some \<lparr>el_highestAliveReply = -1, el_victorious = -1\<rparr>\<rparr>) of
       Returns x v \<Rightarrow> Returns () (if m_coordinator_id v = -1 then v else v\<lparr>sv_election := None\<rparr>)
     | Throws v \<Rightarrow> Throws v | Blocks v \<Rightarrow> Blocks v | Undefined u \<Rightarrow> Undefined u)"
  using assms by (simp add: startElection_def cpp_simps split: outcome.split)

lemma startElection_result:
  assumes "\<not> m_isTransactionActive w" "sv_election w = None" "somebody_higher w"
  shows "case election_result (sv_id w) (-1) rounds of
      None \<Rightarrow> \<exists>v. startElection e rounds w = Blocks v
    | Some c \<Rightarrow>
        if c = sv_id w \<or> c \<in> set (replica_ids w)
        then \<exists>v. startElection e rounds w = Returns () v \<and> m_coordinator_id v = c \<and> sv_isCoordinator v = (c = sv_id w) \<and>
          m_isCoordinator v = (c = sv_id w) \<and> replica_ids v = replica_ids w \<and> (c \<noteq> -1 \<longrightarrow> sv_election v = None)
        else \<exists>v. startElection e rounds w = Throws v"
proof -
  let ?w = "w\<lparr>sv_election := Some \<lparr>el_highestAliveReply = -1, el_victorious = -1\<rparr>\<rparr>"
  have "settles (election_result (sv_id w) (-1) rounds) (sv_id w) (replica_ids w) (runElection e rounds) ?w"
    using runElection_result [of ?w _ rounds e] assms by (simp add: electable_def somebody_higher_def replica_ids_def)
  then show ?thesis
    unfolding startElection_run [OF assms(2)]
    by (auto simp: settles_def ends_def led_def replica_ids_def split: option.splits if_splits)
qed

lemma election_result_id: "election_result own vic rounds = Some (-1) \<Longrightarrow> own = -1"
  by (induction own vic rounds rule: election_result.induct) (auto simp: Let_def split: if_splits)

lemma startElection_justified:
  assumes "\<not> m_isTransactionActive w" "sv_election w = None" "somebody_higher w" "sv_id w \<noteq> -1"
    and "startElection e rounds w = Returns () v"
  shows "(\<exists>(replies, announcements) \<in> set rounds. Announced (m_coordinator_id v) \<in> set replies \<union> set announcements) \<or>
    m_coordinator_id v = sv_id w \<and> (\<exists>(replies, announcements) \<in> set rounds. \<forall>i. Answered i \<in> set replies \<longrightarrow> i \<le> sv_id w)"
proof -
  obtain c where c: "election_result (sv_id w) (-1) rounds = Some c" "m_coordinator_id v = c"
    using startElection_result [OF assms(1-3), where rounds = rounds and e = e] assms(5)
    by (auto split: option.splits if_splits)
  show ?thesis
  proof (cases "c = sv_id w \<and> (\<forall>(replies, announcements) \<in> set rounds. Announced c \<notin> set replies \<union> set announcements)")
    case True
    then have own: "c = sv_id w" and
      quiet: "\<forall>(replies, announcements) \<in> set rounds. Announced (sv_id w) \<notin> set replies \<union> set announcements"
      by auto
    from own_wins [OF _ _ quiet, of "-1"] c(1) assms(4) own
    have "\<exists>(replies, announcements) \<in> set rounds. \<forall>i. Answered i \<in> set replies \<longrightarrow> i \<le> sv_id w" by simp
    with own c(2) show ?thesis by blast
  next
    case False
    moreover have "c \<noteq> -1" using election_result_id c(1) assms(4) by blast
    ultimately have "\<exists>(replies, announcements) \<in> set rounds. Announced c \<in> set replies \<union> set announcements"
      using result_announced [OF c(1)] by blast
    with c(2) show ?thesis by blast
  qed
qed

end
