(* ===== verification/Transaction_Handler.thy ===== *)
theory Transaction_Handler
  imports Manager_Correct
begin

text \<open>
  \<open>src/server/transactions/TransactionRequestHandler.cpp\<close>: the messages that the servers
  exchange for a transaction.  A handler runs on the manager of its server and on its own
  socket: the message that arrives, the outcome of each \<open>send\<close> and whether it is open; an
  exhausted list of outcomes stands for sends that succeed.
\<close>

record txn_socket_world = mgr_world +
  th_in :: "outer_msg option"
  th_sends :: "bool list"
  th_out :: "outer_msg list"
  th_open :: bool

definition sendOuter :: "outer_msg \<Rightarrow> ('a txn_socket_world_scheme, bool) cpp" where
  "sendOuter m w =
     (if \<not> th_open w then Returns False w
      else (case th_sends w of
              [] \<Rightarrow> Returns True (w\<lparr>th_out := th_out w @ [m]\<rparr>)
            | True # rest \<Rightarrow> Returns True (w\<lparr>th_sends := rest, th_out := th_out w @ [m]\<rparr>)
            | False # rest \<Rightarrow> Returns False (w\<lparr>th_sends := rest\<rparr>)))"

text \<open>
  \<open>TransactionRequestHandler::handleRequest\<close>; \<open>results\<close> are the results that other
  handlers deliver while \<open>receiveNewTransaction\<close> waits.  A message whose transaction type is
  not one of the five does not parse.
\<close>

definition handleTransactionRequest ::
  "env \<Rightarrow> (bool \<times> int) list \<Rightarrow> ('a txn_socket_world_scheme, unit) cpp" where
  "handleTransactionRequest e results =
     bindC (getC th_in) (\<lambda>msg.
       case msg of
         None \<Rightarrow> modifyC (\<lambda>w. w\<lparr>th_open := False\<rparr>)
       | Some (TransactionMsg m) \<Rightarrow>
           bindC (sendOuter OkAckMsg) (\<lambda>sent.
             if \<not> sent then retC ()
             else seqC (receiveNewTransaction e (receivedTransaction m) results) (retC ()))
       | Some (VoteMsg v tid) \<Rightarrow>
           seqC (addVote (v = COMMIT_VOTE) tid) (seqC (sendOuter OkAckMsg) (retC ()))
       | Some (ResultMsg v tid) \<Rightarrow>
           seqC (receiveResult (v = COMMIT_VOTE) tid) (seqC (sendOuter OkAckMsg) (retC ()))
       | Some OkAckMsg \<Rightarrow> retC ())"

section \<open>What the handler does\<close>

definition acks :: "'a txn_socket_world_scheme \<Rightarrow> bool" where
  "acks w \<longleftrightarrow> th_open w \<and> (th_sends w = [] \<or> hd (th_sends w))"

definition after_ack :: "'a txn_socket_world_scheme \<Rightarrow> 'a txn_socket_world_scheme" where
  "after_ack w =
     (if th_open w then w\<lparr>th_sends := tl (th_sends w), th_out := th_out w @ (if acks w then [OkAckMsg] else [])\<rparr>
      else w)"

lemma sendOuter_ack: "sendOuter OkAckMsg w = Returns (acks w) (after_ack w)"
proof (cases "th_sends w")
  case Nil
  then show ?thesis by (cases w) (simp add: sendOuter_def acks_def after_ack_def)
next
  case (Cons b rest)
  then show ?thesis by (cases b) (simp_all add: sendOuter_def acks_def after_ack_def)
qed

lemma after_ack_manager [simp]:
  "m_isCoordinator (after_ack w) = m_isCoordinator w" "m_isTransactionActive (after_ack w) = m_isTransactionActive w"
  "w_disk (after_ack w) = w_disk w" "w_shared (after_ack w) = w_shared w" "w_txn (after_ack w) = w_txn w"
  "m_coordinator_id (after_ack w) = m_coordinator_id w" "m_replicas (after_ack w) = m_replicas w"
  "m_hasResult (after_ack w) = m_hasResult w" "m_result (after_ack w) = m_result w" "m_sent (after_ack w) = m_sent w"
  by (simp_all add: after_ack_def)

lemma replica_idle_ack [simp]: "replica_idle e (after_ack w) = replica_idle e w"
  by (simp add: replica_idle_def)

lemma result_seen_ack [simp]: "result_seen (after_ack w) tid rs = result_seen w tid rs"
  by (simp add: result_seen_def)

text \<open>A transaction that cannot be acknowledged is dropped; the replica does not vote.\<close>

lemma unacknowledged_dropped:
  assumes "th_in w = Some (TransactionMsg m)" "\<not> acks w"
  shows "handleTransactionRequest e results w = Returns () (after_ack w)"
  using assms by (simp add: handleTransactionRequest_def cpp_simps sendOuter_ack)

text \<open>The message of the coordinator makes an idle replica vote and obey the result.\<close>

lemma replica_serves:
  assumes "env_ok e" "replica_idle e w" "kind_ready e (fs_lookup (w_disk w)) k"
    and "txn_effect e tid k (w_shared w) = Some s'"
    and "th_in w = Some (txn_message k tid)" "acks w"
  shows "case result_seen w tid results of
      Some True \<Rightarrow> \<exists>d t. handleTransactionRequest e results w = Returns () (obeyed_world (after_ack w) tid True True d t s') \<and>
        fs_wf d \<and> fs_lookup d = committed_view e k tid (fs_lookup (w_disk w))
    | Some False \<Rightarrow> \<exists>t. handleTransactionRequest e results w =
        Returns () (obeyed_world (after_ack w) tid True False (w_disk w) t (w_shared w))
    | None \<Rightarrow> \<exists>d. handleTransactionRequest e results w =
        Blocks (voted_world (after_ack w) tid True d (prepared_txn k tid s'))"
proof -
  obtain m where m: "txn_message k tid = TransactionMsg m" by (simp add: txn_message_def)
  have run: "handleTransactionRequest e results w =
      seqC (receiveNewTransaction e (received k tid) results) (retC ()) (after_ack w)"
    using assms(5,6) m received_txn_message [OF m]
    by (simp add: handleTransactionRequest_def cpp_simps sendOuter_ack)
  from receiveNewTransaction_accepted [of e "after_ack w" k tid s' results] assms(1-4)
  show ?thesis
    unfolding run seqC_case by (auto split: option.splits bool.splits simp: retC_simp) blast
qed

text \<open>
  A vote or a result that reaches a server before its first transaction is compared with
  the tid of a transaction that does not exist.
\<close>

lemma stray_message:
  assumes "\<not> m_activeSet w" "th_in w \<in> {Some (VoteMsg v tid), Some (ResultMsg v tid)}"
  shows "handleTransactionRequest e results w = Undefined UninitialisedPointer"
  using assms by (auto simp: handleTransactionRequest_def cpp_simps addVote_def receiveResult_def)

text \<open>A vote or a result for another transaction is acknowledged and has no other effect.\<close>

lemma other_transaction_ignored:
  assumes "m_activeSet w" "tid \<noteq> t_tid (w_txn w)" "th_in w \<in> {Some (VoteMsg v tid), Some (ResultMsg v tid)}"
  shows "handleTransactionRequest e results w = Returns () (after_ack w)"
  using assms by (auto simp: handleTransactionRequest_def cpp_simps addVote_def receiveResult_def sendOuter_ack)

text \<open>
  The votes are not tied to their senders: a replica that repeats its vote is counted
  again.
\<close>

lemma vote_repeated:
  assumes "m_activeSet w" "th_in w = Some (VoteMsg COMMIT_VOTE (t_tid (w_txn w)))" "m_votes w \<noteq> -1"
    and "handleTransactionRequest e [] w = Returns () v" "handleTransactionRequest e [] v = Returns () u"
    and "m_votes w + 1 \<noteq> -1"
  shows "m_votes u = m_votes w + 2"
proof -
  have step: "m_votes y = m_votes x + 1 \<and> m_activeSet y \<and> th_in y = th_in x \<and> w_txn y = w_txn x"
    if "m_activeSet x" "th_in x = Some (VoteMsg COMMIT_VOTE (t_tid (w_txn x)))" "m_votes x \<noteq> -1"
      "handleTransactionRequest e [] x = Returns () y" for x y
    using that by (auto simp: handleTransactionRequest_def cpp_simps addVote_def sendOuter_ack count_vote_def after_ack_def)
  from step [OF assms(1-4)] step [of v u] assms(2,5,6) show ?thesis by simp
qed

end
