(* ===== verification/Examples.thy ===== *)
theory Examples
  imports Client_Correct Two_Phase_Progress Failover Election_Correct Transaction_Handler
begin

text \<open>
  A small installation: one user with one file, a coordinator and a replica.  The facts on
  it discharge the hypotheses of the properties at concrete inputs.
\<close>

definition ex_env :: env where
  "ex_env = \<lparr>env_home = ''/h'', env_serverDir = ''s/'', env_xxh64 = (\<lambda>_. 0x1122334455667788)\<rparr>"

definition ex_state :: server_state where
  "ex_state =
     \<lparr>senhas = [(''ana'', ''pw'')], logged_user_sessions = [(7, ''ana'')], users_last_tid = [(''ana'', 1)],
      user_files = [(''ana'', [(''a.txt'', \<lparr>uf_filename = ''a.txt'', uf_hash = digest_to_string 0x1122334455667788,
        uf_last_tid = 2, uf_size = 3, uf_deleted = False\<rparr>)])],
      frontend_connections = [], ss_last_tid = 2\<rparr>"

definition ex_disk :: disk where
  "ex_disk =
     [([''h''], Dir), ([''h'', ''s''], Dir), ([''h'', ''s'', ''ana''], Dir),
      ([''h'', ''s'', ''ana'', ''.password''], File ''pw''),
      ([''h'', ''s'', ''ana'', ''a.txt''], File ''abc''), ([''h'', ''s'', ''tid''], File ''2'')]"

definition ex_replica :: "int \<Rightarrow> replica_info" where
  "ex_replica i =
     \<lparr>ri_id = i, ri_host = ''r'', ri_adminPort = 1, ri_servicePort = 2, ri_transactionPort = 3,
      ri_isCoordinator = False, ri_alive = True\<rparr>"

definition ex_world :: world where
  "ex_world = \<lparr>w_disk = ex_disk, w_shared = ex_state, w_txn = new_transaction (NewFrontendTransaction [] 0)\<rparr>"

text \<open>The coordinator, number 1, and the replica, number 2.\<close>

definition ex_coord :: mgr_world where
  "ex_coord = (TransactionManager True ex_world [ex_replica 2] 1)"

definition ex_rep :: mgr_world where
  "ex_rep = (TransactionManager False ex_world [ex_replica 1] 1)"

section \<open>The facts\<close>

lemma fs_wf_entries:
  assumes "sm_inv d" "sm_find d [] = None" "\<forall>(p, x) \<in> set d. fs_is_directory d (butlast p)"
  shows "fs_wf d"
  unfolding fs_wf_def
proof (intro conjI allI impI)
  fix p
  assume "fs_lookup d p \<noteq> None" "p \<noteq> []"
  then obtain x where "sm_find d p = Some x" by (auto simp: fs_lookup_def)
  then have "(p, x) \<in> set d" using sm_entries_find [OF assms(1)] by blast
  with assms(3) show "fs_is_directory d (butlast p)" by auto
qed (use assms in simp_all)

lemma ex_env_ok [simp]: "env_ok ex_env"
  by (simp add: env_ok_def ex_env_def)

lemma ex_paths [simp]:
  "servers_path ex_env = [''h'', ''s'']" "tid_path ex_env = [''h'', ''s'', ''tid'']"
  "tid_temp ex_env = [''h'', ''s'', ''tid~'']" "user_path ex_env ''ana'' = [''h'', ''s'', ''ana'']"
  "file_path ex_env ''ana'' ''a.txt'' = [''h'', ''s'', ''ana'', ''a.txt'']"
  by (simp_all add: servers_path_def tid_path_def tid_temp_def user_path_def file_path_def getServersDir_def
      getTidPath_def getUserDir_def ex_env_def resolve_def push_name_def)

lemma ex_hash [simp]: "content_hash (env_xxh64 ex_env) c = digest_to_string 0x1122334455667788"
  by (simp add: content_hash_def ex_env_def)

lemma ex_state_wf [simp]: "state_wf ex_state"
  by (simp add: sm_inv_def state_inv_def ex_state_def state_wf_def hasUser_def sm_find_def to_int32_def)

lemma ex_state_inv [simp]: "state_inv ex_state"
  by (rule state_wf_inv) simp

lemma ex_disk_wf [simp]: "fs_wf ex_disk"
  by (rule fs_wf_entries)
    (simp_all add: sm_inv_def ex_disk_def sm_find_def fs_is_directory_def fs_lookup_def)

lemma ex_disk_idle [simp]: "disk_idle ex_env ex_disk"
  using ex_disk_wf by (simp add: disk_idle_def) (simp add: ex_disk_def sm_find_def fs_is_directory_def fs_lookup_def)

lemma ex_mirrors [simp]: "mirrors ex_env ex_disk ex_state"
  unfolding mirrors_def user_stored_def file_stored_def known_path_def user_ok_def file_ok_def clean_name_def plain_name_def
  using ex_disk_idle
  by (simp add: ex_state_def hasUser_def sm_find_def)
    (simp add: ex_disk_def sm_find_def fs_lookup_def to_int32_def strict_prefix_def)

lemma ex_worlds [simp]:
  "w_shared ex_coord = ex_state" "w_disk ex_coord = ex_disk" "w_shared ex_rep = ex_state" "w_disk ex_rep = ex_disk"
  "m_isCoordinator ex_coord" "\<not> m_isCoordinator ex_rep" "\<not> m_isTransactionActive ex_coord" "\<not> m_isTransactionActive ex_rep"
  "m_lastTid ex_coord = 2" "m_lastTid ex_rep = 2" "m_sent ex_coord = []" "m_sent ex_rep = []" "\<not> m_hasResult ex_rep"
  "\<not> m_activeSet ex_rep" "m_coordinator_id ex_rep = 1" "getActiveServers ex_coord = [2]" "next_tid ex_coord = 3"
  "m_replicas ex_rep = [ex_replica 1]" "ri_id (ex_replica i) = i"
  by (simp_all add: ex_coord_def ex_rep_def TransactionManager_def world.defs ex_world_def getActiveServers_def
      ex_replica_def next_tid_def getLastTid_def) (simp_all add: ex_state_def)

lemma ex_idle [simp]: "coordinator_idle ex_env ex_coord" "replica_idle ex_env ex_rep"
  by (simp_all add: coordinator_idle_def replica_idle_def)

lemma ex_server_ok [simp]: "server_ok ex_env ex_coord" "quiet ex_env ex_coord"
  by (simp_all add: server_ok_def quiet_def) (simp_all add: ex_state_def)

text \<open>Two transactions that both servers accept and one that they refuse.\<close>

definition ex_upload :: txn_kind where
  "ex_upload = FileChangeTransaction ''ana'' ''b.txt'' False ''xyz''"

definition ex_delete :: txn_kind where
  "ex_delete = FileChangeTransaction ''ana'' ''a.txt'' True []"

definition ex_user :: txn_kind where
  "ex_user = CreateUserTransaction ''bob'' ''q''"

lemma ex_proper [simp]: "proper ex_state ex_upload" "proper ex_state ex_delete" "proper ex_state ex_user"
  by (simp_all add: proper_def ex_upload_def ex_delete_def ex_user_def user_ok_def file_ok_def clean_name_def plain_name_def
      hasUser_def ex_state_def sm_find_def)

lemma ex_accepted:
  "txn_effect ex_env tid ex_user ex_state =
    Some (setUserLastTid ''bob'' tid (addUser ''bob'' ''q'' (setLastTid tid ex_state)))"
  "txn_effect ex_env tid ex_delete ex_state = Some (removeFile ''ana'' ''a.txt'' (setLastTid tid ex_state))"
  by (simp_all add: txn_effect_def kind_effect_def ex_user_def ex_delete_def ex_state_def hasUser_def hasFile_def
      sm_find_def sm_count_def setLastTid_def)

lemma ex_node [simp]: "node_ok ex_env ex_user ex_coord" "node_ok ex_env ex_user ex_rep"
  by (simp_all add: node_ok_def)

lemma ex_ready [simp]: "kind_ready ex_env (fs_lookup ex_disk) ex_user" "kind_ready ex_env (fs_lookup ex_disk) ex_delete"
  using proper_ready [OF ex_env_ok ex_mirrors ex_state_inv _ ex_accepted(1)]
    proper_ready [OF ex_env_ok ex_mirrors ex_state_inv _ ex_accepted(2)] by simp_all

section \<open>A system of two servers\<close>

definition ex_sys :: system where
  "ex_sys = \<lparr>s_coord = ex_coord, s_rep = (\<lambda>_. ex_rep), s_cphase = CIdle, s_rphase = (\<lambda>_. RIdle), s_counted = {}\<rparr>"

lemma ex_start [simp]: "system_start (\<lambda>_. ex_env) 1 ex_user ex_sys"
  by (simp add: system_start_def ex_sys_def)

lemma ex_members [simp]: "members ex_sys = {2}" "the_tid ex_sys = 3" "s_rep ex_sys i = ex_rep" "s_coord ex_sys = ex_coord"
  by (simp_all add: members_def the_tid_def ex_sys_def)

lemma ex_heard [simp]: "heard ex_sys = {2}"
  by (simp add: heard_def reached_two)

lemma ex_answer [simp]: "all_answer (\<lambda>_. ex_env) 1 ex_user ex_sys"
  by (simp add: all_answer_def answers_def accepts_def ex_accepted)

text \<open>The same with three replicas.\<close>

definition ex_coord3 :: mgr_world where
  "ex_coord3 = TransactionManager True ex_world [ex_replica 2, ex_replica 3, ex_replica 4] 1"

definition ex_sys3 :: system where
  "ex_sys3 = \<lparr>s_coord = ex_coord3, s_rep = (\<lambda>_. ex_rep), s_cphase = CIdle, s_rphase = (\<lambda>_. RIdle), s_counted = {}\<rparr>"

lemma ex_coord3_facts [simp]:
  "getActiveServers ex_coord3 = [2, 3, 4]" "w_shared ex_coord3 = ex_state" "w_disk ex_coord3 = ex_disk"
  "next_tid ex_coord3 = 3" "m_sent ex_coord3 = []" "coordinator_idle ex_env ex_coord3"
  by (simp_all add: ex_coord3_def TransactionManager_def world.defs ex_world_def getActiveServers_def ex_replica_def
      next_tid_def getLastTid_def coordinator_idle_def) (simp_all add: ex_state_def)

lemma ex_start3: "system_start (\<lambda>_. ex_env) 1 ex_user ex_sys3" "all_answer (\<lambda>_. ex_env) 1 ex_user ex_sys3"
  "s_coord ex_sys3 = ex_coord3"
  by (simp_all add: system_start_def ex_sys3_def node_ok_def all_answer_def answers_def accepts_def ex_accepted)

section \<open>A handler of the coordinator and a client\<close>

definition ex_handler :: "incoming list \<Rightarrow> handler_world" where
  "ex_handler is =
     mgr_world.extend ex_coord (handler_world.fields is [] [] True [9, 8] [([], [(True, 3)]), ([], [(True, 4)])])"

lemma ex_handler_socket [simp]:
  "h_in (ex_handler is) = is" "h_sends (ex_handler is) = []" "h_out (ex_handler is) = []" "h_open (ex_handler is)"
  "h_rands (ex_handler is) = [9, 8]" "h_votes (ex_handler is) = [([], [(True, 3)]), ([], [(True, 4)])]"
  "can_send (ex_handler is)"
  by (simp_all add: ex_handler_def mgr_world.defs handler_world.defs can_send_def)

lemma ex_handler_manager [simp]:
  "w_shared (ex_handler is) = ex_state" "w_disk (ex_handler is) = ex_disk" "m_isCoordinator (ex_handler is)"
  "\<not> m_isTransactionActive (ex_handler is)" "m_lastTid (ex_handler is) = 2" "getActiveServers (ex_handler is) = [2]"
  "next_tid (ex_handler is) = 3"
proof -
  have "m_replicas (ex_handler is) = m_replicas ex_coord" "m_lastTid (ex_handler is) = m_lastTid ex_coord"
    by (simp_all add: ex_handler_def mgr_world.defs handler_world.defs)
  then show "m_lastTid (ex_handler is) = 2" "getActiveServers (ex_handler is) = [2]" "next_tid (ex_handler is) = 3"
    using ex_worlds(16,17) by (simp_all add: getActiveServers_def next_tid_def)
qed (simp_all add: ex_handler_def mgr_world.defs handler_world.defs flip: ex_worlds(1,2))

lemma ex_handler_quiet [simp]: "quiet ex_env (ex_handler is)"
  using ex_server_ok by (simp add: quiet_def server_ok_def)

lemma ex_commits:
  assumes "proper ex_state k" "txn_effect ex_env 3 k ex_state = Some s'"
  shows "\<exists>v. serveTransaction ex_env k (ex_handler is) = Returns True v \<and> can_send v \<and> h_out v = [] \<and> h_in v = is"
proof -
  obtain v where v: "serveTransaction ex_env k (ex_handler is) = Returns True v"
    using serveTransaction_commits [where k = k and s' = s' and early = "[]" and late = "[(True, 3)]" and w = "ex_handler is"]
      assms by (fastforce simp: unanimous_def)
  from tm.returns [OF ex_handler_quiet _ v] assms(1) have "socket v = socket (ex_handler is)" by simp
  from socket_replies [OF this] v show ?thesis by simp
qed

text \<open>A second session of the user.\<close>

lemma ex_login:
  "\<exists>w. handleLogin (serveTransaction ex_env) (login_request ''ana'' ''pw'') 0 (ex_handler []) = Returns () w \<and>
    h_out w = [LOGIN_OK (Some 9)]"
proof -
  let ?k = "CreateSessionTransaction 9 ''ana''" and ?w = "ex_handler []"
  have s: "hasUser ex_state ''ana''" "checkPassword ex_state ''ana'' ''pw''" "length (getUserSessions ex_state ''ana'') = 1"
    "pickSession ex_state [9, 8] = Some (9, [8])" "\<not> isSessionValid ex_state 9"
    by (simp_all add: ex_state_def hasUser_def checkPassword_def getUserSessions_def isSessionValid_def sm_find_def
        sm_count_def to_int32_def)
  have w: "quiet ex_env (?w\<lparr>h_rands := [8]\<rparr>)" by (simp add: quiet_facts)
  have p: "proper ex_state ?k" "can_run ex_state ?k" using s by (simp_all add: proper_def can_run_def)
  have "txn_effect ex_env 3 ?k ex_state \<noteq> None" by (rule can_run_effect) (use p in \<open>simp_all add: refuses_cleanly_def\<close>)
  then obtain s' where s': "txn_effect ex_env 3 ?k ex_state = Some s'" by blast
  have n: "next_tid (?w\<lparr>h_rands := [8]\<rparr>) = 3" "getActiveServers (?w\<lparr>h_rands := [8]\<rparr>) = [2]"
    using ex_handler_manager(6,7) [of "[]"] by (simp_all add: next_tid_def getActiveServers_def getLastTid_def)
  have "\<exists>v. serveTransaction ex_env ?k (?w\<lparr>h_rands := [8]\<rparr>) = Returns True v"
    by (rule serveTransaction_commits [where s' = s' and early = "[]" and late = "[(True, 3)]"])
      (simp_all only: n w, simp_all add: p s' unanimous_def)
  then obtain v where v: "serveTransaction ex_env ?k (?w\<lparr>h_rands := [8]\<rparr>) = Returns True v" by blast
  from tm.returns [OF w _ v] p(1) have "socket v = socket (?w\<lparr>h_rands := [8]\<rparr>)" by simp
  from socket_replies [OF this] have "can_send v" "h_out v = []" by (simp_all add: can_send_def)
  then show ?thesis
    using s v
    by (simp add: Let_def handleLogin_def startSession_def login_request_def new_request_def bindC_def getC_simp retC_simp
        newSessionId_def cpp_simps reply_of_def)
qed

text \<open>An upload and a deletion by the user.\<close>

definition ex_upload_request :: request where
  "ex_upload_request =
     (new_request UPLOAD)\<lparr>r_data := ''xyz'', r_data_file := \<lparr>fu_filename = ''b.txt'', fu_deleted = False, fu_hash = []\<rparr>\<rparr>"

definition ex_delete_request :: request where
  "ex_delete_request =
     (new_request FILE_UPDATE)\<lparr>r_file_update := \<lparr>fu_filename = ''a.txt'', fu_deleted = True, fu_hash = []\<rparr>\<rparr>"

lemma ex_names:
  "hasUser ex_state ''ana''" "hasFile ex_state ''ana'' ''a.txt''"
  "findFile ex_state ''ana'' ''a.txt'' = Some \<lparr>uf_filename = ''a.txt'', uf_hash = digest_to_string 0x1122334455667788,
     uf_last_tid = 2, uf_size = 3, uf_deleted = False\<rparr>"
  "file_ok ''b.txt''" "file_ok ''a.txt''" "r_filename (download_request n) = n"
  "fu_filename (r_data_file ex_upload_request) = ''b.txt''" "r_data ex_upload_request = ''xyz''"
  "fu_filename (r_file_update ex_delete_request) = ''a.txt''" "fu_deleted (r_file_update ex_delete_request)"
  by (simp_all add: file_ok_def clean_name_def plain_name_def download_request_def new_request_def ex_upload_request_def
      ex_delete_request_def) (simp_all add: ex_state_def hasUser_def hasFile_def findFile_def sm_find_def sm_count_def)

lemma ex_effect: "txn_effect ex_env tid ex_upload ex_state \<noteq> None"
  by (simp add: txn_effect_def kind_effect_def ex_upload_def ex_state_def hasUser_def setLastTid_def sm_count_def sm_find_def)

lemma ex_uploaded:
  "\<exists>w. handleUpload (serveTransaction ex_env) ex_upload_request ''ana'' (ex_handler []) = Returns () w \<and>
    FILE_UPDATED \<in> set (h_out w)"
proof -
  obtain s' where "txn_effect ex_env 3 ex_upload ex_state = Some s'" using ex_effect by blast
  then obtain v where v: "serveTransaction ex_env ex_upload (ex_handler []) = Returns True v" "can_send v" "h_out v = []"
    using ex_commits [of ex_upload _ "[]"] by auto
  then have "handleUpload (serveTransaction ex_env) ex_upload_request ''ana'' (ex_handler []) =
      Returns () (with_reply v FILE_UPDATED)"
    by (intro upload_answered) (simp add: ex_upload_def ex_names)
  with v show ?thesis by (simp add: with_reply_def reply_of_def)
qed

lemma ex_deleted:
  "\<exists>w. handleFileUpdate (serveTransaction ex_env) ex_delete_request ''ana'' (ex_handler []) = Returns () w \<and>
    FILE_UPDATED \<in> set (h_out w)"
proof -
  let ?k = "FileChangeTransaction ''ana'' ''a.txt'' True [CHR 0x00]"
  have "proper ex_state ?k" "\<exists>s'. txn_effect ex_env 3 ?k ex_state = Some s'"
    using ex_names ex_accepted(2) [of 3] by (simp_all add: proper_def ex_delete_def txn_effect_def kind_effect_def)
  then obtain v where v: "serveTransaction ex_env ?k (ex_handler []) = Returns True v" "can_send v" "h_out v = []"
    using ex_commits [of ?k _ "[]"] by auto
  then have "handleFileUpdate (serveTransaction ex_env) ex_delete_request ''ana'' (ex_handler []) =
      Returns () (with_reply v FILE_UPDATED)"
    by (intro delete_answered) (simp_all add: ex_names)
  with v show ?thesis by (simp add: with_reply_def reply_of_def)
qed

text \<open>The state after the upload, and a subscriber that waits for it.\<close>

definition ex_new_file :: user_file where
  "ex_new_file = the_file ex_env 3 ''b.txt'' ''xyz''"

definition ex_later :: server_state where
  "ex_later = addFile ''ana'' ''b.txt'' ex_new_file (setLastTid 3 ex_state)"

lemma ex_later: "txn_effect ex_env 3 ex_upload ex_state = Some ex_later"
  by (simp add: txn_effect_def kind_effect_def ex_upload_def ex_later_def ex_new_file_def)
    (simp add: hasFile_def ex_state_def setLastTid_def sm_count_def sm_find_def)

lemma ex_later_file:
  "findFile ex_later ''ana'' ''b.txt'' = Some ex_new_file" "isSessionValid ex_later 7"
proof -
  show "findFile ex_later ''ana'' ''b.txt'' = Some ex_new_file"
    using effect_files [OF ex_state_inv ex_later, of "''ana''" "''b.txt''"] by (simp add: ex_upload_def ex_new_file_def)
  have "logged_user_sessions ex_later = logged_user_sessions ex_state"
    by (simp add: ex_later_def addFile_def sessions_frame Let_def split: option.split)
  then show "isSessionValid ex_later 7"
    by (simp add: isSessionValid_iff) (simp add: ex_state_def sm_find_def to_int32_def)
qed

lemma ex_turn: "\<exists>x w. subscribeTurn ''ana'' 7 1 (ex_handler []) = Returns x w"
  using sendUpdates_run [of "getUserFilesSince ex_state ''ana'' 1" "ex_handler []"]
  by (auto simp: subscribeTurn_def cpp_simps)

lemma ex_subscribed: "\<exists>w. handleSubscribe ''ana'' 7 [ex_later] (ex_handler []) = Blocks w"
proof -
  have "getLastTid ex_state = 2" "getLastTid ex_later = 3"
    using txn_effect_last_tid [OF ex_later] by (simp_all add: getLastTid_def ex_state_def)
  moreover obtain v where "sendUpdates (getUserFilesSince ex_later ''ana'' 2) ((ex_handler [])\<lparr>w_shared := ex_later\<rparr>) = Returns True v"
    using sendUpdates_open [of "(ex_handler [])\<lparr>w_shared := ex_later\<rparr>"] by auto
  ultimately show ?thesis
    by (simp add: handleSubscribe_def subscribeLoop.simps subscribeTurn_def cpp_simps ex_later_file blockC_def)
qed

definition ex_answer_file :: response where
  "ex_answer_file = FILE_DATA_R ''a.txt'' (digest_to_string 0x1122334455667788) ''abc''"

lemma ex_downloaded:
  "\<exists>w. handleDownload ex_env (download_request ''a.txt'') ''ana'' (ex_handler []) = Returns () w \<and> h_out w = [ex_answer_file]"
proof -
  have "fs_lookup ex_disk [''h'', ''s'', ''ana'', ''a.txt''] = Some (File ''abc'')"
    by (simp add: ex_disk_def fs_lookup_def sm_find_def)
  with download_found [of ex_env "ex_handler []" "''ana''" "download_request ''a.txt''"] show ?thesis
    by (simp add: ex_names ex_answer_file_def with_reply_def reply_of_def)
qed

definition ex_client :: "response option list \<Rightarrow> client_world" where
  "ex_client replies =
     \<lparr>c_disk = [([''c''], Dir), ([''c'', ''x''], File ''old'')], c_syncDirPath = ''/c'', c_session = 7, c_connected = True,
      c_hostname = ''h'', c_port = 1, c_mute = False, c_mute_reads = [], c_notExit = True, c_sent = [],
      c_replies = replies\<rparr>"

lemma ex_client_disk: "sm_inv (c_disk (ex_client rs))"
  by (simp add: ex_client_def sm_inv_def)

lemma ex_client_facts: "c_replies (ex_client rs) = rs" "sync_path (ex_client rs) ''a.txt'' = [''c'', ''a.txt'']"
  by (simp_all add: ex_client_def sync_path_def resolve_def push_name_def)

lemma ex_client_path: "can_write (c_disk (ex_client rs)) (sync_path (ex_client rs) ''a.txt'')"
  unfolding ex_client_facts by (simp add: ex_client_def can_write_def fs_is_directory_def fs_lookup_def sm_find_def)

end
