(* ===== verification/Sync_System.thy ===== *)
theory Sync_System
  imports Client_Correct
begin

text \<open>
  The program as its users see it: one client follows its subscription
  (\<open>thread_updates\<close> in \<open>src/client/mainClient.cpp\<close>) while the coordinator serves the requests
  of everyone else (\<open>src/server/service/ServiceRequestHandler.cpp\<close>).  The steps interleave in any
  order: a whole request of some other connection, one turn of the subscription's loop, and
  the handling of the oldest message by the client, with its download.  The connections of
  the client itself do not break, and only its update thread writes into the directory.
\<close>

section \<open>The steps\<close>

text \<open>
  \<open>y_tid\<close> is the variable \<open>tid\<close> of the subscription's loop (\<open>None\<close> once the handler has
  returned); \<open>y_queue\<close> are the messages that were sent and not yet handled.
\<close>

record sync_system =
  y_server :: handler_world
  y_tid :: "int option"
  y_queue :: "file_update list"
  y_client :: client_world

text \<open>A new connection to the server: what arrives on it, and what its transactions meet.\<close>

definition connect ::
  "incoming list \<Rightarrow> bool list \<Rightarrow> int list \<Rightarrow> ((bool \<times> int) list \<times> (bool \<times> int) list) list \<Rightarrow> handler_world \<Rightarrow> handler_world"
where
  "connect ins sends rands votes w =
     w\<lparr>h_in := ins, h_sends := sends, h_out := [], h_open := True, h_rands := rands, h_votes := votes\<rparr>"

definition announced :: "response list \<Rightarrow> file_update list" where
  "announced out = concat (map (\<lambda>r. case r of UPDATED u \<Rightarrow> [u] | _ \<Rightarrow> []) out)"

definition first_answer :: "response list \<Rightarrow> response option" where
  "first_answer out = (case out of [] \<Rightarrow> None | r # _ \<Rightarrow> Some r)"

definition client_header :: "client_world \<Rightarrow> header" where
  "client_header c = Header 0 (c_session c)"

definition logged_in :: "string \<Rightarrow> client_world \<Rightarrow> server_state \<Rightarrow> bool" where
  "logged_in user c s \<longleftrightarrow>
     isSessionValid s (header_session (client_header c)) \<and> getUserFromSesssion s (header_session (client_header c)) = user"

text \<open>What the client and its subscription do by themselves.\<close>

inductive own_step :: "env \<Rightarrow> string \<Rightarrow> sync_system \<Rightarrow> sync_system \<Rightarrow> bool" for e user where
  turn: "\<lbrakk>y_tid S = Some tid;
     subscribeTurn user (header_session (client_header (y_client S))) tid (connect [] [] [] [] (y_server S)) = Returns t w\<rbrakk> \<Longrightarrow>
    own_step e user S (S\<lparr>y_tid := t, y_queue := y_queue S @ announced (h_out w)\<rparr>)"
| update: "\<lbrakk>y_queue S = u # rest;
     handleRequest e (serveTransaction e) []
       (connect [Incoming (client_header (y_client S)) (download_request (fu_filename u))] [] [] [] (y_server S)) = Returns () w;
     applyUpdate e u (y_client S\<lparr>c_replies := [first_answer (h_out w)]\<rparr>) = Returns () c\<rbrakk> \<Longrightarrow>
    own_step e user S (S\<lparr>y_queue := rest, y_client := c\<rparr>)"

text \<open>A request of another connection that leaves the client logged in.\<close>

inductive sync_step :: "env \<Rightarrow> string \<Rightarrow> sync_system \<Rightarrow> sync_system \<Rightarrow> bool" for e user where
  own: "own_step e user S S' \<Longrightarrow> sync_step e user S S'"
| request: "\<lbrakk>\<forall>i \<in> set ins. good_incoming i;
     handleRequest e (serveTransaction e) [] (connect ins sends rands votes (y_server S)) = Returns () w;
     logged_in user (y_client S) (w_shared w)\<rbrakk> \<Longrightarrow>
    sync_step e user S (S\<lparr>y_server := w\<rparr>)"

text \<open>A logged-in client has just subscribed; its directory exists.\<close>

definition sync_start :: "env \<Rightarrow> string \<Rightarrow> sync_system \<Rightarrow> bool" where
  "sync_start e user S \<longleftrightarrow>
     quiet e (y_server S) \<and> logged_in user (y_client S) (w_shared (y_server S)) \<and>
     y_tid S = Some (getLastTid (w_shared (y_server S))) \<and> y_queue S = [] \<and> sm_inv (c_disk (y_client S)) \<and>
     (\<forall>n. file_ok n \<longrightarrow> can_write (c_disk (y_client S)) (sync_path (y_client S) n))"

text \<open>Nothing is left to tell, and nothing is left to do.\<close>

definition caught_up :: "sync_system \<Rightarrow> bool" where
  "caught_up S \<longleftrightarrow> y_tid S = Some (getLastTid (w_shared (y_server S))) \<and> y_queue S = []"

text \<open>
  The files of the client and the server agree on what changed since the subscription; what
  did not change is as it was on the client.
\<close>

definition agrees :: "env \<Rightarrow> string \<Rightarrow> sync_system \<Rightarrow> sync_system \<Rightarrow> bool" where
  "agrees e user S0 S \<longleftrightarrow>
     (\<forall>n f. findFile (w_shared (y_server S)) user n = Some f \<longrightarrow>
        (if getLastTid (w_shared (y_server S0)) < uf_last_tid f
         then hash_of e (c_disk (y_client S)) (sync_path (y_client S) n) = uf_hash f
         else fs_lookup (c_disk (y_client S)) (sync_path (y_client S) n) =
              fs_lookup (c_disk (y_client S0)) (sync_path (y_client S0) n)))"

section \<open>How requests change the state of the server\<close>

text \<open>A state that committed transactions lead to, one after the other.\<close>

definition evolves :: "env \<Rightarrow> server_state \<Rightarrow> server_state \<Rightarrow> bool" where
  "evolves e = (\<lambda>s s'. \<exists>tid k. ss_last_tid s < tid \<and> txn_effect e tid k s = Some s')\<^sup>*\<^sup>*"

lemma evolves_refl: "evolves e s s"
  by (simp add: evolves_def)

lemma evolves_facts:
  assumes "evolves e s s'" "state_wf s"
  shows "state_wf s' \<and> ss_last_tid s \<le> ss_last_tid s' \<and>
    (\<forall>u n f. findFile s' u n = Some f \<longrightarrow> findFile s u n = Some f \<or> ss_last_tid s < uf_last_tid f)"
  using assms unfolding evolves_def
proof (induction rule: rtranclp_induct)
  case base
  then show ?case by simp
next
  case (step y z)
  then obtain tid k where t: "ss_last_tid y < tid" "txn_effect e tid k y = Some z" and y: "state_wf y" "ss_last_tid s \<le> ss_last_tid y"
    by auto
  have "state_wf z" "ss_last_tid z = tid"
    using txn_effect_wf [OF y(1) _ t(2)] txn_effect_last_tid [OF t(2)] t(1) by simp_all
  moreover have "findFile s u n = Some f \<or> ss_last_tid s < uf_last_tid f" if "findFile z u n = Some f" for u n f
    using effect_new_files [OF state_wf_inv [OF y(1)] t(2) that] step.IH [OF step.prems] t(1) y(2) by auto
  ultimately show ?case using t(1) y(2) by auto
qed

text \<open>
  The handlers keep that as well: the contract of the transaction service holds for the
  servers whose state evolved from a given one.
\<close>

interpretation evolving: transaction_service "serveTransaction e" e "\<lambda>w. quiet e w \<and> evolves e s (w_shared w)" for e s
proof (unfold_locales, goal_cases)
  case (1 w k b w')
  then have R: "quiet e w'" "socket w' = socket w"
    "if b then committed e k w w' else w_shared w' = w_shared w \<and> w_disk w' = w_disk w"
    using tm.returns [of e w k b w'] by blast+
  have "evolves e s (w_shared w')"
  proof (cases b)
    case True
    with R(3) 1(1) show ?thesis
      unfolding evolves_def by (auto dest!: committed_effect intro: rtranclp.rtrancl_into_rtrancl)
  qed (use R(3) 1(1) in simp)
  with R show ?case by blast
next
  case (2 w k)
  then show ?case by (blast intro: tm.safe)
qed (auto simp: quiet_facts)

lemma request_evolves:
  assumes "quiet e w" "\<forall>i \<in> set (h_in w). good_incoming i" "handleRequest e (serveTransaction e) [] w = Returns () w'"
  shows "quiet e w' \<and> evolves e (w_shared w) (w_shared w')"
proof -
  have "evolving.ready e (w_shared w) w"
    using assms(1,2) by (simp add: evolving.ready_def evolves_refl)
  from evolving.request_runs [OF this] assms(3) show ?thesis
    by (simp add: runs_def evolving.ready_def)
qed

section \<open>The single steps\<close>

lemma connect_simps [simp]:
  "w_shared (connect i s r v w) = w_shared w" "w_disk (connect i s r v w) = w_disk w"
  "h_in (connect i s r v w) = i" "h_out (connect i s r v w) = []" "h_open (connect i s r v w)"
  "quiet e (connect i s r v w) = quiet e w" "can_send (connect i [] r v w)"
  by (simp_all add: connect_def can_send_def quiet_def server_ok_def)

lemma announced_simps [simp]:
  "announced [] = []" "announced (map (\<lambda>f. UPDATED (update_of f)) fs) = map update_of fs"
  by (induction fs) (simp_all add: announced_def)

text \<open>The answer to a download over the client's session.\<close>

lemma download_served:
  assumes "quiet e w" "logged_in user c (w_shared w)"
  shows "\<exists>w'. handleRequest e (serveTransaction e) [] (connect [Incoming (client_header c) (download_request n)] [] [] [] w) = Returns () w' \<and>
    (case findFile (w_shared w) user n of
       None \<Rightarrow> h_out w' = [ERROR ''File not found'']
     | Some f \<Rightarrow> \<exists>x. content_hash (env_xxh64 e) x = uf_hash f \<and> h_out w' = [FILE_DATA_R n (uf_hash f) x])"
proof -
  let ?w = "connect [Incoming (client_header c) (download_request n)] [] [] [] w"
  let ?v = "?w\<lparr>h_in := []\<rparr>"
  have inv: "mirrors e (w_disk ?v) (w_shared ?v)" "state_inv (w_shared ?v)"
    using assms(1) by (auto simp: quiet_def server_ok_def)
  have run: "handleRequest e (serveTransaction e) [] ?w = handleDownload e (download_request n) user ?v"
    using request_with_session [of ?w "client_header c" "download_request n" "[]"] assms(2)
    by (simp add: logged_in_def needs_session_def download_request_def new_request_def handleSession_def)
  have answer: "h_out (with_reply ?v r) = [r]" for r
    by (simp add: with_reply_def reply_of_def can_send_def connect_def)
  have found: "\<exists>x. content_hash (env_xxh64 e) x = uf_hash f \<and>
      handleDownload e (download_request n) user ?v = Returns () (with_reply ?v (FILE_DATA_R n (uf_hash f) x))"
    if f: "findFile (w_shared w) user n = Some f" for f
  proof -
    from f have "hasFile (w_shared ?v) user (r_filename (download_request n))"
      by (simp add: hasFile_findFile download_request_def)
    from download_found [OF inv this] obtain x where x: "fs_lookup (w_disk w) (file_path e user n) = Some (File x)"
      "handleDownload e (download_request n) user ?v = Returns () (with_reply ?v (FILE_DATA_R n (content_hash (env_xxh64 e) x) x))"
      by (auto simp: download_request_def)
    moreover have "content_hash (env_xxh64 e) x = uf_hash f"
      using mirrorsD(4) [OF inv, of user n f] f x(1) by (simp add: file_stored_def)
    ultimately show ?thesis by auto
  qed
  show ?thesis
  proof (cases "findFile (w_shared w) user n")
    case None
    then have "handleDownload e (download_request n) user ?v = Returns () (with_reply ?v (ERROR ''File not found''))"
      using download_missing [of ?v user "download_request n" e]
      by (simp add: hasFile_findFile download_request_def)
    with run answer [of "ERROR ''File not found''"] None show ?thesis by simp
  next
    case (Some f)
    from found [OF this] obtain x where x: "content_hash (env_xxh64 e) x = uf_hash f"
      "handleDownload e (download_request n) user ?v = Returns () (with_reply ?v (FILE_DATA_R n (uf_hash f) x))" by blast
    with run answer [of "FILE_DATA_R n (uf_hash f) x"] Some show ?thesis by simp
  qed
qed

text \<open>What the client does with one message, when its download is answered.\<close>

lemma message_handled:
  assumes "\<not> fu_deleted u" "sm_inv (c_disk w)" "can_write (c_disk w) (sync_path w (fu_filename u))" "c_replies w = [Some r]"
  shows "\<exists>w'. applyUpdate e u w = Returns () w' \<and> elsewhere (sync_path w (fu_filename u)) w w' \<and>
    (if hash_of e (c_disk w) (sync_path w (fu_filename u)) = fu_hash u then c_disk w' = c_disk w
     else case r of FILE_DATA_R n h x \<Rightarrow> c_disk w' = fs_write (sync_path w (fu_filename u)) x (c_disk w) | _ \<Rightarrow> c_disk w' = c_disk w)"
proof -
  have "\<exists>w'. applyUpdate e u w = Returns () w' \<and>
    (if hash_of e (c_disk w) (sync_path w (fu_filename u)) = fu_hash u then c_disk w' = c_disk w
     else case r of FILE_DATA_R n h x \<Rightarrow> c_disk w' = fs_write (sync_path w (fu_filename u)) x (c_disk w) | _ \<Rightarrow> c_disk w' = c_disk w)"
    using assms(1,3,4)
    by (cases r) (simp_all add: applyUpdate_def set_mute_def cpp_simps request_response_simp store_def sync_path_def)
  with applyUpdate_elsewhere [OF _ assms(2)] show ?thesis by blast
qed

lemma can_write_kept:
  assumes "can_write d p" "can_write d q" "sm_inv d" "\<forall>r. r \<noteq> p \<longrightarrow> fs_lookup d' r = fs_lookup d r"
    and "fs_lookup d' p = fs_lookup d p \<or> (\<exists>x. fs_lookup d' p = Some (File x))"
  shows "can_write d' q"
proof -
  have "butlast q \<noteq> p"
    using assms(1,2) by (auto simp: can_write_def fs_is_directory_def)
  with assms show ?thesis
    by (cases "q = p") (auto simp: can_write_def fs_is_directory_def)
qed

end
