(* ===== verification/Sync_Correct.thy ===== *)
theory Sync_Correct
  imports Sync_System
begin

text \<open>
  The end-to-end guarantee of the program: whatever the other clients do, a client that
  follows its subscription ends up with the files of the server that changed since it
  subscribed.
\<close>

section \<open>The invariant\<close>

text \<open>
  Messages are for existing names and for files that changed after the start; a file that
  changed and was told of is on its way or is on the client's disk; a file that did not
  change is as it was.
\<close>

definition start_tid :: "sync_system \<Rightarrow> int" where
  "start_tid S0 = ss_last_tid (w_shared (y_server S0))"

definition server_file :: "string \<Rightarrow> sync_system \<Rightarrow> string \<Rightarrow> user_file option" where
  "server_file user S n = findFile (w_shared (y_server S)) user n"

definition client_path :: "sync_system \<Rightarrow> string \<Rightarrow> path" where
  "client_path S n = sync_path (y_client S) n"

definition client_ok :: "sync_system \<Rightarrow> sync_system \<Rightarrow> bool" where
  "client_ok S0 S \<longleftrightarrow>
     sm_inv (c_disk (y_client S)) \<and> c_session (y_client S) = c_session (y_client S0) \<and>
     c_syncDirPath (y_client S) = c_syncDirPath (y_client S0) \<and>
     (\<forall>n. file_ok n \<longrightarrow> can_write (c_disk (y_client S)) (client_path S n))"

definition messages_ok :: "string \<Rightarrow> sync_system \<Rightarrow> sync_system \<Rightarrow> bool" where
  "messages_ok user S0 S \<longleftrightarrow>
     (\<forall>u \<in> set (y_queue S). \<not> fu_deleted u \<and> file_ok (fu_filename u) \<and>
        (\<forall>f. server_file user S (fu_filename u) = Some f \<longrightarrow> start_tid S0 < uf_last_tid f))"

definition changed_ok :: "env \<Rightarrow> string \<Rightarrow> sync_system \<Rightarrow> sync_system \<Rightarrow> bool" where
  "changed_ok e user S0 S \<longleftrightarrow>
     (\<forall>tid n f. y_tid S = Some tid \<and> server_file user S n = Some f \<and> start_tid S0 < uf_last_tid f \<and> uf_last_tid f \<le> tid \<longrightarrow>
        update_of f \<in> set (y_queue S) \<or> hash_of e (c_disk (y_client S)) (client_path S n) = uf_hash f)"

definition unchanged_ok :: "string \<Rightarrow> sync_system \<Rightarrow> sync_system \<Rightarrow> bool" where
  "unchanged_ok user S0 S \<longleftrightarrow>
     (\<forall>n f. server_file user S n = Some f \<and> uf_last_tid f \<le> start_tid S0 \<longrightarrow>
        fs_lookup (c_disk (y_client S)) (client_path S n) = fs_lookup (c_disk (y_client S0)) (client_path S0 n))"

definition sync_inv :: "env \<Rightarrow> string \<Rightarrow> sync_system \<Rightarrow> sync_system \<Rightarrow> bool" where
  "sync_inv e user S0 S \<longleftrightarrow>
     quiet e (y_server S) \<and> logged_in user (y_client S) (w_shared (y_server S)) \<and> client_ok S0 S \<and>
     (\<forall>tid. y_tid S = Some tid \<longrightarrow> start_tid S0 \<le> tid \<and> tid \<le> ss_last_tid (w_shared (y_server S))) \<and>
     start_tid S0 \<le> ss_last_tid (w_shared (y_server S)) \<and>
     messages_ok user S0 S \<and> changed_ok e user S0 S \<and> unchanged_ok user S0 S"

lemma sync_inv_start: "sync_start e user S \<Longrightarrow> sync_inv e user S S"
  by (auto simp: sync_start_def sync_inv_def client_ok_def messages_ok_def changed_ok_def unchanged_ok_def
      start_tid_def client_path_def getLastTid_def)

text \<open>The facts about the files of a quiet server that the steps use.\<close>

lemma server_file_ok:
  assumes "quiet e (y_server S)" "server_file user S n = Some f"
  shows "file_ok n" "uf_filename f = n" "\<not> uf_deleted f" "uf_last_tid f \<le> ss_last_tid (w_shared (y_server S))"
proof -
  have s: "mirrors e (w_disk (y_server S)) (w_shared (y_server S))" "state_wf (w_shared (y_server S))"
    using assms(1) by (auto simp: quiet_def server_ok_def)
  from mirrorsD(4) [OF s(1) state_wf_inv [OF s(2)]] assms(2) show "file_ok n"
    by (auto simp: server_file_def file_stored_def)
  from state_wf_file [OF s(2)] assms(2) show "uf_filename f = n" "\<not> uf_deleted f" "uf_last_tid f \<le> ss_last_tid (w_shared (y_server S))"
    by (simp_all add: server_file_def)
qed

lemma client_path_inject:
  "file_ok n \<Longrightarrow> file_ok m \<Longrightarrow> client_path S n = client_path S m \<longleftrightarrow> n = m"
  using resolve_append_plain [of n "c_syncDirPath (y_client S)"] resolve_append_plain [of m "c_syncDirPath (y_client S)"]
  by (simp add: client_path_def sync_path_def)

section \<open>One turn of the subscription\<close>

lemma turn_messages:
  assumes "state_inv (w_shared w)" "h_out w = []" "subscribeTurn user sid tid w = Returns t w'"
    and files: "files = {f. \<exists>n. findFile (w_shared w) user n = Some f \<and> tid < uf_last_tid f}"
    and old: "\<forall>n f. findFile (w_shared w) user n = Some f \<longrightarrow> uf_last_tid f \<le> ss_last_tid (w_shared w)"
  shows "set (announced (h_out w')) \<subseteq> update_of ` files"
    and "t = Some t' \<Longrightarrow> t' = max tid (ss_last_tid (w_shared w)) \<and> set (announced (h_out w')) = update_of ` files"
proof -
  let ?fs = "getUserFilesSince (w_shared w) user tid"
  have fs: "set ?fs = files"
    using getUserFilesSince_iff [OF assms(1)] files by blast
  obtain b v k where v: "sendUpdates ?fs w = Returns b v" "b \<longrightarrow> h_out v = map (\<lambda>f. UPDATED (update_of f)) ?fs"
    "h_out v = map (\<lambda>f. UPDATED (update_of f)) (take k ?fs)"
    using sendUpdates_run [of ?fs w] assms(2) by (auto simp: take_map)
  have none: "files = {}" if "\<not> tid < ss_last_tid (w_shared w)"
    using that old files by fastforce
  have take: "set (announced (h_out v)) \<subseteq> update_of ` files"
    using v(3) fs by (auto dest: in_set_takeD)
  have cases_t: "\<not> tid < ss_last_tid (w_shared w) \<and> t = Some tid \<and> w' = w \<or>
      tid < ss_last_tid (w_shared w) \<and> t = None \<and> h_out w' = [] \<or>
      tid < ss_last_tid (w_shared w) \<and> w' = v \<and> t = (if b then Some (ss_last_tid (w_shared w)) else None)"
    using assms(2,3) v(1) by (auto simp: subscribeTurn_def cpp_simps getLastTid_def split: if_splits)
  then show "set (announced (h_out w')) \<subseteq> update_of ` files"
    using take assms(2) by (elim disjE) simp_all
  show "t' = max tid (ss_last_tid (w_shared w)) \<and> set (announced (h_out w')) = update_of ` files" if "t = Some t'"
    using that v(2) fs none assms(2) cases_t
    by (auto split: if_splits)
qed

lemma sync_invD:
  assumes "sync_inv e user S0 S"
  shows "quiet e (y_server S)" "logged_in user (y_client S) (w_shared (y_server S))" "client_ok S0 S"
    "y_tid S = Some tid \<Longrightarrow> start_tid S0 \<le> tid \<and> tid \<le> ss_last_tid (w_shared (y_server S))"
    "start_tid S0 \<le> ss_last_tid (w_shared (y_server S))"
    "messages_ok user S0 S" "changed_ok e user S0 S" "unchanged_ok user S0 S"
  using assms by (auto simp: sync_inv_def)

text \<open>The turn of a subscription whose session is valid goes on, and tells everything.\<close>

lemma turn_keeps:
  assumes inv: "sync_inv e user S0 S" and tid: "y_tid S = Some tid"
    and run: "subscribeTurn user sid tid (connect [] [] [] [] (y_server S)) = Returns t w"
  shows "sync_inv e user S0 (S\<lparr>y_tid := t, y_queue := y_queue S @ announced (h_out w)\<rparr>)"
proof -
  let ?w = "connect [] [] [] [] (y_server S)" and ?T = "S\<lparr>y_tid := t, y_queue := y_queue S @ announced (h_out w)\<rparr>"
  define files where "files = {f. \<exists>n. findFile (w_shared ?w) user n = Some f \<and> tid < uf_last_tid f}"
  note I = sync_invD [OF inv]
  note F = server_file_ok [OF I(1)]
  have wf: "state_inv (w_shared ?w)" using I(1) by (auto simp: quiet_def server_ok_def)
  have old: "\<forall>n f. findFile (w_shared ?w) user n = Some f \<longrightarrow> uf_last_tid f \<le> ss_last_tid (w_shared ?w)"
    using F(4) by (simp add: server_file_def)
  note M = turn_messages [OF wf _ run files_def old]
  have start: "start_tid S0 \<le> tid" using I(4) [OF tid] by simp
  have same: "server_file user ?T = server_file user S" "client_path ?T = client_path S"
    by (auto simp: server_file_def client_path_def)
  have "messages_ok user S0 ?T"
    unfolding messages_ok_def same
  proof
    fix u assume "u \<in> set (y_queue ?T)"
    then consider "u \<in> set (y_queue S)" | f where "f \<in> files" "u = update_of f"
      using M(1) by auto
    then show "\<not> fu_deleted u \<and> file_ok (fu_filename u) \<and>
        (\<forall>f. server_file user S (fu_filename u) = Some f \<longrightarrow> start_tid S0 < uf_last_tid f)"
    proof cases
      case 1
      with I(6) show ?thesis by (simp add: messages_ok_def)
    next
      case 2
      then obtain n where n: "server_file user S n = Some f" "tid < uf_last_tid f"
        by (auto simp: files_def server_file_def)
      with F [OF n(1)] 2 start show ?thesis by (simp add: update_of_def)
    qed
  qed
  moreover have "changed_ok e user S0 ?T"
    unfolding changed_ok_def same
  proof (intro allI impI, elim conjE)
    fix t' n f
    assume a: "y_tid ?T = Some t'" "server_file user S n = Some f" "start_tid S0 < uf_last_tid f" "uf_last_tid f \<le> t'"
    then have new: "set (announced (h_out w)) = update_of ` files" using M(2) by simp
    show "update_of f \<in> set (y_queue ?T) \<or> hash_of e (c_disk (y_client ?T)) (client_path S n) = uf_hash f"
    proof (cases "uf_last_tid f \<le> tid")
      case True
      with I(7) tid a(2,3) show ?thesis by (auto simp: changed_ok_def)
    next
      case False
      with a(2) have "f \<in> files" by (auto simp: files_def server_file_def)
      with new show ?thesis by auto
    qed
  qed
  moreover have "unchanged_ok user S0 ?T"
    using I(8) by (simp add: unchanged_ok_def same)
  moreover have "start_tid S0 \<le> t' \<and> t' \<le> ss_last_tid (w_shared (y_server S))" if "t = Some t'" for t'
    using M(2) [OF _ that] I(4) [OF tid] by auto
  ultimately show ?thesis
    using I(1-3,5) by (simp add: sync_inv_def client_ok_def same)
qed

section \<open>One message\<close>

lemma update_keeps:
  assumes inv: "sync_inv e user S0 S" and q: "y_queue S = u # rest"
    and req: "handleRequest e (serveTransaction e) []
       (connect [Incoming (client_header (y_client S)) (download_request (fu_filename u))] [] [] [] (y_server S)) = Returns () w"
    and run: "applyUpdate e u (y_client S\<lparr>c_replies := [first_answer (h_out w)]\<rparr>) = Returns () c"
  shows "sync_inv e user S0 (S\<lparr>y_queue := rest, y_client := c\<rparr>)"
proof -
  let ?n = "fu_filename u" and ?T = "S\<lparr>y_queue := rest, y_client := c\<rparr>" and ?c = "y_client S"
  let ?p = "client_path S ?n"
  note I = sync_invD [OF inv]
  note F = server_file_ok [OF I(1)]
  have u: "\<not> fu_deleted u" "file_ok ?n" "\<And>f. server_file user S ?n = Some f \<Longrightarrow> start_tid S0 < uf_last_tid f"
    using I(6) q by (auto simp: messages_ok_def)
  obtain r where r: "first_answer (h_out w) = Some r"
    and answer: "\<And>f. server_file user S ?n = Some f \<Longrightarrow> \<exists>x. content_hash (env_xxh64 e) x = uf_hash f \<and> r = FILE_DATA_R ?n (uf_hash f) x"
    using download_served [OF I(1,2), of ?n] req
    by (cases "server_file user S ?n") (auto simp: first_answer_def server_file_def)
  let ?v = "?c\<lparr>c_replies := [Some r]\<rparr>"
  have path: "sync_path ?v ?n = ?p" by (simp add: sync_path_def client_path_def)
  have disk: "sm_inv (c_disk ?v)" "can_write (c_disk ?v) (sync_path ?v ?n)"
    using I(3) u(2) unfolding path by (auto simp: client_ok_def)
  obtain c' where c': "applyUpdate e u ?v = Returns () c'" "elsewhere (sync_path ?v ?n) ?v c'"
    and own: "if hash_of e (c_disk ?v) (sync_path ?v ?n) = fu_hash u then c_disk c' = c_disk ?v
     else case r of FILE_DATA_R n h x \<Rightarrow> c_disk c' = fs_write (sync_path ?v ?n) x (c_disk ?v) | _ \<Rightarrow> c_disk c' = c_disk ?v"
    using message_handled [OF u(1) disk, of r] by auto
  have c: "c' = c" using c'(1) run r by simp
  have else_c: "\<forall>q. q \<noteq> ?p \<longrightarrow> fs_lookup (c_disk c) q = fs_lookup (c_disk ?c) q" "sm_inv (c_disk c)"
    "c_syncDirPath c = c_syncDirPath ?c" "c_session c = c_session ?c"
    using c'(2) unfolding path c by (simp_all add: elsewhere_def)
  have own_c: "c_disk c = c_disk ?c \<and> (hash_of e (c_disk ?c) ?p = fu_hash u \<or> (\<nexists>n h x. r = FILE_DATA_R n h x)) \<or>
      (\<exists>n h x. r = FILE_DATA_R n h x \<and> c_disk c = fs_write ?p x (c_disk ?c) \<and> hash_of e (c_disk ?c) ?p \<noteq> fu_hash u)"
    using own unfolding path c by (cases r) (auto split: if_splits)
  have written: "fs_lookup (fs_write ?p x (c_disk ?c)) ?p = Some (File x)" for x
    using can_write_lookup [of "c_disk ?c" ?p x] disk path by simp
  have same: "server_file user ?T = server_file user S" "client_path ?T = client_path S"
    using else_c(3) by (auto simp: server_file_def client_path_def sync_path_def)
  have hash_else: "hash_of e (c_disk c) q = hash_of e (c_disk ?c) q" if "q \<noteq> ?p" for q
    using else_c(1) that by (simp add: hash_of_def getFileDigest_def)
  have "client_ok S0 ?T"
  proof -
    have "can_write (c_disk c) (client_path S n)" if "file_ok n" for n
    proof (rule can_write_kept)
      show "can_write (c_disk ?c) ?p" using disk path by simp
      show "fs_lookup (c_disk c) ?p = fs_lookup (c_disk ?c) ?p \<or> (\<exists>x. fs_lookup (c_disk c) ?p = Some (File x))"
        using own_c written by metis
    qed (use I(3) that else_c(1) in \<open>auto simp: client_ok_def\<close>)
    with I(3) else_c same show ?thesis by (simp add: client_ok_def)
  qed
  moreover have "messages_ok user S0 ?T"
    using I(6) q by (simp add: messages_ok_def same)
  moreover have "changed_ok e user S0 ?T"
    unfolding changed_ok_def same
  proof (intro allI impI, elim conjE)
    fix t n f
    assume a: "y_tid ?T = Some t" "server_file user S n = Some f" "start_tid S0 < uf_last_tid f" "uf_last_tid f \<le> t"
    then have before: "update_of f \<in> set (u # rest) \<or> hash_of e (c_disk ?c) (client_path S n) = uf_hash f"
      using I(7) q by (auto simp: changed_ok_def)
    have "hash_of e (c_disk c) (client_path S n) = uf_hash f" if "update_of f \<notin> set rest"
    proof (cases "n = ?n")
      case False
      then have "update_of f \<noteq> u" using F(2) [OF a(2)] by (auto simp: update_of_def)
      moreover have "client_path S n \<noteq> ?p" using client_path_inject [OF F(1) [OF a(2)] u(2)] False by simp
      ultimately show ?thesis using before that hash_else by auto
    next
      case True
      with answer a(2) obtain x where x: "content_hash (env_xxh64 e) x = uf_hash f" "r = FILE_DATA_R ?n (uf_hash f) x" by blast
      from own_c consider "c_disk c = c_disk ?c" "hash_of e (c_disk ?c) ?p = fu_hash u" | "c_disk c = fs_write ?p x (c_disk ?c)"
        using x(2) by auto
      then show ?thesis
      proof cases
        case 1
        with before that True show ?thesis by (auto simp: update_of_def)
      next
        case 2
        with written x(1) True show ?thesis by (simp add: hash_of_def digest_of_file)
      qed
    qed
    then show "update_of f \<in> set (y_queue ?T) \<or> hash_of e (c_disk (y_client ?T)) (client_path S n) = uf_hash f" by auto
  qed
  moreover have "unchanged_ok user S0 ?T"
    unfolding unchanged_ok_def same
  proof (intro allI impI, elim conjE)
    fix n f
    assume a: "server_file user S n = Some f" "uf_last_tid f \<le> start_tid S0"
    then have "n \<noteq> ?n" using u(3) by force
    then have "client_path S n \<noteq> ?p" using client_path_inject [OF F(1) [OF a(1)] u(2)] by simp
    with I(8) a else_c(1) show "fs_lookup (c_disk (y_client ?T)) (client_path S n) = fs_lookup (c_disk (y_client S0)) (client_path S0 n)"
      by (simp add: unchanged_ok_def)
  qed
  moreover have "logged_in user c (w_shared (y_server S))"
    using I(2) else_c(4) by (simp add: logged_in_def client_header_def)
  ultimately show ?thesis
    using I(1,4,5) by (simp add: sync_inv_def)
qed

section \<open>The requests of others\<close>

lemma request_keeps:
  assumes inv: "sync_inv e user S0 S" and good: "\<forall>i \<in> set ins. good_incoming i"
    and req: "handleRequest e (serveTransaction e) [] (connect ins sends rands votes (y_server S)) = Returns () w"
    and log: "logged_in user (y_client S) (w_shared w)"
  shows "sync_inv e user S0 (S\<lparr>y_server := w\<rparr>)"
proof -
  let ?T = "S\<lparr>y_server := w\<rparr>"
  note I = sync_invD [OF inv]
  have w: "quiet e w" "evolves e (w_shared (y_server S)) (w_shared w)"
    using request_evolves [OF _ _ req] I(1) good by auto
  have "state_wf (w_shared (y_server S))" using I(1) by (simp add: quiet_def server_ok_def)
  from evolves_facts [OF w(2) this] have later: "ss_last_tid (w_shared (y_server S)) \<le> ss_last_tid (w_shared w)"
    and files: "\<And>n f. server_file user ?T n = Some f \<Longrightarrow>
      server_file user S n = Some f \<or> ss_last_tid (w_shared (y_server S)) < uf_last_tid f"
    by (auto simp: server_file_def)
  have same: "client_path ?T = client_path S" by (auto simp: client_path_def)
  have "messages_ok user S0 ?T"
    using I(5,6) files by (fastforce simp: messages_ok_def)
  moreover have "changed_ok e user S0 ?T"
    unfolding changed_ok_def same
  proof (intro allI impI, elim conjE)
    fix t n f
    assume a: "y_tid ?T = Some t" "server_file user ?T n = Some f" "start_tid S0 < uf_last_tid f" "uf_last_tid f \<le> t"
    then have "server_file user S n = Some f" using files [OF a(2)] I(4) [of t] by auto
    with I(7) a show "update_of f \<in> set (y_queue ?T) \<or> hash_of e (c_disk (y_client ?T)) (client_path S n) = uf_hash f"
      by (auto simp: changed_ok_def)
  qed
  moreover have "unchanged_ok user S0 ?T"
    unfolding unchanged_ok_def same
  proof (intro allI impI, elim conjE)
    fix n f
    assume a: "server_file user ?T n = Some f" "uf_last_tid f \<le> start_tid S0"
    then have "server_file user S n = Some f" using files [OF a(1)] I(5) by auto
    with I(8) a(2) show "fs_lookup (c_disk (y_client ?T)) (client_path S n) = fs_lookup (c_disk (y_client S0)) (client_path S0 n)"
      by (simp add: unchanged_ok_def)
  qed
  ultimately show ?thesis
    using I(3-5) w(1) log later by (fastforce simp: sync_inv_def client_ok_def same)
qed

section \<open>Reachable states\<close>

lemma own_keeps: "own_step e user S S' \<Longrightarrow> sync_inv e user S0 S \<Longrightarrow> sync_inv e user S0 S'"
  by (induction rule: own_step.induct) (blast intro: turn_keeps update_keeps)+

lemma sync_keeps: "sync_step e user S S' \<Longrightarrow> sync_inv e user S0 S \<Longrightarrow> sync_inv e user S0 S'"
  by (induction rule: sync_step.induct) (blast intro: own_keeps request_keeps)+

lemma sync_reachable_inv:
  assumes "(sync_step e user)\<^sup>*\<^sup>* S0 S" "sync_start e user S0"
  shows "sync_inv e user S0 S"
  using assms(1)
  by (induction rule: rtranclp_induct) (blast intro: sync_inv_start [OF assms(2)] sync_keeps)+

lemma caught_up_agrees:
  assumes "sync_inv e user S0 S" "caught_up S"
  shows "agrees e user S0 S"
  unfolding agrees_def getLastTid_def
proof (intro allI impI)
  fix n f
  assume f: "findFile (w_shared (y_server S)) user n = Some f"
  note I = sync_invD [OF assms(1)]
  have f': "server_file user S n = Some f" using f by (simp add: server_file_def)
  with server_file_ok(4) [OF I(1)] have "uf_last_tid f \<le> ss_last_tid (w_shared (y_server S))" by simp
  with I(7,8) f' assms(2) show "if ss_last_tid (w_shared (y_server S0)) < uf_last_tid f
         then hash_of e (c_disk (y_client S)) (sync_path (y_client S) n) = uf_hash f
         else fs_lookup (c_disk (y_client S)) (sync_path (y_client S) n) =
              fs_lookup (c_disk (y_client S0)) (sync_path (y_client S0) n)"
    by (auto simp: changed_ok_def unchanged_ok_def caught_up_def start_tid_def client_path_def getLastTid_def)
qed

section \<open>The client can always catch up\<close>

lemma turn_possible:
  assumes "sync_inv e user S0 S" "y_tid S \<noteq> None"
  shows "\<exists>S'. own_step e user S S' \<and> y_server S' = y_server S \<and> y_tid S' = Some (getLastTid (w_shared (y_server S)))"
proof -
  obtain tid where tid: "y_tid S = Some tid" using assms(2) by blast
  let ?w = "connect [] [] [] [] (y_server S)" and ?sid = "header_session (client_header (y_client S))"
  note I = sync_invD [OF assms(1)]
  obtain v where v: "sendUpdates (getUserFilesSince (w_shared ?w) user tid) ?w = Returns True v"
    using sendUpdates_open [of ?w] by (auto simp: connect_def)
  have "isSessionValid (w_shared ?w) ?sid" using I(2) by (simp add: logged_in_def)
  then have "\<exists>w. subscribeTurn user ?sid tid ?w = Returns (Some (getLastTid (w_shared (y_server S)))) w"
    using v I(4) [OF tid] by (cases "tid = ss_last_tid (w_shared ?w)") (simp_all add: subscribeTurn_def cpp_simps getLastTid_def)
  then obtain w where "subscribeTurn user ?sid tid ?w = Returns (Some (getLastTid (w_shared (y_server S)))) w" by blast
  from own_step.turn [OF tid this] show ?thesis by force
qed

lemma update_possible:
  assumes "sync_inv e user S0 S" "y_queue S = u # rest"
  shows "\<exists>S'. own_step e user S S' \<and> y_server S' = y_server S \<and> y_tid S' = y_tid S \<and> y_queue S' = rest"
proof -
  note I = sync_invD [OF assms(1)]
  let ?n = "fu_filename u"
  obtain w r where w: "handleRequest e (serveTransaction e) []
       (connect [Incoming (client_header (y_client S)) (download_request ?n)] [] [] [] (y_server S)) = Returns () w"
    "first_answer (h_out w) = Some r"
    using download_served [OF I(1,2), of ?n] by (cases "server_file user S ?n") (auto simp: server_file_def first_answer_def)
  let ?v = "y_client S\<lparr>c_replies := [Some r]\<rparr>"
  have path: "sync_path ?v ?n = client_path S ?n" by (simp add: sync_path_def client_path_def)
  have "\<not> fu_deleted u" "sm_inv (c_disk ?v)" "can_write (c_disk ?v) (sync_path ?v ?n)"
    using I(3,6) assms(2) unfolding path by (auto simp: client_ok_def messages_ok_def)
  then obtain c where "applyUpdate e u ?v = Returns () c"
    using message_handled [of u ?v r e] by auto
  then have "applyUpdate e u (y_client S\<lparr>c_replies := [first_answer (h_out w)]\<rparr>) = Returns () c"
    using w(2) by simp
  from own_step.update [OF assms(2) w(1) this] show ?thesis by force
qed

lemma drain:
  "sync_inv e user S0 S \<Longrightarrow> y_queue S = q \<Longrightarrow>
    \<exists>S'. (own_step e user)\<^sup>*\<^sup>* S S' \<and> y_server S' = y_server S \<and> y_tid S' = y_tid S \<and> y_queue S' = []"
proof (induction q arbitrary: S)
  case Nil
  then show ?case by blast
next
  case (Cons u rest)
  obtain T where T: "own_step e user S T" "y_server T = y_server S" "y_tid T = y_tid S" "y_queue T = rest"
    using update_possible [OF Cons.prems] by blast
  from Cons.IH [OF own_keeps [OF T(1) Cons.prems(1)] T(4)] T show ?case
    by (metis converse_rtranclp_into_rtranclp)
qed

lemma can_catch_up:
  assumes "sync_inv e user S0 S" "y_tid S \<noteq> None"
  shows "\<exists>S'. (own_step e user)\<^sup>*\<^sup>* S S' \<and> y_server S' = y_server S \<and> caught_up S'"
proof -
  obtain T where T: "own_step e user S T" "y_server T = y_server S" "y_tid T = Some (getLastTid (w_shared (y_server S)))"
    using turn_possible [OF assms] by blast
  obtain S' where "(own_step e user)\<^sup>*\<^sup>* T S'" "y_server S' = y_server T" "y_tid S' = y_tid T" "y_queue S' = []"
    using drain [OF own_keeps [OF T(1) assms(1)] refl] by blast
  with T show ?thesis by (auto simp: caught_up_def intro: converse_rtranclp_into_rtranclp)
qed

lemma own_steps_inv:
  "(own_step e user)\<^sup>*\<^sup>* S S' \<Longrightarrow> sync_inv e user S0 S \<Longrightarrow> sync_inv e user S0 S'"
  by (induction rule: rtranclp_induct) (blast intro: own_keeps)+

end
