(* ===== verification/Sync_Edit.thy ===== *)
theory Sync_Edit
  imports Sync_Correct
begin

text \<open>
  An edit on one client, all the way: its watcher (\<open>verifica_modificacao\<close>) and the server's
  handler exchange requests and responses over one connection, and what the server then has
  reaches the clients that follow their subscriptions.
\<close>

section \<open>The exchange over one connection\<close>

text \<open>
  Each side reads what the other one sent: the client's replies are the responses of the
  handler, and the requests that arrive at the handler are those that the client sent.
\<close>

definition edit_exchange ::
  "env \<Rightarrow> string \<Rightarrow> client_world \<Rightarrow> handler_world \<Rightarrow> request list \<Rightarrow> int list \<Rightarrow>
    ((bool \<times> int) list \<times> (bool \<times> int) list) list \<Rightarrow> client_world \<Rightarrow> handler_world \<Rightarrow> bool"
where
  "edit_exchange e n c sw reqs rands votes c' sw' \<longleftrightarrow>
     verifica_modificacao e [CloseWrite n] (c\<lparr>c_replies := map Some (h_out sw')\<rparr>) = Returns () c' \<and>
     c_sent c' = c_sent c @ map (Pair (c_session c)) reqs \<and>
     handleRequest e (serveTransaction e) [] (connect (map (Incoming (client_header c)) reqs) [] rands votes sw) = Returns () sw'"

lemma logged_in_user:
  assumes "quiet e w" "logged_in user c (w_shared w)"
  shows "hasUser (w_shared w) user"
proof -
  have "state_wf (w_shared w)" using assms(1) by (simp add: quiet_def server_ok_def)
  from tm.session_user [OF this] assms(2) show ?thesis by (auto simp: logged_in_def)
qed

lemma edit_stored:
  assumes "edit_exchange e n c sw reqs rands votes c' sw'" "h_out sw' = [SEND_FILE_DATA, FILE_UPDATED]"
    and "quiet e sw" "logged_in user c (w_shared sw)" "file_ok n"
    and "fs_lookup (c_disk c) (sync_path c n) = Some (File x)" "\<not> c_mute c" "c_mute_reads c = []"
  shows "fs_lookup (w_disk sw') (file_path e user n) = Some (File x) \<and>
    (\<exists>f. findFile (w_shared sw') user n = Some f \<and> uf_hash f = content_hash (env_xxh64 e) x \<and>
       ss_last_tid (w_shared sw) < uf_last_tid f) \<and>
    (\<forall>i \<in> set (map (Incoming (client_header c)) reqs). good_incoming i)"
proof -
  let ?hd = "client_header c" and ?fd = "file_data_request n (content_hash (env_xxh64 e) x) x"
  have "fs_lookup (c_disk c) (sync_path (c\<lparr>c_replies := rs\<rparr>) n) = Some (File x)" for rs
    using assms(6) by (simp add: sync_path_def)
  with change_sent [of "c\<lparr>c_replies := [Some SEND_FILE_DATA, Some FILE_UPDATED]\<rparr>" n x e] assms(1,2,7,8)
  obtain r where "c_sent c' = c_sent c @ [(c_session c, r), (c_session c, ?fd)]" and r: "r_type r = FILE_UPDATE"
    "r_file_update r = \<lparr>fu_filename = n, fu_deleted = False, fu_hash = content_hash (env_xxh64 e) x\<rparr>"
    by (auto simp: edit_exchange_def)
  with assms(1) have "map (Pair (c_session c)) reqs = map (Pair (c_session c)) [r, ?fd]"
    by (simp add: edit_exchange_def)
  then have reqs: "reqs = [r, ?fd]" by (rule map_injective) (simp add: inj_on_def)
  let ?w = "connect [Incoming ?hd r, Incoming ?hd ?fd] [] rands votes sw"
  let ?v = "?w\<lparr>h_in := [Incoming ?hd ?fd]\<rparr>" and ?u = "?w\<lparr>h_sends := sends_after ?w, h_out := [SEND_FILE_DATA], h_in := []\<rparr>"
  have run: "handleFileUpdate (serveTransaction e) r user ?v = Returns () sw'"
    using assms(1,4) request_with_session [of ?w ?hd r "[Incoming ?hd ?fd]"] r(1)
    by (simp add: edit_exchange_def reqs logged_in_def needs_session_def handleSession_def)
  have fd: "r_type ?fd = FILE_DATA" "fu_filename (r_data_file ?fd) = n" "r_data ?fd = x"
    by (simp_all add: file_data_request_def new_request_def)
  have "\<not> (hasFile (w_shared ?v) user n \<and> getFileHash (w_shared ?v) user n = content_hash (env_xxh64 e) x)"
  proof
    assume "hasFile (w_shared ?v) user n \<and> getFileHash (w_shared ?v) user n = content_hash (env_xxh64 e) x"
    then have "handleFileUpdate (serveTransaction e) r user ?v = respond FILE_UPDATED ?v"
      by (simp add: handleFileUpdate_def r(2) bindC_def getC_simp)
    with run assms(2) show False by (auto simp: cpp_simps reply_of_def connect_def split: if_splits)
  qed
  then have up: "handleUpload (serveTransaction e) ?fd user ?u = Returns () sw'"
    using run fd(1)
    by (cases "hasFile (w_shared sw) user n")
      (simp_all add: handleFileUpdate_def r(2) cpp_simps receiveRequest_def reply_of_def sends_after_def connect_def can_send_def)
  have "quiet e ?u" using assms(3) by (auto simp: connect_def quiet_def server_ok_def)
  moreover have "hasUser (w_shared ?u) user" using logged_in_user [OF assms(3,4)] by simp
  ultimately have "tm.reports e (FileChangeTransaction user n False x) FILE_UPDATED ''Error updating file'' ?u sw'"
    and "committed e (FileChangeTransaction user n False x) ?u sw' \<Longrightarrow> ?thesis"
    using tm.upload_reports [of e ?u user ?fd sw'] committed_upload [of e ?u user n x sw'] up fd assms(5) r
    by (simp_all add: reqs good_incoming_def good_request_def)
  then show ?thesis
    using assms(2) by (auto simp: tm.reports_def reply_of_def split: if_splits)
qed

section \<open>From one client to another\<close>

lemma edit_propagated:
  assumes "sync_start e user S0" "(sync_step e user)\<^sup>*\<^sup>* S0 S" "y_tid S \<noteq> None"
    and "edit_exchange e n c (y_server S) reqs rands votes c' sw'" "h_out sw' = [SEND_FILE_DATA, FILE_UPDATED]"
    and "logged_in user c (w_shared (y_server S))" "file_ok n"
    and "fs_lookup (c_disk c) (sync_path c n) = Some (File x)" "\<not> c_mute c" "c_mute_reads c = []"
    and "logged_in user (y_client S) (w_shared sw')"
  shows "\<exists>S'. (own_step e user)\<^sup>*\<^sup>* (S\<lparr>y_server := sw'\<rparr>) S' \<and> y_server S' = sw' \<and>
    hash_of e (c_disk (y_client S')) (sync_path (y_client S') n) = content_hash (env_xxh64 e) x"
proof -
  let ?T = "S\<lparr>y_server := sw'\<rparr>"
  note inv = sync_reachable_inv [OF assms(2,1)]
  note I = sync_invD [OF inv]
  obtain f where f: "findFile (w_shared sw') user n = Some f" "uf_hash f = content_hash (env_xxh64 e) x"
    "ss_last_tid (w_shared (y_server S)) < uf_last_tid f" and good: "\<forall>i \<in> set (map (Incoming (client_header c)) reqs). good_incoming i"
    using edit_stored [OF assms(4,5) I(1) assms(6-10)] by blast
  have "handleRequest e (serveTransaction e) [] (connect (map (Incoming (client_header c)) reqs) [] rands votes (y_server S)) = Returns () sw'"
    using assms(4) unfolding edit_exchange_def by blast
  note T = request_keeps [OF inv good this assms(11)]
  obtain S' where S': "(own_step e user)\<^sup>*\<^sup>* ?T S'" "y_server S' = sw'" "caught_up S'"
    using can_catch_up [OF T] assms(3) by auto
  from caught_up_agrees [OF own_steps_inv [OF S'(1) T] S'(3)] f I(5) S'(2)
  have "hash_of e (c_disk (y_client S')) (sync_path (y_client S') n) = uf_hash f"
    by (auto simp: agrees_def getLastTid_def start_tid_def)
  with S' f(2) show ?thesis by auto
qed

end
