(* ===== verification/Sync_Properties.thy ===== *)
theory Sync_Properties
  imports Examples Sync_Edit
begin

text \<open>
  The properties of the program as a whole: a client that follows its subscription converges
  to the files of the server, and an edit on one client reaches the others.
\<close>

section \<open>A small system\<close>

definition ex_sync :: sync_system where
  "ex_sync = \<lparr>y_server = ex_handler [], y_tid = Some 2, y_queue = [], y_client = ex_client []\<rparr>"

text \<open>Another client of the same user, with a file that the server does not have.\<close>

definition ex_editor :: client_world where
  "ex_editor = (ex_client [])\<lparr>c_disk := [([''c''], Dir), ([''c'', ''b.txt''], File ''xyz'')]\<rparr>"

lemma ex_header [simp]: "header_session (Header 0 7) = 7"
  by (simp add: header_session_def Header_def)

lemma ex_session: "isSessionValid ex_state 7" "getUserFromSesssion ex_state 7 = ''ana''"
  by (simp_all add: ex_state_def isSessionValid_def getUserFromSesssion_def sm_find_def sm_count_def to_int32_def)

lemma ex_logged_in: "logged_in ''ana'' (ex_client rs) ex_state" "logged_in ''ana'' ex_editor ex_state"
  using ex_session by (simp_all add: logged_in_def client_header_def ex_client_def ex_editor_def)

lemma ex_sync_path: "file_ok n \<Longrightarrow> sync_path (ex_client rs) n = [''c'', n]"
  using resolve_append_plain [of n "''/c''"]
  by (simp add: sync_path_def ex_client_def) (simp add: resolve_def push_name_def)

lemma ex_sync_start: "sync_start ex_env ''ana'' ex_sync"
proof -
  have "can_write (c_disk (ex_client [])) (sync_path (ex_client []) n)" if "file_ok n" for n
    unfolding ex_sync_path [OF that]
    by (simp add: ex_client_def can_write_def fs_is_directory_def fs_lookup_def sm_find_def)
  moreover have "getLastTid ex_state = 2" by (simp add: getLastTid_def ex_state_def)
  ultimately show ?thesis
    by (simp add: sync_start_def ex_sync_def ex_logged_in ex_client_disk)
qed

lemma ex_editor_file:
  "fs_lookup (c_disk ex_editor) (sync_path ex_editor ''b.txt'') = Some (File ''xyz'')" "\<not> c_mute ex_editor" "c_mute_reads ex_editor = []"
proof -
  have path: "sync_path ex_editor ''b.txt'' = [''c'', ''b.txt'']"
    by (simp add: ex_editor_def ex_client_def sync_path_def resolve_def push_name_def)
  show "fs_lookup (c_disk ex_editor) (sync_path ex_editor ''b.txt'') = Some (File ''xyz'')" "\<not> c_mute ex_editor" "c_mute_reads ex_editor = []"
    unfolding path by (simp_all add: ex_editor_def ex_client_def fs_lookup_def sm_find_def)
qed

lemma ex_no_file: "\<not> hasFile ex_state ''ana'' ''b.txt''"
  by (simp add: ex_state_def hasFile_def sm_find_def sm_count_def)

lemma file_effect_sessions:
  "txn_effect e tid (FileChangeTransaction u n False c) s = Some s' \<Longrightarrow> logged_user_sessions s' = logged_user_sessions s"
  by (auto simp: txn_effect_def kind_effect_def addFile_def updateFile_def sessions_frame Let_def split: if_splits option.splits)

definition ex_change_request :: request where
  "ex_change_request = (new_request FILE_UPDATE)\<lparr>r_file_update :=
     \<lparr>fu_filename = ''b.txt'', fu_deleted = False, fu_hash = content_hash (env_xxh64 ex_env) ''xyz''\<rparr>\<rparr>"

definition ex_data_request :: request where
  "ex_data_request = file_data_request ''b.txt'' (content_hash (env_xxh64 ex_env) ''xyz'') ''xyz''"

lemma ex_edit_server:
  "\<exists>sw. handleRequest ex_env (serveTransaction ex_env) []
      (connect [Incoming (client_header ex_editor) ex_change_request, Incoming (client_header ex_editor) ex_data_request]
        [] [] [([], [(True, 3)])] (ex_handler [])) = Returns () sw \<and>
    h_out sw = [SEND_FILE_DATA, FILE_UPDATED] \<and> logged_in ''ana'' (ex_client []) (w_shared sw)"
proof -
  let ?hd = "client_header ex_editor" and ?k = "FileChangeTransaction ''ana'' ''b.txt'' False ''xyz''"
  let ?w = "connect [Incoming ?hd ex_change_request, Incoming ?hd ex_data_request] [] [] [([], [(True, 3)])] (ex_handler [])"
  let ?v = "?w\<lparr>h_in := [Incoming ?hd ex_data_request]\<rparr>"
  let ?u = "?w\<lparr>h_sends := [], h_out := [SEND_FILE_DATA], h_in := []\<rparr>"
  have "handleRequest ex_env (serveTransaction ex_env) [] ?w =
      handleFileUpdate (serveTransaction ex_env) ex_change_request ''ana'' ?v"
    using request_with_session [of ?w ?hd ex_change_request] ex_logged_in(2)
    by (simp add: logged_in_def needs_session_def handleSession_def ex_change_request_def new_request_def)
  also have "\<dots> = handleUpload (serveTransaction ex_env) ex_data_request ''ana'' ?u"
    using ex_no_file
    by (simp add: handleFileUpdate_def Let_def ex_change_request_def new_request_def cpp_simps receiveRequest_def reply_of_def sends_after_def
        connect_def can_send_def ex_data_request_def file_data_request_def)
  finally have run: "handleRequest ex_env (serveTransaction ex_env) [] ?w = handleUpload (serveTransaction ex_env) ex_data_request ''ana'' ?u" .
  have u: "quiet ex_env ?u" "proper (w_shared ?u) ?k"
    using ex_handler_quiet [of "[]"] by (auto simp: connect_def quiet_def server_ok_def proper_def ex_names simp del: ex_handler_quiet)
  have n: "next_tid ?u = 3" "getActiveServers ?u = [2]" "m_lastTid ?u < 2 ^ 31 - 1" "m_isCoordinator ?u" "h_votes ?u = [([], [(True, 3)])]"
    "w_shared ?u = ex_state"
    using ex_handler_manager(6,7) [of "[]"] by (simp_all add: connect_def next_tid_def getActiveServers_def getLastTid_def)
  have eff: "txn_effect ex_env (next_tid ?u) ?k (w_shared ?u) = Some ex_later"
    using ex_later unfolding n(1,6) by (simp add: ex_upload_def)
  have "\<exists>v. serveTransaction ex_env ?k ?u = Returns True v"
    by (rule serveTransaction_commits [OF u(1) n(4,3) u(2) eff n(5)]) (simp_all add: n(1,2) unanimous_def)
  then obtain v where v: "serveTransaction ex_env ?k ?u = Returns True v" by blast
  have R: "socket v = socket ?u" "committed ex_env ?k ?u v"
    using tm.returns [OF u(1) u(2) v] by simp_all
  from socket_replies [OF R(1)] have out: "can_send v" "h_out v = [SEND_FILE_DATA]"
    by (simp_all add: can_send_def connect_def)
  obtain tid where "txn_effect ex_env tid ?k ex_state = Some (w_shared v)"
    using R(2) n(6) by (auto simp: committed_def)
  then have "logged_user_sessions (w_shared v) = logged_user_sessions ex_state"
    by (rule file_effect_sessions)
  then have "isSessionValid (w_shared v) 7" "getUserFromSesssion (w_shared v) 7 = ''ana''"
    using ex_session by (simp_all add: isSessionValid_def getUserFromSesssion_def)
  then have log: "logged_in ''ana'' (ex_client []) (w_shared v)"
    by (simp add: logged_in_def client_header_def ex_client_def)
  have "handleUpload (serveTransaction ex_env) ex_data_request ''ana'' ?u = Returns () (with_reply v FILE_UPDATED)"
    by (rule upload_answered) (use v in \<open>simp add: ex_data_request_def file_data_request_def new_request_def\<close>)
  with run out log show ?thesis by (simp add: with_reply_def reply_of_def)
qed

lemma ex_edit:
  "\<exists>c' sw. edit_exchange ex_env ''b.txt'' ex_editor (ex_handler []) [ex_change_request, ex_data_request] [] [([], [(True, 3)])] c' sw \<and>
    h_out sw = [SEND_FILE_DATA, FILE_UPDATED] \<and> logged_in ''ana'' (ex_client []) (w_shared sw)"
proof -
  let ?c = "ex_editor\<lparr>c_replies := [Some SEND_FILE_DATA, Some FILE_UPDATED]\<rparr>"
  obtain sw where sw: "handleRequest ex_env (serveTransaction ex_env) []
      (connect (map (Incoming (client_header ex_editor)) [ex_change_request, ex_data_request])
        [] [] [([], [(True, 3)])] (ex_handler [])) = Returns () sw"
    "h_out sw = [SEND_FILE_DATA, FILE_UPDATED]" "logged_in ''ana'' (ex_client []) (w_shared sw)"
    using ex_edit_server by auto
  have p: "sync_path w ''b.txt'' = [''c'', ''b.txt'']" if "c_syncDirPath w = ''/c''" for w :: client_world
    using that by (simp add: sync_path_def resolve_def push_name_def)
  have "verifica_modificacao ex_env [CloseWrite ''b.txt''] ?c =
      Returns () (?c\<lparr>c_sent := [(7, ex_change_request), (7, ex_data_request)], c_replies := []\<rparr>)"
    by (simp add: cpp_simps waitUnmuted_def announceChange_def request_response_simp read_all_def p ex_editor_def ex_client_def
        ex_data_request_def ex_change_request_def hash_of_def digest_of_file fs_lookup_def sm_find_def fs_read_def)
  then have "edit_exchange ex_env ''b.txt'' ex_editor (ex_handler []) [ex_change_request, ex_data_request] [] [([], [(True, 3)])]
      (?c\<lparr>c_sent := [(7, ex_change_request), (7, ex_data_request)], c_replies := []\<rparr>) sw"
    unfolding edit_exchange_def using sw(1,2) by (simp add: ex_editor_def ex_client_def)
  with sw(2,3) show ?thesis by blast
qed

section \<open>Convergence\<close>

text \<open>
  C1. Clients converge.  However the requests of other clients, the turns of the
  subscription and the work of the client are interleaved, a client that has caught up
  agrees with the server: every file of its user that changed since it subscribed is in its
  directory with the digest of the server's.  And it can always catch up: as long as the
  subscription goes on, the program's own next steps lead there.
\<close>

theorem clients_converge:
  assumes "sync_start e user S0" "(sync_step e user)\<^sup>*\<^sup>* S0 S"
  shows "(caught_up S \<longrightarrow> agrees e user S0 S) \<and>
    (y_tid S \<noteq> None \<longrightarrow>
       (\<exists>S'. (own_step e user)\<^sup>*\<^sup>* S S' \<and> y_server S' = y_server S \<and> caught_up S' \<and> agrees e user S0 S'))"
proof -
  note inv = sync_reachable_inv [OF assms(2,1)]
  have "agrees e user S0 S'" if "(own_step e user)\<^sup>*\<^sup>* S S'" "caught_up S'" for S'
    using caught_up_agrees [OF own_steps_inv [OF that(1) inv] that(2)] .
  then show ?thesis
    using caught_up_agrees [OF inv] can_catch_up [OF inv] by blast
qed

theorem clients_converge_witness:
  "\<exists>S S' f. (sync_step ex_env ''ana'')\<^sup>*\<^sup>* ex_sync S \<and> findFile (w_shared (y_server S)) ''ana'' ''b.txt'' = Some f \<and>
    (own_step ex_env ''ana'')\<^sup>*\<^sup>* S S' \<and> hash_of ex_env (c_disk (y_client S')) (sync_path (y_client S') ''b.txt'') = uf_hash f"
proof -
  obtain c' sw where x: "edit_exchange ex_env ''b.txt'' ex_editor (y_server ex_sync) [ex_change_request, ex_data_request] [] [([], [(True, 3)])] c' sw"
    "h_out sw = [SEND_FILE_DATA, FILE_UPDATED]" "logged_in ''ana'' (y_client ex_sync) (w_shared sw)"
    using ex_edit by (auto simp: ex_sync_def)
  let ?S = "ex_sync\<lparr>y_server := sw\<rparr>"
  have srv: "quiet ex_env (y_server ex_sync)" "logged_in ''ana'' ex_editor (w_shared (y_server ex_sync))"
    using ex_logged_in(2) by (simp_all add: ex_sync_def)
  obtain f where f: "findFile (w_shared sw) ''ana'' ''b.txt'' = Some f" "2 < uf_last_tid f"
    and good: "\<forall>i \<in> set (map (Incoming (client_header ex_editor)) [ex_change_request, ex_data_request]). good_incoming i"
    using edit_stored [OF x(1,2) srv ex_names(4) ex_editor_file] by (auto simp: ex_sync_def ex_state_def)
  have "handleRequest ex_env (serveTransaction ex_env) [] (connect (map (Incoming (client_header ex_editor)) [ex_change_request, ex_data_request])
      [] [] [([], [(True, 3)])] (y_server ex_sync)) = Returns () sw"
    using x(1) unfolding edit_exchange_def by blast
  from sync_step.request [OF good this x(3)] have "(sync_step ex_env ''ana'')\<^sup>*\<^sup>* ex_sync ?S" by blast
  moreover from clients_converge [OF ex_sync_start this]
  obtain S' where "(own_step ex_env ''ana'')\<^sup>*\<^sup>* ?S S'" "y_server S' = sw" "agrees ex_env ''ana'' ex_sync S'"
    by (auto simp: ex_sync_def)
  moreover have "getLastTid (w_shared (y_server ex_sync)) = 2" by (simp add: ex_sync_def getLastTid_def ex_state_def)
  ultimately show ?thesis using f by (fastforce simp: agrees_def)
qed

section \<open>Propagation of an edit\<close>

text \<open>
  C2. An edit reaches the other clients.  When the watcher of a client has sent a changed
  file to the coordinator, every client of the same user that follows its subscription can
  go on to a state in which its copy of the file has the digest of the edited one.
\<close>

theorem edit_propagates:
  assumes "sync_start e user S0" "(sync_step e user)\<^sup>*\<^sup>* S0 S" "y_tid S \<noteq> None"
    and "edit_exchange e n c (y_server S) reqs rands votes c' sw'" "h_out sw' = [SEND_FILE_DATA, FILE_UPDATED]"
    and "logged_in user c (w_shared (y_server S))" "file_ok n"
    and "fs_lookup (c_disk c) (sync_path c n) = Some (File x)" "\<not> c_mute c" "c_mute_reads c = []"
    and "logged_in user (y_client S) (w_shared sw')"
  shows "\<exists>S'. (own_step e user)\<^sup>*\<^sup>* (S\<lparr>y_server := sw'\<rparr>) S' \<and> y_server S' = sw' \<and>
    hash_of e (c_disk (y_client S')) (sync_path (y_client S') n) = content_hash (env_xxh64 e) x"
  by (rule edit_propagated [OF assms])

theorem edit_propagates_witness:
  "\<exists>sw S'. (own_step ex_env ''ana'')\<^sup>*\<^sup>* (ex_sync\<lparr>y_server := sw\<rparr>) S' \<and>
    hash_of ex_env (c_disk (y_client S')) (sync_path (y_client S') ''b.txt'') = content_hash (env_xxh64 ex_env) ''xyz''"
proof -
  obtain c' sw where x: "edit_exchange ex_env ''b.txt'' ex_editor (y_server ex_sync) [ex_change_request, ex_data_request] [] [([], [(True, 3)])] c' sw"
    "h_out sw = [SEND_FILE_DATA, FILE_UPDATED]" "logged_in ''ana'' (y_client ex_sync) (w_shared sw)"
    using ex_edit by (auto simp: ex_sync_def)
  have tid: "y_tid ex_sync \<noteq> None" by (simp add: ex_sync_def)
  have "logged_in ''ana'' ex_editor (w_shared (y_server ex_sync))"
    using ex_logged_in(2) by (simp add: ex_sync_def)
  from edit_propagates [OF ex_sync_start rtranclp.rtrancl_refl tid x(1,2) this ex_names(4) ex_editor_file x(3)] show ?thesis by blast
qed

section \<open>Updates that are missed\<close>



end
