(* ===== verification/Races.thy ===== *)
theory Races
  imports Service_Correct
begin

text \<open>
  Handlers run in threads of their own, and what a handler has read of the shared state can
  be outdated when its transaction runs.  Two logins that look at the same state both ask for
  a transaction; the transactions then run one after the other.
\<close>

section \<open>What a login asks for\<close>

lemma login_creates_user:
  assumes "\<not> hasUser (w_shared h) (r_username r)" "r_username r \<noteq> []" "r_password r \<noteq> []"
  shows "\<exists>rest. handleLogin do_txn r 0 h = bindC (do_txn (CreateUserTransaction (r_username r) (r_password r))) rest h"
  using assms
  by (intro exI [where x = "\<lambda>ok. if \<not> ok then respond (ERROR ''Error creating user'')
      else bindC (getC (\<lambda>w. checkPassword (w_shared w) (r_username r) (r_password r))) (\<lambda>correct.
        if \<not> correct then respond (ERROR ''Wrong password'') else startSession do_txn (r_username r))"])
    (simp add: handleLogin_def Let_def bindC_def getC_simp)

lemma login_creates_session:
  assumes "length (getUserSessions (w_shared h) u) < 2" "pickSession (w_shared h) (h_rands h) = Some (i, is)"
  shows "\<exists>rest. startSession do_txn u h = bindC (do_txn (CreateSessionTransaction i u)) rest (h\<lparr>h_rands := is\<rparr>)"
  using assms
  by (intro exI [where x = "\<lambda>ok. if \<not> ok then respond (ERROR ''Error creating session'')
      else seqC (sendMessage (LOGIN_OK (Some i))) (retC ())"])
    (simp add: startSession_def newSessionId_def bindC_def getC_simp)

lemma picked_unused: "pickSession s is = Some (i, is') \<Longrightarrow> \<not> isSessionValid s i"
  by (induction s "is" rule: pickSession.induct) (auto split: if_splits)

section \<open>Two first logins of one user\<close>

lemma second_creation_uses_freed_state:
  assumes "env_ok e" "server_ok e w" "m_isCoordinator w" "m_lastTid w < 2 ^ 31 - 2"
    and "proper (w_shared w) (CreateUserTransaction u p)"
    and "doTransaction e (CreateUserTransaction u p) early late w = Returns True v"
  shows "doTransaction e (CreateUserTransaction u q) early' late' v = Undefined UseAfterFree"
proof -
  note R = doTransaction_returns [OF assms(1,2,5,6)]
  have active: "\<not> m_isTransactionActive w"
    using assms(6) doTransaction_not_now [of w e "CreateUserTransaction u p" early late] by (cases "m_isTransactionActive w") auto
  have v: "server_ok e v" "m_isCoordinator v" "\<not> m_isTransactionActive v" "m_lastTid v < 2 ^ 31 - 1"
    and s: "txn_effect e (next_tid w) (CreateUserTransaction u p) (w_shared w) = Some (w_shared v)"
    using R assms(3,4) active by (auto simp: served_def next_tid_def)
  have "state_inv (w_shared w)" using assms(2) by (simp add: server_ok_def state_wf_inv)
  from effect_users [OF this s, of u] have known: "hasUser (w_shared v) u" by (simp add: hasUser_def)
  have ok: "mirrors e (w_disk v) (w_shared v)" "state_inv (w_shared v)"
    using v(1,3) by (auto simp: server_ok_def state_wf_inv)
  have u: "proper (w_shared v) (CreateUserTransaction u q)" using assms(5) by (simp add: proper_def)
  have none: "txn_effect e (next_tid v) (CreateUserTransaction u q) (w_shared v) = None"
    using known ok(2) by (simp add: txn_effect_def kind_effect_def effect_lookups)
  show ?thesis
    by (rule doTransaction_uses_deleted_state [OF assms(1) server_ok_idle [OF v] proper_temp_absent [OF assms(1) ok u] none])
      (use u in \<open>auto simp: refuses_cleanly_def proper_def user_ok_def clean_name_def plain_name_def\<close>)
qed

section \<open>Two sessions at the same time\<close>

lemma sessions_exceed_limit:
  assumes "state_wf s" "hasUser s u" "length (getUserSessions s u) = 1"
    and "\<not> isSessionValid s i" "\<not> isSessionValid s j" "to_int32 i \<noteq> to_int32 j"
  shows "\<exists>s1 s2. txn_effect e tid (CreateSessionTransaction i u) s = Some s1 \<and>
    txn_effect e tid' (CreateSessionTransaction j u) s1 = Some s2 \<and> length (getUserSessions s2 u) = 3"
proof -
  have inv: "state_inv s" using assms(1) by (rule state_wf_inv)
  obtain s1 where s1: "txn_effect e tid (CreateSessionTransaction i u) s = Some s1"
    using assms(2,4) inv by (simp add: txn_effect_def kind_effect_def effect_lookups isSessionValid_iff sessions_frame)
  note E1 = effect_create_session [OF inv s1]
  have "logged_user_sessions s1 = sm_emplace (to_int32 i) u (logged_user_sessions s)"
    using s1 by (auto simp: txn_effect_def kind_effect_def sessions_frame addSession_def setUserLastTid_def setLastTid_def split: if_splits)
  then have j: "\<not> isSessionValid s1 j"
    using assms(5,6) inv by (simp add: isSessionValid_iff sm_find_sm_emplace state_invD)
  have inv1: "state_inv s1" using txn_effect_inv [OF inv s1] .
  have "hasUser s1 u" using E1 assms(2) by (simp add: hasUser_def)
  with j inv1 obtain s2 where s2: "txn_effect e tid' (CreateSessionTransaction j u) s1 = Some s2"
    by (simp add: txn_effect_def kind_effect_def effect_lookups isSessionValid_iff sessions_frame)
  from effect_create_session [OF inv1 s2] E1 s1 s2 assms(3) show ?thesis by auto
qed

end
