(* ===== verification/Locks.thy ===== *)
theory Locks
  imports Std_Map
begin

text \<open>
  \<open>src/common/RwLock.h\<close>: data behind a \<open>std::shared_mutex\<close> and a condition variable.  The
  threads that hold the lock, sleep on the condition or were woken and want the lock back are
  a table; a call that must wait is \<open>None\<close>, and is tried again later.  The steps of all
  threads are a relation; its invariant says that a reader sees data that does not change,
  and that no wake-up is lost.
\<close>

text \<open>
  A writer remembers whether it has called \<open>get\<close>, which hands out a reference to the data; a
  thread that waits remembers its predicate.
\<close>

datatype 'd holder = is_Reading: Reading | is_Writing: Writing bool | Sleeping "'d \<Rightarrow> bool" | Woken "'d \<Rightarrow> bool"

record 'd shared_data =
  sd_data :: 'd
  sd_threads :: "(nat, 'd holder) smap"

definition SharedData :: "'d \<Rightarrow> 'd shared_data" where
  "SharedData x = \<lparr>sd_data = x, sd_threads = []\<rparr>"

section \<open>Operations\<close>

definition place :: "nat \<Rightarrow> 'd holder \<Rightarrow> 'd shared_data \<Rightarrow> 'd shared_data" where
  "place t h sd = sd\<lparr>sd_threads := sm_assign t h (sd_threads sd)\<rparr>"

definition can_share :: "'d shared_data \<Rightarrow> bool" where
  "can_share sd \<longleftrightarrow> list_all (\<lambda>(t, h). \<not> is_Writing h) (sd_threads sd)"

definition can_own :: "'d shared_data \<Rightarrow> bool" where
  "can_own sd \<longleftrightarrow> list_all (\<lambda>(t, h). \<not> is_Writing h \<and> \<not> is_Reading h) (sd_threads sd)"

definition ReadLock :: "nat \<Rightarrow> 'd shared_data \<Rightarrow> 'd shared_data option" where
  "ReadLock t sd = (if sm_find (sd_threads sd) t = None \<and> can_share sd then Some (place t Reading sd) else None)"

definition WriteLock :: "nat \<Rightarrow> 'd shared_data \<Rightarrow> 'd shared_data option" where
  "WriteLock t sd = (if sm_find (sd_threads sd) t = None \<and> can_own sd then Some (place t (Writing False) sd) else None)"

text \<open>The destructors of \<open>ReadLock\<close> and \<open>WriteLock\<close>.\<close>

definition releaseLock :: "nat \<Rightarrow> 'd shared_data \<Rightarrow> 'd shared_data option" where
  "releaseLock t sd =
     (case sm_find (sd_threads sd) t of
        Some Reading \<Rightarrow> Some (sd\<lparr>sd_threads := sm_erase t (sd_threads sd)\<rparr>)
      | Some (Writing b) \<Rightarrow> Some (sd\<lparr>sd_threads := sm_erase t (sd_threads sd)\<rparr>)
      | _ \<Rightarrow> None)"

definition wake :: "'d holder \<Rightarrow> 'd holder" where
  "wake h = (case h of Sleeping p \<Rightarrow> Woken p | _ \<Rightarrow> h)"

definition notify :: "'d shared_data \<Rightarrow> 'd shared_data" where
  "notify sd = sd\<lparr>sd_threads := map (\<lambda>(t, h). (t, wake h)) (sd_threads sd)\<rparr>"

text \<open>\<open>WriteLock::get\<close>, a write through the reference that it returned, and \<open>WriteLock::set\<close>.\<close>

definition writeGet :: "nat \<Rightarrow> 'd shared_data \<Rightarrow> 'd shared_data option" where
  "writeGet t sd =
     (case sm_find (sd_threads sd) t of Some (Writing b) \<Rightarrow> Some (place t (Writing True) (notify sd)) | _ \<Rightarrow> None)"

definition writeThrough :: "nat \<Rightarrow> 'd \<Rightarrow> 'd shared_data \<Rightarrow> 'd shared_data option" where
  "writeThrough t x sd =
     (case sm_find (sd_threads sd) t of Some (Writing True) \<Rightarrow> Some (sd\<lparr>sd_data := x\<rparr>) | _ \<Rightarrow> None)"

definition writeSet :: "nat \<Rightarrow> 'd \<Rightarrow> 'd shared_data \<Rightarrow> 'd shared_data option" where
  "writeSet t x sd =
     (case sm_find (sd_threads sd) t of Some (Writing b) \<Rightarrow> Some (notify (sd\<lparr>sd_data := x\<rparr>)) | _ \<Rightarrow> None)"

text \<open>
  \<open>ReadLock::wait\<close>: \<open>while (!p()) cond.wait(lock)\<close>.  Going to sleep releases the lock in one
  step; a thread that was woken takes the lock again before it looks at its predicate.
\<close>

definition readWait :: "nat \<Rightarrow> ('d \<Rightarrow> bool) \<Rightarrow> 'd shared_data \<Rightarrow> 'd shared_data option" where
  "readWait t p sd =
     (case sm_find (sd_threads sd) t of
        Some Reading \<Rightarrow> Some (if p (sd_data sd) then sd else place t (Sleeping p) sd)
      | _ \<Rightarrow> None)"

definition resumeWait :: "nat \<Rightarrow> 'd shared_data \<Rightarrow> 'd shared_data option" where
  "resumeWait t sd =
     (case sm_find (sd_threads sd) t of
        Some (Woken p) \<Rightarrow>
          if can_share sd then Some (place t (if p (sd_data sd) then Reading else Sleeping p) sd) else None
      | _ \<Rightarrow> None)"

text \<open>A condition variable can wake a thread for no reason.\<close>

definition wakeSpuriously :: "nat \<Rightarrow> 'd shared_data \<Rightarrow> 'd shared_data option" where
  "wakeSpuriously t sd =
     (case sm_find (sd_threads sd) t of Some (Sleeping p) \<Rightarrow> Some (place t (Woken p) sd) | _ \<Rightarrow> None)"

section \<open>All threads together\<close>

datatype 'd action =
    Acquire_shared nat
  | Acquire_exclusive nat
  | Release nat
  | Call_get nat
  | Write_through nat 'd
  | Call_set nat 'd
  | Call_notify
  | Call_wait nat "'d \<Rightarrow> bool"
  | Resume nat
  | Spurious nat

fun act :: "'d action \<Rightarrow> 'd shared_data \<Rightarrow> 'd shared_data option" where
  "act (Acquire_shared t) sd = ReadLock t sd"
| "act (Acquire_exclusive t) sd = WriteLock t sd"
| "act (Release t) sd = releaseLock t sd"
| "act (Call_get t) sd = writeGet t sd"
| "act (Write_through t x) sd = writeThrough t x sd"
| "act (Call_set t x) sd = writeSet t x sd"
| "act Call_notify sd = Some (notify sd)"
| "act (Call_wait t p) sd = readWait t p sd"
| "act (Resume t) sd = resumeWait t sd"
| "act (Spurious t) sd = wakeSpuriously t sd"

inductive lock_reachable :: "'d \<Rightarrow> 'd shared_data \<Rightarrow> bool" for x where
  init: "lock_reachable x (SharedData x)"
| step: "lock_reachable x sd \<Longrightarrow> act a sd = Some sd' \<Longrightarrow> lock_reachable x sd'"

section \<open>The invariant\<close>

abbreviation holder_at :: "'d shared_data \<Rightarrow> nat \<Rightarrow> 'd holder option" where
  "holder_at sd t \<equiv> sm_find (sd_threads sd) t"

definition holds :: "'d holder \<Rightarrow> bool" where
  "holds h \<longleftrightarrow> is_Reading h \<or> is_Writing h"

definition lock_inv :: "'d shared_data \<Rightarrow> bool" where
  "lock_inv sd \<longleftrightarrow>
     sm_inv (sd_threads sd) \<and>
     (\<forall>t b u h. holder_at sd t = Some (Writing b) \<longrightarrow> holder_at sd u = Some h \<longrightarrow> u \<noteq> t \<longrightarrow> \<not> holds h) \<and>
     (\<forall>t p. holder_at sd t = Some (Sleeping p) \<longrightarrow> \<not> p (sd_data sd)) \<and>
     (\<forall>t u p. holder_at sd t = Some (Writing True) \<longrightarrow> holder_at sd u \<noteq> Some (Sleeping p))"

lemma wake_simps [simp]:
  "wake Reading = Reading" "wake (Writing b) = Writing b" "wake (Sleeping p) = Woken p" "wake (Woken p) = Woken p"
  by (simp_all add: wake_def)

lemma wake_iff [simp]: "wake h = Writing b \<longleftrightarrow> h = Writing b" "wake h \<noteq> Sleeping p" "holds (wake h) = holds h"
  by (cases h; simp add: holds_def)+

lemma holds_simps [simp]: "holds Reading" "holds (Writing b)" "\<not> holds (Sleeping p)" "\<not> holds (Woken p)"
  by (simp_all add: holds_def)

lemma holder_notify [simp]: "holder_at (notify sd) t = map_option wake (holder_at sd t)"
proof -
  have "sm_find (map (\<lambda>(t, h). (t, wake h)) m) t = map_option wake (sm_find m t)" for m :: "(nat, 'a holder) smap"
    by (induction m) (auto simp: sm_find_Cons)
  then show ?thesis by (simp add: notify_def)
qed

lemma notify_simps [simp]: "sd_data (notify sd) = sd_data sd"
  by (simp add: notify_def)

lemma inv_notify [simp]: "sm_inv (sd_threads (notify sd)) = sm_inv (sd_threads sd)"
  by (simp add: notify_def sm_inv_def comp_def case_prod_unfold)

lemma holder_place [simp]: "sm_inv (sd_threads sd) \<Longrightarrow> holder_at (place t h sd) u = (if u = t then Some h else holder_at sd u)"
  by (simp add: place_def sm_find_sm_assign)

lemma place_simps [simp]:
  "sd_data (place t h sd) = sd_data sd" "sm_inv (sd_threads sd) \<Longrightarrow> sm_inv (sd_threads (place t h sd))"
  by (simp_all add: place_def sm_inv_sm_assign)

lemma can_share_iff: "sm_inv (sd_threads sd) \<Longrightarrow> can_share sd \<longleftrightarrow> (\<forall>t b. holder_at sd t \<noteq> Some (Writing b))"
  unfolding can_share_def list_all_iff
  by (subst sm_ball) (auto simp: is_Writing_def)

lemma can_own_iff: "sm_inv (sd_threads sd) \<Longrightarrow> can_own sd \<longleftrightarrow> (\<forall>t h. holder_at sd t = Some h \<longrightarrow> \<not> holds h)"
  unfolding can_own_def list_all_iff
  by (subst sm_ball) (auto simp: holds_def)

lemma lock_invI:
  assumes "sm_inv (sd_threads sd)"
    and "\<And>t b u h. holder_at sd t = Some (Writing b) \<Longrightarrow> holder_at sd u = Some h \<Longrightarrow> u \<noteq> t \<Longrightarrow> \<not> holds h"
    and "\<And>t p. holder_at sd t = Some (Sleeping p) \<Longrightarrow> \<not> p (sd_data sd)"
    and "\<And>t u p. holder_at sd t = Some (Writing True) \<Longrightarrow> holder_at sd u = Some (Sleeping p) \<Longrightarrow> False"
  shows "lock_inv sd"
  using assms unfolding lock_inv_def by blast

lemma lock_invD:
  assumes "lock_inv sd"
  shows "sm_inv (sd_threads sd)"
    and "holder_at sd t = Some (Writing b) \<Longrightarrow> holder_at sd u = Some h \<Longrightarrow> u \<noteq> t \<Longrightarrow> \<not> holds h"
    and "holder_at sd t = Some (Sleeping p) \<Longrightarrow> \<not> p (sd_data sd)"
    and "holder_at sd t = Some (Writing True) \<Longrightarrow> holder_at sd u \<noteq> Some (Sleeping p)"
  using assms unfolding lock_inv_def by blast+

lemma inv_place_quiet:
  assumes "lock_inv sd" "\<not> holds h"
    and "\<And>p. h = Sleeping p \<Longrightarrow> \<not> p (sd_data sd)"
    and "\<And>p u. h = Sleeping p \<Longrightarrow> u \<noteq> t \<Longrightarrow> holder_at sd u \<noteq> Some (Writing True)"
  shows "lock_inv (place t h sd)"
proof -
  note I = lock_invD [OF assms(1)]
  have h: "h \<noteq> Writing b" for b using assms(2) by auto
  show ?thesis
  proof (rule lock_invI)
    fix u v b g
    assume "holder_at (place t h sd) u = Some (Writing b)" "holder_at (place t h sd) v = Some g" "v \<noteq> u"
    with I(1,2) assms(2) h show "\<not> holds g" by (auto split: if_splits)
  next
    fix u p
    assume "holder_at (place t h sd) u = Some (Sleeping p)"
    with I(1,3) assms(3) show "\<not> p (sd_data (place t h sd))" by (auto split: if_splits)
  next
    fix u v p
    assume "holder_at (place t h sd) u = Some (Writing True)" "holder_at (place t h sd) v = Some (Sleeping p)"
    with I(1,4) assms(4) h show False by (auto split: if_splits)
  qed (use I(1) in simp)
qed

lemma inv_read:
  assumes "lock_inv sd" "can_share sd"
  shows "lock_inv (place t Reading sd)"
proof -
  note I = lock_invD [OF assms(1)]
  have "holder_at sd u \<noteq> Some (Writing b)" for u b using assms(2) I(1) by (simp add: can_share_iff)
  with I(1,3) show ?thesis by (intro lock_invI) (auto split: if_splits)
qed

lemma inv_own:
  assumes "lock_inv sd" "can_own sd"
  shows "lock_inv (place t (Writing False) sd)"
proof -
  note I = lock_invD [OF assms(1)]
  have "\<not> holds h" if "holder_at sd u = Some h" for u h using assms(2) that I(1) by (simp add: can_own_iff)
  with I(1,3) show ?thesis by (intro lock_invI) (force split: if_splits)+
qed

lemma inv_release: "lock_inv sd \<Longrightarrow> lock_inv (sd\<lparr>sd_threads := sm_erase t (sd_threads sd)\<rparr>)"
  by (simp add: lock_inv_def sm_find_sm_erase sm_inv_sm_erase) blast

text \<open>A writer that has notified can change the data: nobody sleeps, and nobody goes to sleep.\<close>

lemma inv_notify_writer:
  assumes "lock_inv sd" "holder_at sd t = Some (Writing b)"
  shows "lock_inv ((notify sd)\<lparr>sd_data := x\<rparr>)" "lock_inv (place t (Writing True) (notify sd))"
proof -
  note I = lock_invD [OF assms(1)]
  have "holder_at ((notify sd)\<lparr>sd_data := x\<rparr>) u = map_option wake (holder_at sd u)" for u
    using holder_notify [of sd u] by simp
  with I(1,2) show "lock_inv ((notify sd)\<lparr>sd_data := x\<rparr>)"
    by (intro lock_invI) auto
  show "lock_inv (place t (Writing True) (notify sd))"
  proof (rule lock_invI)
    have alone: "\<not> holds h" if "holder_at sd u = Some h" "u \<noteq> t" for u h
      using I(2) [OF assms(2) that] .
    show "\<not> holds h" if "holder_at (place t (Writing True) (notify sd)) u = Some (Writing c)"
        "holder_at (place t (Writing True) (notify sd)) v = Some h" "v \<noteq> u" for u c v h
      using that I(1) alone [of u "Writing c"] alone [of v] by (auto split: if_splits)
  qed (use I(1) in \<open>auto split: if_splits\<close>)
qed

lemma inv_through:
  assumes "lock_inv sd" "holder_at sd t = Some (Writing True)"
  shows "lock_inv (sd\<lparr>sd_data := x\<rparr>)"
  using lock_invD [OF assms(1)] assms(2) by (intro lock_invI) auto

lemma inv_notify_any: "lock_inv sd \<Longrightarrow> lock_inv (notify sd)"
  using lock_invD [of sd] by (intro lock_invI) auto

lemma act_inv:
  assumes "lock_inv sd" "act a sd = Some sd'"
  shows "lock_inv sd'"
proof (cases a)
  case (Call_wait t p)
  with assms(2) have "holder_at sd t = Some Reading \<and> sd' = (if p (sd_data sd) then sd else place t (Sleeping p) sd)"
    by (simp add: readWait_def split: option.splits holder.splits if_splits)
  then consider "sd' = sd" | "\<not> p (sd_data sd)" "holder_at sd t = Some Reading" "sd' = place t (Sleeping p) sd"
    by (cases "p (sd_data sd)") simp_all
  then show ?thesis
  proof cases
    case 2
    have "holder_at sd u \<noteq> Some (Writing True)" if "u \<noteq> t" for u
      using lock_invD(2) [OF assms(1), of u True t Reading] 2(2) that by auto
    moreover have "lock_inv (place t (Sleeping p) sd)"
      by (rule inv_place_quiet [OF assms(1)]) (use 2 calculation in auto)
    ultimately show ?thesis using 2(3) by simp
  qed (use assms(1) in simp)
next
  case (Resume t)
  with assms(2) obtain p where w: "holder_at sd t = Some (Woken p)"
    by (auto simp: resumeWait_def split: option.splits holder.splits)
  with Resume assms(2) have p: "can_share sd" "sd' = place t (if p (sd_data sd) then Reading else Sleeping p) sd"
    by (simp_all add: resumeWait_def split: if_split_asm)
  have none: "holder_at sd u \<noteq> Some (Writing b)" for u b
    using p(1) lock_invD(1) [OF assms(1)] by (simp add: can_share_iff)
  show ?thesis
  proof (cases "p (sd_data sd)")
    case True
    with p inv_read [OF assms(1)] show ?thesis by simp
  next
    case False
    have "lock_inv (place t (Sleeping p) sd)"
      by (rule inv_place_quiet [OF assms(1)]) (use False none in simp_all)
    with p(2) False show ?thesis by simp
  qed
next
  case (Spurious t)
  with assms(2) show ?thesis
    by (auto simp: wakeSpuriously_def intro: inv_place_quiet [OF assms(1)] split: option.splits holder.splits)
next
  case (Call_set t x)
  with assms(2) obtain b where b: "holder_at sd t = Some (Writing b)" "sd' = notify (sd\<lparr>sd_data := x\<rparr>)"
    by (auto simp: writeSet_def split: option.splits holder.splits)
  have "notify (sd\<lparr>sd_data := x\<rparr>) = (notify sd)\<lparr>sd_data := x\<rparr>" by (simp add: notify_def)
  with b inv_notify_writer(1) [OF assms(1) b(1)] show ?thesis by simp
next
  case (Write_through t x)
  with assms(2) show ?thesis
    by (auto simp: writeThrough_def intro: inv_through [OF assms(1)] split: option.splits holder.splits bool.splits)
next
  case (Acquire_shared t)
  with assms(2) show ?thesis
    by (auto simp: ReadLock_def intro: inv_read [OF assms(1)] split: if_splits)
next
  case (Acquire_exclusive t)
  with assms(2) show ?thesis
    by (auto simp: WriteLock_def intro: inv_own [OF assms(1)] split: if_splits)
next
  case (Release t)
  with assms(2) show ?thesis
    by (auto simp: releaseLock_def intro: inv_release [OF assms(1)] split: option.splits holder.splits)
next
  case (Call_get t)
  with assms(2) obtain b where "holder_at sd t = Some (Writing b)" "sd' = place t (Writing True) (notify sd)"
    by (auto simp: writeGet_def split: option.splits holder.splits)
  with inv_notify_writer(2) [OF assms(1)] show ?thesis by simp
next
  case Call_notify
  with assms(2) inv_notify_any [OF assms(1)] show ?thesis by simp
qed

lemma lock_reachable_inv: "lock_reachable x sd \<Longrightarrow> lock_inv sd"
proof (induction rule: lock_reachable.induct)
  case init
  show ?case by (simp add: lock_inv_def SharedData_def)
qed (rule act_inv)

section \<open>What the lock gives\<close>

text \<open>No step of another thread changes the data that a reader looks at.\<close>

lemma reader_stable:
  assumes "lock_reachable x sd" "holder_at sd t = Some Reading" "act a sd = Some sd'"
  shows "sd_data sd' = sd_data sd"
proof -
  have "\<not> is_Writing h" if "holder_at sd u = Some h" for u h
    using lock_invD(2) [OF lock_reachable_inv [OF assms(1)], of u _ t Reading] that assms(2)
    by (cases "u = t"; cases h) auto
  with assms(3) show ?thesis
    by (cases a) (fastforce simp: ReadLock_def WriteLock_def releaseLock_def writeGet_def writeThrough_def writeSet_def
      readWait_def resumeWait_def wakeSpuriously_def split: option.splits holder.splits if_splits bool.splits)+
qed

lemma sleeper_waits:
  assumes "lock_reachable x sd" "holder_at sd t = Some (Sleeping p)"
  shows "\<not> p (sd_data sd)"
  using lock_invD(3) [OF lock_reachable_inv [OF assms(1)] assms(2)] .

text \<open>A thread that was woken for good reason goes on as soon as no writer holds the lock.\<close>

lemma woken_goes_on:
  assumes "lock_reachable x sd" "holder_at sd t = Some (Woken p)" "p (sd_data sd)"
    and "\<forall>u b. holder_at sd u \<noteq> Some (Writing b)"
  shows "\<exists>sd'. act (Resume t) sd = Some sd' \<and> holder_at sd' t = Some Reading \<and> sd_data sd' = sd_data sd"
proof -
  have inv: "sm_inv (sd_threads sd)" using lock_invD(1) [OF lock_reachable_inv [OF assms(1)]] .
  with assms(2-4) show ?thesis by (simp add: resumeWait_def can_share_iff)
qed

end
