(* ===== verification/Restart.thy ===== *)
theory Restart
  imports Manager_Invariant
begin

text \<open>
  The state that a server builds from its disk when it starts (\<open>ServerState::init\<close>), against
  the state that the disk mirrors: what a restart keeps and what it loses.
\<close>

section \<open>The entry of one file\<close>

definition boot_file :: "env \<Rightarrow> disk \<Rightarrow> path \<Rightarrow> string \<Rightarrow> user_file" where
  "boot_file e d dir n =
     \<lparr>uf_filename = n, uf_hash = digest_to_string (getFileDigest (env_xxh64 e) d (dir @ [n])), uf_last_tid = 0,
      uf_size = to_int32 (int (length (fs_read d (dir @ [n])))), uf_deleted = False\<rparr>"

definition boot_password :: "disk \<Rightarrow> path \<Rightarrow> string" where
  "boot_password d dir = read_word (fs_read d (dir @ [''.password'']))"

definition boot_entry :: "env \<Rightarrow> disk \<Rightarrow> path \<Rightarrow> string \<Rightarrow> string \<Rightarrow> server_state \<Rightarrow> server_state" where
  "boot_entry e d dir u n s =
     (if n = ''.password'' then addUser u (boot_password d dir) s else addFile u n (boot_file e d dir n) s)"

lemma password_last: "last ''.password'' \<noteq> CHR ''~''"
  by simp

lemma initFile_loads:
  assumes "\<not> fs_is_directory d (dir @ [n])" "last n \<noteq> CHR ''~''"
  shows "initFile e u dir n (d, s) = Returns () (d, boot_entry e d dir u n s)"
  using assms by (simp add: initFile_def cpp_simps Let_def boot_entry_def boot_password_def boot_file_def)

section \<open>One user\<close>

text \<open>How one state extends another by the entries that a test selects; entries are not replaced.\<close>

definition extends ::
  "(string \<Rightarrow> string option) \<Rightarrow> (string \<Rightarrow> string \<Rightarrow> user_file option) \<Rightarrow> server_state \<Rightarrow> server_state \<Rightarrow> bool" where
  "extends pw fl s s' \<longleftrightarrow>
     state_inv s' \<and> logged_user_sessions s' = logged_user_sessions s \<and> users_last_tid s' = users_last_tid s \<and>
     frontend_connections s' = frontend_connections s \<and>
     (\<forall>v. sm_find (senhas s') v = (if sm_find (senhas s) v = None then pw v else sm_find (senhas s) v)) \<and>
     (\<forall>v m. findFile s' v m = (if findFile s v m = None then fl v m else findFile s v m))"

lemma extends_trans:
  assumes "extends pw1 fl1 s t" "extends pw2 fl2 t u"
  shows "extends (\<lambda>v. if pw1 v = None then pw2 v else pw1 v) (\<lambda>v m. if fl1 v m = None then fl2 v m else fl1 v m) s u"
  using assms by (auto simp: extends_def)

lemma extends_refl: "state_inv s \<Longrightarrow> extends (\<lambda>v. None) (\<lambda>v m. None) s s"
  by (simp add: extends_def)

lemma extends_cong:
  "extends pw fl s t \<Longrightarrow> (\<And>v. pw v = pw' v) \<Longrightarrow> (\<And>v m. fl v m = fl' v m) \<Longrightarrow> extends pw' fl' s t"
  by (simp add: extends_def)

lemma senhas_addUser: "state_inv s \<Longrightarrow> sm_find (senhas (addUser u p s)) v =
    (if v = u \<and> sm_find (senhas s) u = None then Some p else sm_find (senhas s) v)"
  by (simp add: addUser_def state_invD sm.find_emplace)

lemma boot_entry_extends:
  assumes "state_inv s"
  shows "extends (\<lambda>v. if v = u \<and> n = ''.password'' then Some (boot_password d dir) else None)
      (\<lambda>v m. if v = u \<and> m = n \<and> n \<noteq> ''.password'' then Some (boot_file e d dir n) else None)
      s (boot_entry e d dir u n s)"
    and "ss_last_tid (boot_entry e d dir u n s) = ss_last_tid s"
proof -
  have frames: "logged_user_sessions (addUser u p s) = logged_user_sessions s"
    "users_last_tid (addUser u p s) = users_last_tid s"
    "frontend_connections (addUser u p s) = frontend_connections s" "ss_last_tid (addUser u p s) = ss_last_tid s" for p
    by (simp_all add: addUser_def)
  show "ss_last_tid (boot_entry e d dir u n s) = ss_last_tid s"
    by (simp add: boot_entry_def frames state_frames)
  show "extends (\<lambda>v. if v = u \<and> n = ''.password'' then Some (boot_password d dir) else None)
      (\<lambda>v m. if v = u \<and> m = n \<and> n \<noteq> ''.password'' then Some (boot_file e d dir n) else None)
      s (boot_entry e d dir u n s)"
  proof (cases "n = ''.password''")
    case True
    with assms show ?thesis
      by (simp add: extends_def boot_entry_def senhas_addUser state_frames frames)
  next
    case False
    with assms show ?thesis
      by (simp add: extends_def boot_entry_def state_frames state_inv_addFile findFile_addFile)
  qed
qed

definition user_files_of :: "env \<Rightarrow> disk \<Rightarrow> path \<Rightarrow> string \<Rightarrow> string list \<Rightarrow> string \<Rightarrow> string \<Rightarrow> user_file option" where
  "user_files_of e d dir u ns v m =
     (if v = u \<and> m \<in> set ns \<and> m \<noteq> ''.password'' then Some (boot_file e d dir m) else None)"

definition user_password_of :: "disk \<Rightarrow> path \<Rightarrow> string \<Rightarrow> string list \<Rightarrow> string \<Rightarrow> string option" where
  "user_password_of d dir u ns v = (if v = u \<and> ''.password'' \<in> set ns then Some (boot_password d dir) else None)"

lemma initFiles_load:
  assumes "\<forall>n \<in> set ns. \<not> fs_is_directory d (dir @ [n]) \<and> last n \<noteq> CHR ''~''" "state_inv s"
  shows "\<exists>s'. forC ns (initFile e u dir) (d, s) = Returns () (d, s') \<and> ss_last_tid s' = ss_last_tid s \<and>
    extends (user_password_of d dir u ns) (user_files_of e d dir u ns) s s'"
  using assms
proof (induction ns arbitrary: s)
  case Nil
  then show ?case
    by (intro exI [of _ s] conjI extends_cong [OF extends_refl])
      (simp_all add: cpp_simps user_password_of_def user_files_of_def)
next
  case (Cons n ns)
  let ?t = "boot_entry e d dir u n s"
  note ext = boot_entry_extends [OF Cons.prems(2), where u = u and n = n and d = d and dir = dir and e = e]
  have inv: "state_inv ?t" using ext(1) by (simp add: extends_def)
  obtain s' where s': "forC ns (initFile e u dir) (d, ?t) = Returns () (d, s')" "ss_last_tid s' = ss_last_tid ?t"
    "extends (user_password_of d dir u ns) (user_files_of e d dir u ns) ?t s'"
    using Cons.IH [OF _ inv] Cons.prems(1) by auto
  have "forC (n # ns) (initFile e u dir) (d, s) = Returns () (d, s')"
    using Cons.prems(1) s'(1) by (simp add: initFile_loads seqC_case)
  moreover have "extends (user_password_of d dir u (n # ns)) (user_files_of e d dir u (n # ns)) s s'"
    by (rule extends_cong [OF extends_trans [OF ext(1) s'(3)]])
      (auto simp: user_password_of_def user_files_of_def)
  ultimately show ?case using s'(2) ext(2) by auto
qed

section \<open>The disk of a state\<close>

lemma mirrored_children:
  assumes "env_ok e" "mirrors e d s" "state_inv s"
  shows "n \<in> set (fs_children d (servers_path e)) \<Longrightarrow> n = ''tid'' \<or> hasUser s n"
    and "hasUser s u \<Longrightarrow> u \<in> set (fs_children d (servers_path e))"
    and "hasUser s u \<Longrightarrow> m \<in> set (fs_children d (servers_path e @ [u])) \<longleftrightarrow> m = ''.password'' \<or> findFile s u m \<noteq> None"
proof -
  note D = mirrorsD [OF assms(2,3)]
  have inv: "sm_inv d" using D(1) by (simp add: disk_idle_def)
  have sub: "strict_prefix (servers_path e) (servers_path e @ [v])"
    "strict_prefix (servers_path e) (servers_path e @ [v, w])" for v w
    by (simp_all add: strict_prefix_def)
  show "n = ''tid'' \<or> hasUser s n" if "n \<in> set (fs_children d (servers_path e))"
    using that D(5) [OF sub(1), of n] known_shape(1) [OF assms, of n] by (cases "n = ''tid''") (auto simp: fs_children_iff [OF inv])
  have path: "hasUser s u \<Longrightarrow> user_path e u = servers_path e @ [u]" for u
    using D(3) shapes(2) [OF assms(1)] by blast
  show "u \<in> set (fs_children d (servers_path e))" if "hasUser s u"
    using that D(3) [OF that] path by (simp add: fs_children_iff [OF inv])
  show "m \<in> set (fs_children d (servers_path e @ [u])) \<longleftrightarrow> m = ''.password'' \<or> findFile s u m \<noteq> None" if u: "hasUser s u"
  proof
    assume "m \<in> set (fs_children d (servers_path e @ [u]))"
    then show "m = ''.password'' \<or> findFile s u m \<noteq> None"
      using D(5) [OF sub(2), of u m] known_shape(2) [OF assms, of u m]
      by (cases "m = ''.password''") (auto simp: fs_children_iff [OF inv])
  next
    assume m: "m = ''.password'' \<or> findFile s u m \<noteq> None"
    obtain pw where "sm_find (senhas s) u = Some pw" using u by (auto simp: hasUser_def)
    from D(2) [OF this] path [OF u] have "fs_lookup d (servers_path e @ [u, ''.password'']) \<noteq> None"
      by (simp add: user_stored_def)
    moreover have "fs_lookup d (servers_path e @ [u, m]) \<noteq> None" if "findFile s u m = Some f" for f
      using D(4) [OF that] D(3) [OF u] shapes(4) [OF assms(1), of u m]
      by (auto simp: file_stored_def split: option.splits)
    ultimately show "m \<in> set (fs_children d (servers_path e @ [u]))"
      using m by (auto simp: fs_children_iff [OF inv])
  qed
qed

text \<open>What \<open>init\<close> reads of one user.\<close>

lemma mirrored_user:
  assumes "env_ok e" "mirrors e d s" "state_wf s" "hasUser s u"
  shows "boot_password d (servers_path e @ [u]) = read_word (the (sm_find (senhas s) u))"
    and "findFile s u m = Some f \<Longrightarrow> boot_file e d (servers_path e @ [u]) m = f\<lparr>uf_last_tid := 0\<rparr>"
    and "\<forall>n \<in> set (fs_children d (servers_path e @ [u])).
      \<not> fs_is_directory d ((servers_path e @ [u]) @ [n]) \<and> last n \<noteq> CHR ''~''"
    and "fs_is_directory d (servers_path e @ [u])" "u \<noteq> ''tid''" "last u \<noteq> CHR ''~''"
proof -
  have inv: "state_inv s" using assms(3) by simp
  note D = mirrorsD [OF assms(2) inv]
  have path: "user_path e u = servers_path e @ [u]"
    using D(3) [OF assms(4)] shapes(2) [OF assms(1)] by blast
  obtain pw where pw: "sm_find (senhas s) u = Some pw" using assms(4) by (auto simp: hasUser_def)
  note stored = D(2) [OF pw, unfolded user_stored_def path]
  then show "boot_password d (servers_path e @ [u]) = read_word (the (sm_find (senhas s) u))"
    using pw by (simp add: boot_password_def fs_read_def)
  have one: "\<exists>c. fs_lookup d (servers_path e @ [u, m]) = Some (File c) \<and> uf_hash f = content_hash (env_xxh64 e) c \<and>
      uf_size f = to_int32 (int (length c)) \<and> file_ok m" if "findFile s u m = Some f" for m f
    using D(4) [OF that] D(3) [OF assms(4)] shapes(4) [OF assms(1), of u m]
    by (auto simp: file_stored_def split: option.splits node.splits)
  show "boot_file e d (servers_path e @ [u]) m = f\<lparr>uf_last_tid := 0\<rparr>" if f: "findFile s u m = Some f"
  proof -
    obtain c where "fs_lookup d (servers_path e @ [u, m]) = Some (File c)" "uf_hash f = content_hash (env_xxh64 e) c"
      "uf_size f = to_int32 (int (length c))"
      using one [OF f] by blast
    with state_wf_file [OF assms(3) f] show ?thesis
      by (cases f) (simp add: boot_file_def digest_of_file fs_read_def)
  qed
  show "fs_is_directory d (servers_path e @ [u])" using stored by (simp add: fs_is_directory_def)
  show "u \<noteq> ''tid''" "last u \<noteq> CHR ''~''"
    using stored by (simp_all add: user_ok_def clean_name_def)
  show "\<forall>n \<in> set (fs_children d (servers_path e @ [u])).
      \<not> fs_is_directory d ((servers_path e @ [u]) @ [n]) \<and> last n \<noteq> CHR ''~''"
  proof
    fix n
    assume "n \<in> set (fs_children d (servers_path e @ [u]))"
    then consider "n = ''.password''" | f where "findFile s u n = Some f"
      using mirrored_children(3) [OF assms(1,2) inv assms(4)] by auto
    then show "\<not> fs_is_directory d ((servers_path e @ [u]) @ [n]) \<and> last n \<noteq> CHR ''~''"
    proof cases
      case 1
      with stored show ?thesis by (simp add: fs_is_directory_def)
    next
      case 2
      with one [OF 2] show ?thesis by (auto simp: fs_is_directory_def file_ok_def clean_name_def)
    qed
  qed
qed

section \<open>All entries\<close>

definition entry_password :: "server_state \<Rightarrow> string list \<Rightarrow> string \<Rightarrow> string option" where
  "entry_password s ns v = (if v \<in> set ns then map_option read_word (sm_find (senhas s) v) else None)"

definition entry_file :: "server_state \<Rightarrow> string list \<Rightarrow> string \<Rightarrow> string \<Rightarrow> user_file option" where
  "entry_file s ns v m = (if v \<in> set ns then map_option (\<lambda>f. f\<lparr>uf_last_tid := 0\<rparr>) (findFile s v m) else None)"

lemma tid_entry:
  assumes "env_ok e" "disk_idle e d"
  shows "initEntry e (servers_path e) ''tid'' (d, t) = Returns () (d, setLastTid (read_int (fs_read d (tid_path e))) t)"
  using assms shapes(1) [OF assms(1)]
  by (simp add: initEntry_def cpp_simps Let_def fs_is_directory_def disk_idle_def)

lemma user_entry:
  assumes "env_ok e" "mirrors e d s" "state_wf s" "hasUser s u" "state_inv t"
  shows "\<exists>t'. initEntry e (servers_path e) u (d, t) = Returns () (d, t') \<and> ss_last_tid t' = ss_last_tid t \<and>
    extends (entry_password s [u]) (entry_file s [u]) t t'"
proof -
  let ?dir = "servers_path e @ [u]" and ?ns = "fs_children d (servers_path e @ [u])"
  have inv: "state_inv s" using assms(3) by simp
  note U = mirrored_user [OF assms(1-4)]
  obtain t' where t': "forC ?ns (initFile e u ?dir) (d, t) = Returns () (d, t')" "ss_last_tid t' = ss_last_tid t"
    "extends (user_password_of d ?dir u ?ns) (user_files_of e d ?dir u ?ns) t t'"
    using initFiles_load [OF U(3) assms(5)] by blast
  have run: "initEntry e (servers_path e) u (d, t) = Returns () (d, t')"
    using t'(1) U(4,6) by (simp add: initEntry_def cpp_simps Let_def)
  have nopw: "findFile s u ''.password'' = None"
    using mirrorsD(4) [OF assms(2) inv, of u "''.password''"]
    by (cases "findFile s u ''.password''") (auto simp: file_stored_def file_ok_def)
  have "extends (entry_password s [u]) (entry_file s [u]) t t'"
  proof (rule extends_cong [OF t'(3)])
    fix v m
    show "user_password_of d ?dir u ?ns v = entry_password s [u] v"
      using U(1) assms(4) mirrored_children(3) [OF assms(1,2) inv assms(4), of "''.password''"]
      by (auto simp: user_password_of_def entry_password_def hasUser_def)
    show "user_files_of e d ?dir u ?ns v m = entry_file s [u] v m"
      using U(2) [of m] nopw mirrored_children(3) [OF assms(1,2) inv assms(4), of m]
      by (auto simp: user_files_of_def entry_file_def)
  qed
  with run t'(2) show ?thesis by blast
qed

lemma entries_load:
  assumes "env_ok e" "mirrors e d s" "state_wf s" "\<forall>n \<in> set ns. n = ''tid'' \<or> hasUser s n" "state_inv t"
  shows "\<exists>t'. forC ns (initEntry e (servers_path e)) (d, t) = Returns () (d, t') \<and>
    ss_last_tid t' = (if ''tid'' \<in> set ns then read_int (fs_read d (tid_path e)) else ss_last_tid t) \<and>
    extends (entry_password s ns) (entry_file s ns) t t'"
  using assms(4,5)
proof (induction ns arbitrary: t)
  case Nil
  then show ?case
    by (intro exI [of _ t] conjI extends_cong [OF extends_refl])
      (simp_all add: cpp_simps entry_password_def entry_file_def)
next
  case (Cons n ns)
  have inv: "state_inv s" and idle: "disk_idle e d" using assms(3) mirrorsD(1) [OF assms(2)] by simp_all
  have notid: "\<not> hasUser s ''tid''" using mirrorsD(3) [OF assms(2) inv, of "''tid''"] by (auto simp: user_ok_def)
  obtain t1 where t1: "initEntry e (servers_path e) n (d, t) = Returns () (d, t1)" "extends (entry_password s [n]) (entry_file s [n]) t t1"
    "ss_last_tid t1 = (if n = ''tid'' then read_int (fs_read d (tid_path e)) else ss_last_tid t)"
  proof (cases "n = ''tid''")
    case True
    have "findFile s ''tid'' m = None" for m
      using mirrorsD(4) [OF assms(2) inv, of "''tid''" m] notid by (cases "findFile s ''tid'' m") auto
    then have "extends (entry_password s [n]) (entry_file s [n]) t (setLastTid (read_int (fs_read d (tid_path e))) t)"
      using True notid Cons.prems(2)
      by (auto simp: extends_def entry_password_def entry_file_def state_frames hasUser_def) (simp_all add: setLastTid_def)
    then show ?thesis
      using that [OF _ _] tid_entry [OF assms(1) idle, of t] True by (auto simp: setLastTid_def)
  next
    case False
    with Cons.prems(1) have "hasUser s n" by simp
    from user_entry [OF assms(1-3) this Cons.prems(2)] that False show ?thesis by auto
  qed
  have inv1: "state_inv t1" using t1(2) by (simp add: extends_def)
  obtain t' where t': "forC ns (initEntry e (servers_path e)) (d, t1) = Returns () (d, t')"
    "ss_last_tid t' = (if ''tid'' \<in> set ns then read_int (fs_read d (tid_path e)) else ss_last_tid t1)"
    "extends (entry_password s ns) (entry_file s ns) t1 t'"
    using Cons.IH [OF _ inv1] Cons.prems(1) by auto
  have "forC (n # ns) (initEntry e (servers_path e)) (d, t) = Returns () (d, t')"
    using t1(1) t'(1) by (simp add: seqC_case)
  moreover have "extends (entry_password s (n # ns)) (entry_file s (n # ns)) t t'"
    by (rule extends_cong [OF extends_trans [OF t1(2) t'(3)]])
      (auto simp: entry_password_def entry_file_def split: option.splits)
  ultimately show ?case using t1(3) t'(2) by auto
qed

section \<open>A restart\<close>

text \<open>
  The constructor on the disk of a server: the users and the files come back, with every
  file at transaction 0; the sessions, the frontends and the users' last transactions do
  not.  A password is read up to the first blank.
\<close>

theorem restart:
  assumes "env_ok e" "mirrors e d s" "state_wf s"
  shows "\<exists>s'. ServerState e d = Returns () (d, s') \<and> state_inv s' \<and>
    (\<forall>u. sm_find (senhas s') u = map_option read_word (sm_find (senhas s) u)) \<and>
    (\<forall>u n. findFile s' u n = map_option (\<lambda>f. f\<lparr>uf_last_tid := 0\<rparr>) (findFile s u n)) \<and>
    logged_user_sessions s' = [] \<and> users_last_tid s' = [] \<and> frontend_connections s' = [] \<and>
    ss_last_tid s' = (case fs_lookup d (tid_path e) of Some (File c) \<Rightarrow> read_int c | _ \<Rightarrow> 0)"
proof -
  have inv: "state_inv s" and idle: "disk_idle e d" using assms(3) mirrorsD(1) [OF assms(2)] by simp_all
  let ?ns = "fs_children d (servers_path e)"
  have "\<forall>n \<in> set ?ns. n = ''tid'' \<or> hasUser s n" using mirrored_children(1) [OF assms(1,2) inv] by blast
  from entries_load [OF assms this state_inv_empty] obtain s' where
    s': "forC ?ns (initEntry e (servers_path e)) (d, empty_state) = Returns () (d, s')"
    "ss_last_tid s' = (if ''tid'' \<in> set ?ns then read_int (fs_read d (tid_path e)) else ss_last_tid empty_state)"
    "extends (entry_password s ?ns) (entry_file s ?ns) empty_state s'" by blast
  have run: "ServerState e d = Returns () (d, s')"
    using s'(1) idle
    by (simp add: ServerState_def init_def cpp_simps Let_def disk_idle_def fs_create_directory_def fs_is_directory_def servers_path_def)
  have user: "u \<in> set ?ns" if "hasUser s u" for u using mirrored_children(2) [OF assms(1,2) inv that] .
  have tid: "''tid'' \<in> set ?ns \<longleftrightarrow> fs_lookup d (tid_path e) \<noteq> None"
    using idle shapes(1) [OF assms(1)] by (simp add: fs_children_iff disk_idle_def)
  have none: "sm_find (senhas empty_state) u = None" "findFile empty_state u n = None" for u n
    by (simp_all add: empty_state_def findFile_def)
  have "entry_password s ?ns u = map_option read_word (sm_find (senhas s) u)" for u
    using user [of u] by (cases "sm_find (senhas s) u") (auto simp: entry_password_def hasUser_def)
  moreover have "entry_file s ?ns u n = map_option (\<lambda>f. f\<lparr>uf_last_tid := 0\<rparr>) (findFile s u n)" for u n
    using user [of u] mirrorsD(4) [OF assms(2) inv, of u n] by (cases "findFile s u n") (auto simp: entry_file_def)
  moreover have "ss_last_tid s' = (case fs_lookup d (tid_path e) of Some (File c) \<Rightarrow> read_int c | _ \<Rightarrow> 0)"
    using s'(2) tid idle
    by (auto simp: fs_read_def disk_idle_def empty_state_def split: option.splits node.splits)
  ultimately show ?thesis
    using run s'(3) none by (auto simp: extends_def) (simp_all add: empty_state_def)
qed

text \<open>
  A server that restarts keeps the invariant of the manager, when no password has a blank
  and the tid file is one that a commit wrote.
\<close>

definition restartable :: "env \<Rightarrow> disk \<Rightarrow> server_state \<Rightarrow> bool" where
  "restartable e d s \<longleftrightarrow>
     (\<forall>(u, pw) \<in> set (senhas s). read_word pw = pw) \<and>
     (case fs_lookup d (tid_path e) of Some (File c) \<Rightarrow> 0 \<le> read_int c | _ \<Rightarrow> True)"

lemma restart_mirrors:
  assumes "env_ok e" "mirrors e d s" "state_wf s" "restartable e d s"
  shows "\<exists>s'. ServerState e d = Returns () (d, s') \<and> state_wf s' \<and> mirrors e d s' \<and>
    (\<forall>u p. checkPassword s' u p = checkPassword s u p) \<and>
    (\<forall>u n. hasFile s' u n = hasFile s u n \<and> getFileHash s' u n = getFileHash s u n)"
proof -
  have inv: "state_inv s" using assms(3) by simp
  obtain s' where s': "ServerState e d = Returns () (d, s')" "state_inv s'"
    "\<forall>u. sm_find (senhas s') u = map_option read_word (sm_find (senhas s) u)"
    "\<forall>u n. findFile s' u n = map_option (\<lambda>f. f\<lparr>uf_last_tid := 0\<rparr>) (findFile s u n)"
    "logged_user_sessions s' = []"
    "ss_last_tid s' = (case fs_lookup d (tid_path e) of Some (File c) \<Rightarrow> read_int c | _ \<Rightarrow> 0)"
    using restart [OF assms(1-3)] by blast
  have "\<forall>u pw. sm_find (senhas s) u = Some pw \<longrightarrow> read_word pw = pw"
    using assms(4) sm_ball [OF state_invD(1) [OF inv], of "\<lambda>u pw. read_word pw = pw"] by (simp add: restartable_def)
  then have pw: "sm_find (senhas s') u = sm_find (senhas s) u" for u
    using s'(3) by (cases "sm_find (senhas s) u") auto
  have last: "0 \<le> ss_last_tid s'"
    using assms(4) s'(6) by (auto simp: restartable_def split: option.splits node.splits)
  have users: "hasUser s' = hasUser s" by (simp add: fun_eq_iff hasUser_def pw)
  have wf: "state_wf s'"
    using s'(2,4,5) last state_wf_file [OF assms(3)] by (auto simp: state_wf_iff)
  have "known_path e s' p = known_path e s p" for p
    using s'(4) by (simp add: known_path_iff inv s'(2) users)
  moreover have "file_stored e d u n (f\<lparr>uf_last_tid := 0\<rparr>) = file_stored e d u n f" for u n f
    by (simp add: file_stored_def split: option.split node.split)
  ultimately have "mirrors e d s'"
    using assms(2) s'(4) unfolding mirrors_iff [OF inv] mirrors_iff [OF s'(2)] pw users by auto
  moreover have "hasFile s' u n = hasFile s u n \<and> getFileHash s' u n = getFileHash s u n" for u n
    using s'(4) by (cases "findFile s u n") (simp_all add: hasFile_findFile getFileHash_findFile)
  ultimately show ?thesis
    using s'(1) pw wf by (auto simp: checkPassword_iff)
qed

end
