(* ===== verification/Listener.thy ===== *)
theory Listener
  imports Prelude
begin

text \<open>
  \<open>src/server/interfaces/Listener.h\<close> and the life of a \<open>RequestHandler\<close>: a thread that
  accepts connections and starts a handler for each, and \<open>stop\<close>, which closes the sockets and
  joins the threads.  What \<open>accept\<close> returns, with the value of \<open>is_running\<close> that the loop then
  sees, is a list; when it is used up, \<open>accept\<close> waits.  \<open>exit\<close> ends the process: the result
  of a call is the exit code, or \<open>None\<close> when it returns.
\<close>

record listener =
  ls_running :: bool
  ls_started :: bool
  ls_listening :: bool
  ls_handlers :: "nat list"
  ls_closed :: "nat list"

definition newListener :: listener where
  "newListener = \<lparr>ls_running = True, ls_started = False, ls_listening = False, ls_handlers = [], ls_closed = []\<rparr>"

section \<open>The handler of a connection\<close>

text \<open>\<open>RequestHandler::start\<close>; \<open>created\<close> tells whether the thread could be created.\<close>

definition handlerStart :: "bool \<Rightarrow> (listener, int option) cpp" where
  "handlerStart created = retC (if created then None else Some 1)"

text \<open>
  \<open>RequestHandler::stop\<close>: the descriptor is closed, whoever owns it by then, and the thread is
  joined; \<open>ended fd\<close> tells whether the thread of this handler ends.
\<close>

definition handlerStop :: "(nat \<Rightarrow> bool) \<Rightarrow> nat \<Rightarrow> (listener, unit) cpp" where
  "handlerStop ended fd =
     seqC (modifyC (\<lambda>l. l\<lparr>ls_closed := ls_closed l @ [fd]\<rparr>)) (if ended fd then retC () else blockC)"

section \<open>The accept loop\<close>

record accepted =
  ac_fd :: "nat option"
  ac_running :: bool
  ac_thread :: bool

fun acceptLoop :: "accepted list \<Rightarrow> (listener, int option) cpp" where
  "acceptLoop events =
     bindC (getC ls_running) (\<lambda>running.
       if \<not> running then retC None
       else
         (case events of
            [] \<Rightarrow> blockC
          | a # rest \<Rightarrow>
              seqC (modifyC (\<lambda>l. l\<lparr>ls_running := ac_running a\<rparr>))
                (if \<not> ac_running a then retC None
                 else
                   (case ac_fd a of
                      None \<Rightarrow> acceptLoop rest
                    | Some fd \<Rightarrow>
                        bindC (handlerStart (ac_thread a)) (\<lambda>code.
                          if code \<noteq> None then retC code
                          else seqC (modifyC (\<lambda>l. l\<lparr>ls_handlers := ls_handlers l @ [fd]\<rparr>)) (acceptLoop rest))))))"

declare acceptLoop.simps [simp del]

text \<open>The results of \<open>socket\<close>, \<open>getaddrinfo\<close> and \<open>bind\<close>; that of \<open>listen\<close> is not looked at.\<close>

record socket_setup =
  op_socket :: bool
  op_address :: bool
  op_bind :: bool

definition executeListener :: "socket_setup \<Rightarrow> accepted list \<Rightarrow> (listener, int option) cpp" where
  "executeListener results events =
     (if \<not> op_socket results then retC (Some 1)
      else if \<not> op_address results then retC (Some 1)
      else if \<not> op_bind results then retC (Some 1)
      else
        seqC (modifyC (\<lambda>l. l\<lparr>ls_listening := True\<rparr>))
          (bindC (acceptLoop events) (\<lambda>code.
             if code \<noteq> None then retC code
             else seqC (modifyC (\<lambda>l. l\<lparr>ls_listening := False\<rparr>)) (retC None))))"

definition startListener :: "(listener, unit) cpp" where
  "startListener = modifyC (\<lambda>l. l\<lparr>ls_started := True\<rparr>)"

text \<open>\<open>Listener::stop\<close>; \<open>joined\<close> tells whether the accepting thread ends.\<close>

definition stopListener :: "(nat \<Rightarrow> bool) \<Rightarrow> bool \<Rightarrow> (listener, unit) cpp" where
  "stopListener ended joined =
     seqC (modifyC (\<lambda>l. l\<lparr>ls_running := False, ls_listening := False\<rparr>))
    (bindC (getC ls_handlers) (\<lambda>handlers.
       seqC (forC handlers (handlerStop ended)) (if joined then retC () else blockC)))"

section \<open>One handler per connection\<close>

text \<open>The connections that were accepted while the listener ran.\<close>

fun served_fds :: "accepted list \<Rightarrow> nat list" where
  "served_fds [] = []"
| "served_fds (a # rest) =
     (if \<not> ac_running a then []
      else case ac_fd a of None \<Rightarrow> served_fds rest | Some fd \<Rightarrow> fd # served_fds rest)"

lemma acceptLoop_handlers:
  assumes "\<forall>a \<in> set events. ac_thread a" "ls_running l"
  shows "\<exists>r. acceptLoop events l =
      (if \<exists>a \<in> set events. \<not> ac_running a then Returns None r else Blocks r) \<and>
    ls_handlers r = ls_handlers l @ served_fds events \<and> ls_closed r = ls_closed l \<and>
    ls_running r = (\<forall>a \<in> set events. ac_running a)"
  using assms
proof (induction events arbitrary: l)
  case Nil
  then show ?case by (simp add: acceptLoop.simps cpp_simps)
next
  case (Cons a rest)
  show ?case
  proof (cases "ac_running a")
    case False
    with Cons.prems show ?thesis by (simp add: acceptLoop.simps [of "a # rest"] cpp_simps)
  next
    case True
    let ?l = "case ac_fd a of None \<Rightarrow> l | Some fd \<Rightarrow> l\<lparr>ls_handlers := ls_handlers l @ [fd]\<rparr>"
    have l: "l\<lparr>ls_running := True\<rparr> = l" using Cons.prems(2) by simp
    have "acceptLoop (a # rest) l = acceptLoop rest ?l"
      using True Cons.prems l
      by (cases l) (simp add: acceptLoop.simps [of "a # rest"] cpp_simps handlerStart_def split: option.split)
    moreover have "ls_running ?l" using Cons.prems(2) by (simp split: option.split)
    ultimately show ?thesis
      using Cons.IH [of ?l] Cons.prems(1) True by (auto split: option.splits)
  qed
qed

lemma handlersStop:
  "\<forall>fd \<in> set hs. ended fd \<Longrightarrow> forC hs (handlerStop ended) l = Returns () (l\<lparr>ls_closed := ls_closed l @ hs\<rparr>)"
  by (induction hs arbitrary: l) (simp_all add: handlerStop_def cpp_simps)

lemma stopListener_closes:
  assumes "\<forall>fd \<in> set (ls_handlers l). ended fd"
  shows "stopListener ended True l =
    Returns () (l\<lparr>ls_running := False, ls_listening := False, ls_closed := ls_closed l @ ls_handlers l\<rparr>)"
  using handlersStop [of "ls_handlers l" ended "l\<lparr>ls_running := False, ls_listening := False\<rparr>"] assms
  by (simp add: stopListener_def cpp_simps)

text \<open>One handler that does not end keeps \<open>stop\<close> from closing the rest.\<close>

lemma stopListener_blocks:
  assumes "ls_handlers l = hs @ fd # rest" "\<forall>h \<in> set hs. ended h" "\<not> ended fd"
  shows "\<exists>r. stopListener ended joined l = Blocks r \<and> ls_closed r = ls_closed l @ hs @ [fd]"
proof -
  have "forC (hs @ fd # rest) (handlerStop ended) l' = Blocks (l'\<lparr>ls_closed := ls_closed l' @ hs @ [fd]\<rparr>)" for l'
    using assms(2,3)
    by (induction hs arbitrary: l') (simp_all add: handlerStop_def cpp_simps)
  with assms(1) show ?thesis by (simp add: stopListener_def cpp_simps)
qed

end
