(* ===== verification/Server_Boot.thy ===== *)
theory Server_Boot
  imports Server_Correct Restart Listener
begin

text \<open>
  The life of a server process: \<open>main.cpp\<close>, the constructor of \<open>Server\<close>, its listeners
  (\<open>Listener\<close>), \<open>start\<close> and \<open>stop\<close>.  \<open>env_serverDir\<close> is the static member that the constructor
  of \<open>ServerState\<close> sets from the configuration.
\<close>

record server_process = server_world +
  sp_isRunning :: bool
  sp_admin :: "listener option"
  sp_transaction :: "listener option"

section \<open>The constructor\<close>

text \<open>
  The state is loaded from the disk before \<open>loadConfig\<close> runs; an exception of either ends the
  process.
\<close>

definition newServer :: "env \<Rightarrow> string \<Rightarrow> disk \<Rightarrow> (disk, server_process) outcome" where
  "newServer e text d =
     (case ServerState e d of
        Undefined u \<Rightarrow> Undefined u
      | Throws (d', s) \<Rightarrow> Throws d'
      | Blocks (d', s) \<Rightarrow> Blocks d'
      | Returns _ (d', s) \<Rightarrow>
          (case loadConfig text of
             Inl err \<Rightarrow> Throws d'
           | Inr cf \<Rightarrow>
               Returns (server_world.extend
                   (Server cf \<lparr>w_disk = d', w_shared = s, w_txn = new_transaction (NewFrontendTransaction [] 0)\<rparr>)
                   \<lparr>sp_isRunning = False, sp_admin = None, sp_transaction = None\<rparr>) d'))"

section \<open>start and stop\<close>

definition on_listener :: "(listener, 'b) cpp \<Rightarrow> listener option \<Rightarrow> (listener, 'b) outcome" where
  "on_listener m l = (case l of None \<Rightarrow> Undefined UninitialisedPointer | Some l \<Rightarrow> m l)"

definition onAdmin :: "(listener, 'b) cpp \<Rightarrow> ('a server_process_scheme, 'b) cpp" where
  "onAdmin m w =
     (case on_listener m (sp_admin w) of
        Returns x l \<Rightarrow> Returns x (w\<lparr>sp_admin := Some l\<rparr>)
      | Throws l \<Rightarrow> Throws (w\<lparr>sp_admin := Some l\<rparr>)
      | Blocks l \<Rightarrow> Blocks (w\<lparr>sp_admin := Some l\<rparr>)
      | Undefined u \<Rightarrow> Undefined u)"

definition onTransaction :: "(listener, 'b) cpp \<Rightarrow> ('a server_process_scheme, 'b) cpp" where
  "onTransaction m w =
     (case on_listener m (sp_transaction w) of
        Returns x l \<Rightarrow> Returns x (w\<lparr>sp_transaction := Some l\<rparr>)
      | Throws l \<Rightarrow> Throws (w\<lparr>sp_transaction := Some l\<rparr>)
      | Blocks l \<Rightarrow> Blocks (w\<lparr>sp_transaction := Some l\<rparr>)
      | Undefined u \<Rightarrow> Undefined u)"

definition startAdminListener :: "('a server_process_scheme, unit) cpp" where
  "startAdminListener = seqC (modifyC (\<lambda>w. w\<lparr>sp_admin := Some newListener\<rparr>)) (onAdmin startListener)"

definition startTransactionListener :: "('a server_process_scheme, unit) cpp" where
  "startTransactionListener =
     seqC (modifyC (\<lambda>w. w\<lparr>sp_transaction := Some newListener\<rparr>)) (onTransaction startListener)"

text \<open>\<open>Server::start\<close>: the listeners, then what \<open>serverStart\<close> models.\<close>

definition start ::
  "env \<Rightarrow> (election_event list \<times> election_event list) list \<Rightarrow>
    (election_event list \<times> election_event list) list list \<Rightarrow> ('a server_process_scheme, unit) cpp" where
  "start e rounds turns =
     seqC (modifyC (\<lambda>w. w\<lparr>sp_isRunning := True\<rparr>))
    (seqC startAdminListener
    (seqC startTransactionListener
       (serverStart e rounds turns)))"

text \<open>
  \<open>Server::stop\<close>; \<open>ended\<close> and \<open>joined\<close> tell which threads of the admin listener end.  The
  other listeners are not stopped.
\<close>

definition stop :: "(nat \<Rightarrow> bool) \<Rightarrow> bool \<Rightarrow> ('a server_process_scheme, unit) cpp" where
  "stop ended joined =
     seqC (modifyC (\<lambda>w. w\<lparr>sp_isRunning := False\<rparr>))
    (bindC (getC sp_admin) (\<lambda>l.
       if l \<noteq> None then onAdmin (stopListener ended joined) else retC ()))"

section \<open>main\<close>

text \<open>The signal handler; \<open>None\<close> is the null pointer that \<open>server\<close> is at first.\<close>

definition handle_interrupt ::
  "(nat \<Rightarrow> bool) \<Rightarrow> bool \<Rightarrow> (server_process option, unit) cpp" where
  "handle_interrupt ended joined server =
     (case server of
        None \<Rightarrow> Returns () None
      | Some p \<Rightarrow>
          (case stop ended joined p of
             Returns x p' \<Rightarrow> Returns x (Some p')
           | Throws p' \<Rightarrow> Throws (Some p')
           | Blocks p' \<Rightarrow> Blocks (Some p')
           | Undefined u \<Rightarrow> Undefined u))"

definition server_main ::
  "env \<Rightarrow> string \<Rightarrow> (election_event list \<times> election_event list) list \<Rightarrow>
    (election_event list \<times> election_event list) list list \<Rightarrow> disk \<Rightarrow> (disk + server_process, unit) outcome" where
  "server_main e text rounds turns d =
     (case newServer e text d of
        Undefined u \<Rightarrow> Undefined u
      | Throws d' \<Rightarrow> Throws (Inl d')
      | Blocks d' \<Rightarrow> Blocks (Inl d')
      | Returns p d' \<Rightarrow>
          (case start e rounds turns p of
             Returns x p' \<Rightarrow> Returns x (Inr p')
           | Throws p' \<Rightarrow> Throws (Inr p')
           | Blocks p' \<Rightarrow> Blocks (Inr p')
           | Undefined u \<Rightarrow> Undefined u))"

section \<open>A server that has just started is consistent\<close>

lemma newServer_returns:
  assumes "ServerState e d = Returns () (d', s)" "loadConfig text = Inr cf"
  shows "\<exists>p. newServer e text d = Returns p d' \<and> w_disk p = d' \<and> w_shared p = s \<and> \<not> m_isTransactionActive p \<and>
    \<not> m_isCoordinator p \<and> m_lastTid p = ss_last_tid s \<and> m_coordinator_id p = -1 \<and> sv_id p = cf_id cf \<and>
    getActiveServers p = map fst (cf_servers cf)"
  using assms
  by (simp add: newServer_def Server_def TransactionManager_def server_world.defs mgr_world.defs world.defs
      getLastTid_def getActiveServers_def replica_of_def filter_map comp_def case_prod_unfold)

text \<open>The first start: the directory of the server is created, and is empty.\<close>

lemma first_start:
  assumes "env_ok e" "fs_wf d" "servers_path e \<noteq> []" "fs_is_directory d (butlast (servers_path e))"
    and "\<forall>p. prefix (servers_path e) p \<longrightarrow> fs_lookup d p = None"
  shows "\<exists>d'. ServerState e d = Returns () (d', empty_state) \<and> mirrors e d' empty_state \<and>
    (\<forall>p. p \<noteq> servers_path e \<longrightarrow> fs_lookup d' p = fs_lookup d p)"
proof -
  let ?p = "servers_path e" and ?d = "sm_assign (servers_path e) Dir d"
  have inv: "sm_inv d" using assms(2) by (simp add: fs_wf_def)
  have look: "fs_lookup ?d p = (if p = ?p then Some Dir else fs_lookup d p)" for p
    using inv assms(3) by (simp add: fs_lookup_def sm.find_assign)
  have made: "fs_create_directory ?p d = Some ?d"
    using assms(4,5) by (simp add: fs_create_directory_def)
  have none: "fs_children ?d ?p = []"
  proof -
    have "w \<notin> set (fs_children ?d ?p)" for w
      using assms(5) by (simp add: fs_children_iff sm.inv_assign inv look)
    then show ?thesis by (cases "fs_children ?d ?p") auto
  qed
  have "ServerState e d = Returns () (?d, empty_state)"
    using made none by (simp add: ServerState_def init_def cpp_simps Let_def servers_path_def)
  moreover have "mirrors e ?d empty_state"
  proof -
    have "fs_wf ?d" using fs_wf_create_directory [OF assms(2) made] .
    then have "disk_idle e ?d"
      using look assms(5) txn_paths(1,2) [OF assms(1)] by (simp add: disk_idle_def fs_is_directory_def)
    moreover have "fs_lookup ?d p = None" if "strict_prefix ?p p" for p
      using look assms(5) that by (auto simp: strict_prefix_def)
    ultimately show ?thesis
      by (simp add: mirrors_iff) (simp add: empty_state_def findFile_def)
  qed
  ultimately show ?thesis using look by auto
qed

text \<open>A process whose constructor has returned is between transactions, with its tables on the disk.\<close>

lemma boot_quiet:
  assumes "env_ok e" "ServerState e d = Returns () (d', s)" "state_wf s" "mirrors e d' s" "loadConfig text = Inr cf"
  shows "\<exists>p. newServer e text d = Returns p d' \<and> env_ok e \<and> server_ok e p \<and> \<not> m_isTransactionActive p \<and> w_shared p = s \<and> w_disk p = d'"
proof -
  obtain p where p: "newServer e text d = Returns p d'" "w_disk p = d'" "w_shared p = s" "\<not> m_isTransactionActive p"
    "m_lastTid p = ss_last_tid s"
    using newServer_returns [OF assms(2,5)] by blast
  with assms(1,3,4) show ?thesis by (auto simp: server_ok_def)
qed

section \<open>Starting and stopping\<close>

lemma start_listens:
  "start e rounds turns w =
     serverStart e rounds turns (w\<lparr>sp_isRunning := True, sp_admin := Some (newListener\<lparr>ls_started := True\<rparr>),
       sp_transaction := Some (newListener\<lparr>ls_started := True\<rparr>)\<rparr>)"
  by (simp add: start_def startAdminListener_def startTransactionListener_def onAdmin_def onTransaction_def on_listener_def
      startListener_def cpp_simps)

text \<open>What \<open>stop\<close> does when the threads of the admin listener end: the rest goes on listening.\<close>

lemma stop_admin_only:
  assumes "sp_admin w = Some l" "\<forall>fd \<in> set (ls_handlers l). ended fd"
  shows "stop ended True w = Returns () (w\<lparr>sp_isRunning := False,
    sp_admin := Some (l\<lparr>ls_running := False, ls_listening := False, ls_closed := ls_closed l @ ls_handlers l\<rparr>)\<rparr>)"
  using assms stopListener_closes [OF assms(2)] by (simp add: stop_def onAdmin_def on_listener_def cpp_simps)

lemma stop_waits:
  assumes "sp_admin w = Some l" "fd \<in> set (ls_handlers l)" "\<not> ended fd"
  shows "\<exists>v. stop ended joined w = Blocks v"
proof -
  obtain hs rest h where "ls_handlers l = hs @ h # rest" "\<forall>h \<in> set hs. ended h" "\<not> ended h"
    using split_list_first_prop [of "ls_handlers l" "\<lambda>h. \<not> ended h"] assms(2,3) by blast
  from stopListener_blocks [OF this, of joined] assms(1) show ?thesis
    by (auto simp: stop_def onAdmin_def on_listener_def cpp_simps)
qed

end
