(* ===== verification/System_Properties.thy ===== *)
theory System_Properties
  imports Examples Races Locks Server_Boot
begin

text \<open>
  The properties of what the components share: connections and their descriptors, the
  lock of the shared state, the listeners, and handlers that run at the same time.
\<close>

section \<open>Connections\<close>

text \<open>
  A connection is open exactly while it says so.  The constructor ends in the state
  \<open>CONNECTED\<close> exactly when one of the addresses of the host accepts, with the lowest free
  descriptor open on the peer; and the destructor leaves the table of descriptors as it was
  before the constructor.
\<close>

theorem connection_roundtrip:
  assumes "sm_inv ds" "newConnection peer addrs ds = (c, ds')"
  shows "(cv_state c = CONNECTED \<longleftrightarrow> (\<exists>as. addrs = Some as \<and> Reachable \<in> set as)) \<and>
    (cv_state c = CONNECTED \<longrightarrow> cv_fd c = Some (lowest_free ds) \<and> sm_find ds' (lowest_free ds) = Some (Peer peer)) \<and>
    destroyConnection c ds' = ds"
  using newConnection_opens [OF assms] connection_closes_itself [OF assms] assms(1)
  by (auto simp: sm_find_sm_assign split: if_splits)

theorem connection_roundtrip_witness:
  "\<exists>c ds'. newConnection 2 (Some [Unreachable, Reachable]) std_streams = (c, ds') \<and> cv_state c = CONNECTED \<and>
    destroyConnection c ds' = std_streams"
proof -
  obtain c ds' where c: "newConnection 2 (Some [Unreachable, Reachable]) std_streams = (c, ds')" by fastforce
  have "sm_inv std_streams" by (simp add: std_streams_def sm_inv_def)
  from connection_roundtrip [OF this c] c show ?thesis by auto
qed

text \<open>
  Which replicas are told a result does not depend on what else the process has open:
  the loop of \<open>sendResult\<close> reaches the same servers for every table of descriptors.
\<close>

theorem reached_for_every_table:
  assumes "sm_inv ds"
  shows "result_loop ids empty_vector ds = reached ids"
  by (rule result_loop_table [OF assms])

theorem reached_for_every_table_witness:
  "result_loop [2, 3, 4] empty_vector [(0, Local), (2, Local), (7, Peer 9)] = [2, 3]"
  using reached_for_every_table [of "[(0, Local), (2, Local), (7, Peer 9)]" "[2, 3, 4]"]
  by (simp add: sm_inv_def reached_three)

section \<open>The lock of the shared state\<close>

text \<open>
  C26. A critical section is one step.  While a thread holds a read lock, no step of any
  thread changes the data.
\<close>

theorem reader_sees_one_state:
  assumes "lock_reachable x sd" "holder_at sd t = Some Reading" "act a sd = Some sd'"
  shows "sd_data sd' = sd_data sd"
  by (rule reader_stable [OF assms])

definition ex_read :: "server_state shared_data" where
  "ex_read = place 1 Reading (SharedData ex_state)"

lemma ex_read: "lock_reachable ex_state ex_read" "holder_at ex_read 1 = Some Reading"
proof -
  have "act (Acquire_shared 1) (SharedData ex_state) = Some ex_read"
    by (simp add: ReadLock_def SharedData_def can_share_def ex_read_def)
  then show "lock_reachable ex_state ex_read" by (rule lock_reachable.step [OF lock_reachable.init])
  show "holder_at ex_read 1 = Some Reading" by (simp add: ex_read_def SharedData_def)
qed

theorem reader_sees_one_state_witness:
  "\<exists>sd. act (Acquire_shared 2) ex_read = Some sd \<and> sd_data sd = ex_state"
proof -
  have act: "act (Acquire_shared 2) ex_read = Some (place 2 Reading ex_read)"
    by (simp add: ReadLock_def ex_read_def SharedData_def place_def can_share_def sm_find_def)
  have "sd_data ex_read = ex_state" by (simp add: ex_read_def SharedData_def)
  with reader_sees_one_state [OF ex_read act] have "sd_data (place 2 Reading ex_read) = ex_state" by (rule trans)
  with act show ?thesis by blast
qed

text \<open>
  C20. No wake-up is lost.  In every reachable state of the lock, a thread that sleeps has a
  condition that does not hold, so a subscriber never sleeps on an update that is there;
  and a thread that was woken and whose condition holds goes on with the lock as soon as no
  writer has it.
\<close>

theorem no_lost_wakeup:
  assumes "lock_reachable x sd"
  shows "(holder_at sd t = Some (Sleeping p) \<longrightarrow> \<not> p (sd_data sd)) \<and>
    (holder_at sd t = Some (Woken p) \<and> p (sd_data sd) \<and> (\<forall>u b. holder_at sd u \<noteq> Some (Writing b)) \<longrightarrow>
       (\<exists>sd'. act (Resume t) sd = Some sd' \<and> holder_at sd' t = Some Reading \<and> sd_data sd' = sd_data sd))"
  using sleeper_waits [OF assms] woken_goes_on [OF assms] by blast

definition ex_asleep :: "server_state shared_data" where
  "ex_asleep = place 1 (Sleeping (\<lambda>s. getLastTid s > 2)) ex_read"

lemma ex_asleep: "lock_reachable ex_state ex_asleep" "holder_at ex_asleep 1 = Some (Sleeping (\<lambda>s. getLastTid s > 2))"
proof -
  have "sd_data ex_read = ex_state" by (simp add: ex_read_def SharedData_def)
  then have "\<not> getLastTid (sd_data ex_read) > 2" by (simp add: getLastTid_def ex_state_def)
  then have "act (Call_wait 1 (\<lambda>s. getLastTid s > 2)) ex_read = Some ex_asleep"
    by (simp only: act.simps readWait_def ex_read(2) option.case holder.case ex_asleep_def if_False)
  then show "lock_reachable ex_state ex_asleep" by (rule lock_reachable.step [OF ex_read(1)])
  show "holder_at ex_asleep 1 = Some (Sleeping (\<lambda>s. getLastTid s > 2))"
    by (simp add: ex_asleep_def ex_read_def SharedData_def)
qed

theorem no_lost_wakeup_witness:
  "holder_at ex_asleep 1 = Some (Sleeping (\<lambda>s. getLastTid s > 2)) \<and> \<not> getLastTid (sd_data ex_asleep) > 2"
  using no_lost_wakeup [OF ex_asleep(1), of 1 "\<lambda>s. getLastTid s > 2"] ex_asleep(2) by simp

section \<open>Listeners\<close>

text \<open>
  C39. A listener starts one handler for each connection that it accepts while it runs, in
  their order; \<open>stop\<close> closes the descriptors of all of them, provided that their threads
  end, and waits for ever at the first one that does not.
\<close>

theorem listener_handles_all:
  assumes "\<forall>a \<in> set events. ac_thread a" "ls_running l"
  shows "\<exists>r. acceptLoop events l = (if \<exists>a \<in> set events. \<not> ac_running a then Returns None r else Blocks r) \<and>
    ls_handlers r = ls_handlers l @ served_fds events \<and>
    (\<forall>ended. (\<forall>fd \<in> set (ls_handlers r). ended fd) \<longrightarrow>
       (\<exists>q. stopListener ended True r = Returns () q \<and> ls_closed q = ls_closed l @ ls_handlers r \<and> \<not> ls_listening q)) \<and>
    (\<forall>ended joined. \<not> (\<forall>fd \<in> set (ls_handlers r). ended fd) \<longrightarrow> (\<exists>q. stopListener ended joined r = Blocks q))"
proof -
  obtain r where r: "acceptLoop events l = (if \<exists>a \<in> set events. \<not> ac_running a then Returns None r else Blocks r)"
    "ls_handlers r = ls_handlers l @ served_fds events" "ls_closed r = ls_closed l"
    using acceptLoop_handlers [OF assms] by blast
  have "\<exists>q. stopListener ended joined r = Blocks q" if some: "\<not> (\<forall>fd \<in> set (ls_handlers r). ended fd)" for ended joined
  proof -
    obtain hs fd rest where "ls_handlers r = hs @ fd # rest" "\<forall>h \<in> set hs. ended h" "\<not> ended fd"
      using split_list_first_prop [of "ls_handlers r" "\<lambda>fd. \<not> ended fd"] some by blast
    from stopListener_blocks [OF this] show ?thesis by blast
  qed
  with r stopListener_closes [of r] show ?thesis by (intro exI [of _ r]) auto
qed

definition ex_accepted_two :: "accepted list" where
  "ex_accepted_two = [\<lparr>ac_fd = Some 5, ac_running = True, ac_thread = True\<rparr>, \<lparr>ac_fd = None, ac_running = True, ac_thread = True\<rparr>,
     \<lparr>ac_fd = Some 6, ac_running = True, ac_thread = True\<rparr>]"

theorem listener_handles_all_witness:
  "\<exists>r. acceptLoop ex_accepted_two newListener = Blocks r \<and> ls_handlers r = [5, 6]"
  using listener_handles_all [of ex_accepted_two newListener] by (auto simp: ex_accepted_two_def newListener_def)

section \<open>Two logins at the same time\<close>

text \<open>
  C25. Two first logins of one user take the coordinator down.  Both handlers see that the
  user does not exist and ask for its creation; after the first one has created it, the
  second transaction is refused and uses its deleted work state.
\<close>

theorem first_logins_race:
  assumes "env_ok e" "server_ok e w" "m_isCoordinator w" "m_lastTid w < 2 ^ 31 - 2"
    and "user_ok (r_username r)" "r_password r \<noteq> []" "\<not> hasUser (w_shared w) (r_username r)"
    and "doTransaction e (CreateUserTransaction (r_username r) p) early late w = Returns True v"
  shows "(\<forall>do_txn (h :: handler_world). w_shared h = w_shared w \<longrightarrow>
      (\<exists>rest. handleLogin do_txn r 0 h = bindC (do_txn (CreateUserTransaction (r_username r) (r_password r))) rest h)) \<and>
    doTransaction e (CreateUserTransaction (r_username r) (r_password r)) early' late' v = Undefined UseAfterFree"
proof -
  have "proper (w_shared w) (CreateUserTransaction (r_username r) p)" using assms(5) by (simp add: proper_def)
  note race = second_creation_uses_freed_state [OF assms(1-4) this assms(8)]
  have "r_username r \<noteq> []" using assms(5) by (simp add: user_ok_def clean_name_def plain_name_def)
  then have "\<exists>rest. handleLogin do_txn r 0 h = bindC (do_txn (CreateUserTransaction (r_username r) (r_password r))) rest h"
    if "w_shared h = w_shared w" for do_txn and h :: handler_world
    by (intro login_creates_user) (use that assms(6,7) in simp_all)
  with race show ?thesis by blast
qed

theorem first_logins_race_witness:
  "\<exists>v. doTransaction ex_env ex_user [] [(True, 3)] ex_coord = Returns True v \<and>
    doTransaction ex_env ex_user [] [] v = Undefined UseAfterFree"
proof -
  let ?r = "login_request ''bob'' ''q''"
  have r: "r_username ?r = ''bob''" "r_password ?r = ''q''" by (simp_all add: login_request_def new_request_def)
  have user: "user_ok ''bob''" "\<not> hasUser ex_state ''bob''"
    using ex_proper(3) by (simp_all add: proper_def ex_user_def) (simp add: hasUser_def ex_state_def sm_find_def)
  obtain v where v: "doTransaction ex_env ex_user [] [(True, 3)] ex_coord = Returns True v"
    using doTransaction_accepted [of ex_env ex_coord ex_user _ "[]" "[(True, 3)]"] by (auto simp: ex_accepted unanimous_def)
  then have run: "doTransaction ex_env (CreateUserTransaction (r_username ?r) ''q'') [] [(True, 3)] ex_coord = Returns True v"
    by (simp add: ex_user_def r)
  have "doTransaction ex_env (CreateUserTransaction (r_username ?r) (r_password ?r)) [] [] v = Undefined UseAfterFree"
    using conjunct2 [OF first_logins_race [OF _ _ _ _ _ _ _ run, of "[]" "[]"]] user by (simp add: r)
  with v show ?thesis by (auto simp: ex_user_def r)
qed

text \<open>
  The limit of two sessions can be exceeded.  Two logins that look at a state with one
  session of the user both pass the check and ask for a session; both transactions are
  accepted, and the user has three sessions.
\<close>

theorem session_limit_races:
  assumes "state_wf s" "hasUser s u" "length (getUserSessions s u) = 1"
    and "pickSession s is = Some (i, is')" "pickSession s js = Some (j, js')" "to_int32 i \<noteq> to_int32 j"
  shows "(\<forall>do_txn (h :: handler_world). w_shared h = s \<and> h_rands h = is \<longrightarrow>
      (\<exists>rest. startSession do_txn u h = bindC (do_txn (CreateSessionTransaction i u)) rest (h\<lparr>h_rands := is'\<rparr>))) \<and>
    (\<forall>do_txn (h :: handler_world). w_shared h = s \<and> h_rands h = js \<longrightarrow>
      (\<exists>rest. startSession do_txn u h = bindC (do_txn (CreateSessionTransaction j u)) rest (h\<lparr>h_rands := js'\<rparr>))) \<and>
    (\<exists>s1 s2. txn_effect e tid (CreateSessionTransaction i u) s = Some s1 \<and>
       txn_effect e (tid + 1) (CreateSessionTransaction j u) s1 = Some s2 \<and> length (getUserSessions s2 u) = 3)"
proof -
  have "\<not> isSessionValid s i" "\<not> isSessionValid s j" using picked_unused assms(4,5) by blast+
  note race = sessions_exceed_limit [OF assms(1-3) this assms(6)]
  have "\<exists>rest. startSession do_txn u h = bindC (do_txn (CreateSessionTransaction n u)) rest (h\<lparr>h_rands := ns\<rparr>)"
    if "w_shared h = s" "pickSession s (h_rands h) = Some (n, ns)" for do_txn n ns and h :: handler_world
    using login_creates_session [of h u n ns do_txn] that assms(3) by simp
  with race assms(4,5) show ?thesis by simp
qed

theorem session_limit_races_witness:
  "\<exists>s1 s2. txn_effect ex_env 3 (CreateSessionTransaction 9 ''ana'') ex_state = Some s1 \<and>
    txn_effect ex_env 4 (CreateSessionTransaction 8 ''ana'') s1 = Some s2 \<and> length (getUserSessions s2 ''ana'') = 3"
proof -
  have "length (getUserSessions ex_state ''ana'') = 1" "pickSession ex_state [9] = Some (9, [])"
    "pickSession ex_state [8] = Some (8, [])"
    by (simp_all add: ex_state_def getUserSessions_def isSessionValid_def sm_find_def sm_count_def to_int32_def)
  moreover have "to_int32 9 \<noteq> to_int32 8" by simp
  ultimately show ?thesis
    using session_limit_races [OF ex_state_wf ex_names(1), of "[9]" 9 "[]" "[8]" 8 "[]" ex_env 3] by simp
qed

section \<open>Starting a server\<close>





end
