(* ===== verification/Abstract_Store.thy ===== *)
theory Abstract_Store
  imports Restart Two_Phase_System
begin

text \<open>
  What the server promises to its users, without tables, staged files, votes and tids: a
  password per user and the bytes of each file.  The durable contents of a disk refine this
  store: a transaction that is reported as committed is one abstract operation, one that is
  not is none, and a restart is none.  The interface between the two is a locale that is
  proved once for every sequence of operations and restarts.
\<close>

section \<open>The abstract store\<close>

record store =
  st_passwords :: "string \<Rightarrow> string option"
  st_files :: "string \<Rightarrow> string \<Rightarrow> string option"

definition store_apply :: "txn_kind \<Rightarrow> store \<Rightarrow> store" where
  "store_apply k st =
     (case k of
        CreateUserTransaction u p \<Rightarrow> st\<lparr>st_passwords := (st_passwords st)(u := Some p)\<rparr>
      | FileChangeTransaction u n deleted c \<Rightarrow>
          st\<lparr>st_files := (st_files st)(u := (st_files st u)(n := (if deleted then None else Some c)))\<rparr>
      | _ \<Rightarrow> st)"

definition node_bytes :: "node option \<Rightarrow> string option" where
  "node_bytes x = (case x of Some (File c) \<Rightarrow> Some c | _ \<Rightarrow> None)"

text \<open>What a disk holds durably, read from the places where a restart looks.\<close>

definition stored_in :: "env \<Rightarrow> disk \<Rightarrow> store" where
  "stored_in e d =
     \<lparr>st_passwords = (\<lambda>u. if user_ok u then node_bytes (fs_lookup d (user_path e u @ [''.password''])) else None),
      st_files = (\<lambda>u n. if user_ok u \<and> file_ok n then node_bytes (fs_lookup d (file_path e u n)) else None)\<rparr>"

lemma stored_committed:
  assumes "env_ok e" "proper s k" "\<And>u. hasUser s u \<Longrightarrow> user_ok u"
    and "fs_lookup d' = committed_view e k tid (fs_lookup d)"
  shows "stored_in e d' = store_apply k (stored_in e d)"
proof -
  have "\<forall>v m. fs_lookup d' (servers_path e @ [v, m]) =
      (case k of
         CreateUserTransaction u p \<Rightarrow>
           if v = u \<and> m = ''.password'' then Some (File p) else fs_lookup d (servers_path e @ [v, m])
       | FileChangeTransaction u n deleted c \<Rightarrow>
           if v = u \<and> m = n then (if deleted then None else Some (File c)) else fs_lookup d (servers_path e @ [v, m])
       | _ \<Rightarrow> fs_lookup d (servers_path e @ [v, m]))"
    unfolding assms(4) using committed_below(5) [OF assms(1,2,3)] by blast
  then show ?thesis
    using assms(2,3)
    by (cases k)
      (auto simp: stored_in_def store_apply_def shapes [OF assms(1)] fun_eq_iff node_bytes_def proper_def file_ok_def)
qed

text \<open>The tables of a state that the disk mirrors say what the store holds.\<close>

lemma stored_passwords:
  assumes "env_ok e" "mirrors e d s" "state_inv s"
  shows "st_passwords (stored_in e d) u = sm_find (senhas s) u"
proof (cases "sm_find (senhas s) u")
  case (Some p)
  with mirrorsD(2) [OF assms(2,3)] show ?thesis by (auto simp: stored_in_def user_stored_def node_bytes_def)
next
  case None
  have "findFile s u ''.password'' = None"
    using mirrorsD(4) [OF assms(2,3), of u "''.password''"] by (cases "findFile s u ''.password''") (auto simp: file_stored_def file_ok_def)
  then have "\<not> known_path e s (servers_path e @ [u, ''.password''])"
    using None by (simp add: known_shape(2) [OF assms] hasUser_def)
  from mirrorsD(5) [OF assms(2,3) _ this] None show ?thesis
    by (simp add: stored_in_def shapes [OF assms(1)] node_bytes_def strict_prefix_def)
qed

lemma stored_files:
  assumes "env_ok e" "mirrors e d s" "state_inv s" "user_ok u" "file_ok n"
  shows "(st_files (stored_in e d) u n \<noteq> None) = hasFile s u n"
    and "st_files (stored_in e d) u n = Some c \<Longrightarrow> getFileHash s u n = content_hash (env_xxh64 e) c"
proof -
  have some: "\<exists>c. st_files (stored_in e d) u n = Some c \<and> uf_hash f = content_hash (env_xxh64 e) c"
    if "findFile s u n = Some f" for f
    using mirrorsD(4) [OF assms(2,3) that] assms(4,5)
    by (auto simp: stored_in_def file_stored_def node_bytes_def split: option.splits node.splits)
  have none: "st_files (stored_in e d) u n = None" if "findFile s u n = None"
    using mirrors_absent(4) [OF assms(1-5) that] assms(4,5) by (simp add: stored_in_def node_bytes_def)
  show "(st_files (stored_in e d) u n \<noteq> None) = hasFile s u n"
    using some none by (cases "findFile s u n") (auto simp: hasFile_findFile)
  show "st_files (stored_in e d) u n = Some c \<Longrightarrow> getFileHash s u n = content_hash (env_xxh64 e) c"
    using some none by (cases "findFile s u n") (auto simp: getFileHash_findFile)
qed

section \<open>Histories\<close>

text \<open>
  The operations that were called one after the other with their results, and silent steps
  in between.
\<close>

inductive history_of ::
  "('w \<Rightarrow> 'op \<Rightarrow> bool \<Rightarrow> 'w \<Rightarrow> bool) \<Rightarrow> ('w \<Rightarrow> 'w \<Rightarrow> bool) \<Rightarrow> 'w \<Rightarrow> ('op \<times> bool) list \<Rightarrow> 'w \<Rightarrow> bool"
  for step silent where
  nothing: "history_of step silent w [] w"
| call: "step w k b v \<Longrightarrow> history_of step silent v h w' \<Longrightarrow> history_of step silent w ((k, b) # h) w'"
| tau: "silent w v \<Longrightarrow> history_of step silent v h w' \<Longrightarrow> history_of step silent w h w'"

definition succeeded :: "('op \<times> bool) list \<Rightarrow> 'op list" where
  "succeeded h = map fst (filter snd h)"

locale atomic_service =
  fixes step :: "'w \<Rightarrow> 'op \<Rightarrow> bool \<Rightarrow> 'w \<Rightarrow> bool"
    and silent :: "'w \<Rightarrow> 'w \<Rightarrow> bool"
    and inv :: "'w \<Rightarrow> bool"
    and abs :: "'w \<Rightarrow> 'a"
    and spec :: "'op \<Rightarrow> 'a \<Rightarrow> 'a"
  assumes call_refines: "inv w \<Longrightarrow> step w k b v \<Longrightarrow> inv v \<and> abs v = (if b then spec k (abs w) else abs w)"
    and silent_refines: "inv w \<Longrightarrow> silent w v \<Longrightarrow> inv v \<and> abs v = abs w"
begin

lemma history_refines:
  "history_of step silent w h w' \<Longrightarrow> inv w \<Longrightarrow> inv w' \<and> abs w' = fold spec (succeeded h) (abs w)"
proof (induction rule: history_of.induct)
  case (call w k b v h w')
  with call_refines [of w k b v] show ?case by (simp add: succeeded_def)
next
  case (tau w v h w')
  with silent_refines [of w v] show ?case by simp
qed (simp add: succeeded_def)

end

section \<open>A coordinator refines the store\<close>

definition between :: "env \<Rightarrow> 'a mgr_world_scheme \<Rightarrow> bool" where
  "between e w \<longleftrightarrow> env_ok e \<and> server_ok e w \<and> \<not> m_isTransactionActive w"

definition durable :: "env \<Rightarrow> 'a mgr_world_scheme \<Rightarrow> store" where
  "durable e w = stored_in e (w_disk w)"

definition transaction_step :: "env \<Rightarrow> 'a mgr_world_scheme \<Rightarrow> txn_kind \<Rightarrow> bool \<Rightarrow> 'a mgr_world_scheme \<Rightarrow> bool" where
  "transaction_step e w k b v \<longleftrightarrow>
     proper (w_shared w) k \<and> (\<exists>early late. doTransaction e k early late w = Returns b v)"

text \<open>A restart: the state is read from the disk, and the manager is a new one.\<close>

definition restart_step :: "env \<Rightarrow> mgr_world \<Rightarrow> mgr_world \<Rightarrow> bool" where
  "restart_step e w v \<longleftrightarrow>
     restartable e (w_disk w) (w_shared w) \<and>
     (\<exists>d s x rs c. ServerState e (w_disk w) = Returns () (d, s) \<and>
        v = TransactionManager x \<lparr>w_disk = d, w_shared = s, w_txn = w_txn w\<rparr> rs c)"

lemma restart_step_keeps:
  assumes "between e w" "restart_step e w v"
  shows "between e v \<and> durable e v = durable e w"
proof -
  have ok: "env_ok e" "mirrors e (w_disk w) (w_shared w)" "state_wf (w_shared w)"
    using assms(1) by (auto simp: between_def server_ok_def)
  obtain d s x rs c where v: "restartable e (w_disk w) (w_shared w)" "ServerState e (w_disk w) = Returns () (d, s)"
    "v = TransactionManager x \<lparr>w_disk = d, w_shared = s, w_txn = w_txn w\<rparr> rs c"
    using assms(2) by (auto simp: restart_step_def)
  from restart_mirrors [OF ok v(1)] v(2) have "d = w_disk w" "state_wf s" "mirrors e (w_disk w) s" by auto
  with v(3) ok(1) show ?thesis
    by (simp add: between_def durable_def server_ok_def TransactionManager_def world.defs getLastTid_def)
qed

lemma transaction_step_refines:
  assumes "between e w" "transaction_step e w k b v"
  shows "between e v \<and> durable e v = (if b then store_apply k (durable e w) else durable e w)"
proof -
  obtain early late where run: "doTransaction e k early late w = Returns b v" and k: "proper (w_shared w) k"
    using assms(2) by (auto simp: transaction_step_def)
  have ok: "env_ok e" "server_ok e w" "mirrors e (w_disk w) (w_shared w)" "state_inv (w_shared w)"
    using assms(1) by (auto simp: between_def server_ok_def)
  from doTransaction_returns [OF ok(1,2) k run] have v: "server_ok e v" "served e k w b v" by auto
  have "durable e v = store_apply k (durable e w)" if b
    unfolding durable_def
    by (rule stored_committed [OF ok(1) k]) (use v(2) that mirrorsD(3) [OF ok(3,4)] in \<open>auto simp: served_def\<close>)
  with v assms(1) show ?thesis by (auto simp: between_def served_def durable_def)
qed

interpretation coordinator: atomic_service "transaction_step e" "restart_step e" "between e" "durable e" store_apply for e
  by unfold_locales (erule (1) transaction_step_refines, erule (1) restart_step_keeps)

section \<open>A system refines the store\<close>

text \<open>Each server that finishes a transaction has made the same abstract step.\<close>

lemma finished_stored:
  assumes "node_ok e k w" "finished e k tid w b d s" "b \<longrightarrow> accepts e k tid w"
  shows "stored_in e d = (if b then store_apply k (stored_in e (w_disk w)) else stored_in e (w_disk w))"
proof (cases b)
  case False
  with assms(2) show ?thesis by (auto simp: finished_def split: option.splits)
next
  case True
  have ok: "env_ok e" "mirrors e (w_disk w) (w_shared w)" "state_inv (w_shared w)" "proper (w_shared w) k"
    using assms(1) by (auto simp: node_ok_def)
  from True assms(2,3) have "fs_lookup d = committed_view e k tid (fs_lookup (w_disk w))"
    by (auto simp: finished_def accepts_def)
  from stored_committed [OF ok(1,4) _ this] mirrorsD(3) [OF ok(2,3)] True show ?thesis by auto
qed

lemma system_stores_alike:
  assumes "system_start en c k S0" "reachable en c k S0 S" "s_rphase S i = RDone b"
    and "i \<in> set (getActiveServers (s_coord S0))"
  shows "stored_in (en c) (w_disk (s_coord S)) =
      (if b then store_apply k (stored_in (en c) (w_disk (s_coord S0))) else stored_in (en c) (w_disk (s_coord S0))) \<and>
    stored_in (en i) (w_disk (s_rep S i)) =
      (if b then store_apply k (stored_in (en i) (w_disk (s_rep S0 i))) else stored_in (en i) (w_disk (s_rep S0 i)))"
proof -
  have c: "s_cphase S = CDone b"
    and fi: "finished (en i) k (the_tid S0) (s_rep S0 i) b (w_disk (s_rep S i)) (w_shared (s_rep S i))"
    using replica_follows [OF assms(1-3)] by auto
  have fc: "finished (en c) k (the_tid S0) (s_coord S0) b (w_disk (s_coord S)) (w_shared (s_coord S))"
    by (rule coordinator_finished [OF assms(1,2) c])
  have yes: "b \<longrightarrow> accepts (en c) k (the_tid S0) (s_coord S0) \<and> accepts (en i) k (the_tid S0) (s_rep S0 i)"
    using commit_unanimous [OF assms(1,2) c] assms(4)
    by (auto simp: all_yes_def coordinator_yes_def says_yes_def members_def)
  have nodes: "node_ok (en c) k (s_coord S0)" "node_ok (en i) k (s_rep S0 i)"
    using assms(1,4) by (auto simp: system_start_def)
  from finished_stored [OF nodes(1) fc] finished_stored [OF nodes(2) fi] yes show ?thesis by blast
qed

end
