(* ===== verification/Crash.thy ===== *)
theory Crash
  imports Abstract_Store
begin

text \<open>
  A server that stops in the middle of a transaction leaves staged files behind.  When it
  starts again, \<open>ServerState::init\<close> removes every entry whose name ends in a tilde: this is
  a rollback for the kinds that stage a new file, loses the file of a deletion, and fails
  for a new user, whose staged entry is a directory.
\<close>

section \<open>Temporary entries\<close>

definition is_temp :: "string \<Rightarrow> bool" where
  "is_temp w \<longleftrightarrow> last w = CHR ''~''"

definition temp_entry :: "env \<Rightarrow> path \<Rightarrow> bool" where
  "temp_entry e p \<longleftrightarrow> strict_prefix (servers_path e) p \<and> is_temp (last p)"

definition sweep :: "env \<Rightarrow> disk \<Rightarrow> disk" where
  "sweep e d = filter (\<lambda>x. \<not> temp_entry e (fst x)) d"

text \<open>A server directory of files and of directories of files, whose temporary entries are files.\<close>

definition sweepable :: "env \<Rightarrow> disk \<Rightarrow> bool" where
  "sweepable e d \<longleftrightarrow>
     fs_wf d \<and> (\<forall>p. temp_entry e p \<longrightarrow> fs_lookup d p \<noteq> Some Dir) \<and>
     (\<forall>u n. fs_lookup d (servers_path e @ [u, n]) \<noteq> Some Dir)"

lemma temp_entry_below [simp]:
  "temp_entry e (servers_path e @ [v]) = is_temp v" "temp_entry e (servers_path e @ [v, n]) = is_temp n"
  by (simp_all add: temp_entry_def strict_prefix_def)

lemma temp_entry_not_Nil: "temp_entry e p \<Longrightarrow> p \<noteq> []"
  by (auto simp: temp_entry_def)

lemma lookup_sweep: "fs_lookup (sweep e d) p = (if temp_entry e p then None else fs_lookup d p)"
  using temp_entry_not_Nil [of e p]
  by (auto simp: sweep_def fs_lookup_def sm_find_filter [where P = "\<lambda>p. \<not> temp_entry e p"])

lemma sweep_wf:
  assumes "sweepable e d"
  shows "fs_wf (sweep e d)"
proof (rule fs_wfI)
  have wf: "fs_wf d" using assms by (simp add: sweepable_def)
  then show "sm_inv (sweep e d)" by (simp add: sweep_def sm_inv_filter)
  show "sm_find (sweep e d) [] = None"
    using wf by (simp add: sweep_def sm_find_filter [where P = "\<lambda>p. \<not> temp_entry e p"] fs_wf_root)
  show "fs_lookup (sweep e d) (butlast r) = Some Dir" if "fs_lookup (sweep e d) r \<noteq> None" "r \<noteq> []" for r
  proof -
    have "fs_lookup d (butlast r) = Some Dir"
      using that fs_wf_parent [OF wf, of r] by (auto simp: lookup_sweep split: if_splits)
    with assms show ?thesis by (auto simp: sweepable_def lookup_sweep)
  qed
qed

lemma sweep_eqI:
  assumes "fs_wf d" "fs_wf d'" "\<And>p. \<not> temp_entry e p \<Longrightarrow> fs_lookup d' p = fs_lookup d p"
  shows "sweep e d' = sweep e d"
proof (rule sm.entries_inject)
  show "sm_find (sweep e d') p = sm_find (sweep e d) p" for p
    using assms(3) [of p] assms(1,2)
    by (cases "p = []") (auto simp: sweep_def sm_find_filter [where P = "\<lambda>p. \<not> temp_entry e p"] fs_lookup_def fs_wf_root)
qed (use assms(1,2) in \<open>simp_all add: sweep_def sm_inv_filter\<close>)

lemma children_sweep:
  assumes "prefix (servers_path e) dir"
  shows "fs_children (sweep e d) dir = filter (\<lambda>n. \<not> is_temp n) (fs_children d dir)"
proof -
  have "temp_entry e p = is_temp (last p)" if "p \<noteq> []" "butlast p = dir" for p
  proof -
    have "p = dir @ [last p]" using that by (metis append_butlast_last_id)
    moreover obtain r where "dir = servers_path e @ r" using assms by (auto elim: prefixE)
    ultimately have "p = servers_path e @ (r @ [last p])" by simp
    then have "strict_prefix (servers_path e) p" by (metis Nil_is_append_conv not_Cons_self2 strict_prefix_def prefixI self_append_conv)
    then show ?thesis by (simp add: temp_entry_def)
  qed
  then show ?thesis
    unfolding fs_children_def sweep_def by (induction d) auto
qed

section \<open>Loading a disk with temporary entries\<close>

text \<open>What one directory of a user adds to the state, and what one entry of the server directory adds.\<close>

definition loaded_files :: "env \<Rightarrow> disk \<Rightarrow> path \<Rightarrow> string \<Rightarrow> string list \<Rightarrow> server_state \<Rightarrow> server_state" where
  "loaded_files e d dir u ns s = fold (boot_entry e d dir u) (filter (\<lambda>n. \<not> is_temp n) ns) s"

definition loaded :: "env \<Rightarrow> disk \<Rightarrow> string \<Rightarrow> server_state \<Rightarrow> server_state" where
  "loaded e d v s =
     (let dir = servers_path e @ [v] in
      if is_temp v then s
      else if fs_is_directory d dir then loaded_files e d dir v (fs_children d dir) s
      else if v = ''tid'' then setLastTid (read_int (fs_read d dir)) s
      else s)"

lemma boot_entry_cong:
  "fs_lookup d (dir @ [n]) = fs_lookup d' (dir @ [n]) \<Longrightarrow> boot_entry e d dir u n = boot_entry e d' dir u n"
  by (cases "n = ''.password''")
    (simp_all add: fun_eq_iff boot_entry_def boot_password_def boot_file_def fs_read_def getFileDigest_def)

lemma loaded_files_cong:
  assumes "\<forall>n \<in> set ns. \<not> is_temp n \<longrightarrow> fs_lookup d (dir @ [n]) = fs_lookup d' (dir @ [n])"
  shows "loaded_files e d dir u ns s = loaded_files e d' dir u ns s"
  unfolding loaded_files_def
proof (rule fold_cong)
  show "boot_entry e d dir u n = boot_entry e d' dir u n" if "n \<in> set (filter (\<lambda>n. \<not> is_temp n) ns)" for n
    using assms that by (intro boot_entry_cong) simp
qed simp_all

lemma initFile_temp:
  assumes "is_temp n" "fs_lookup d (dir @ [n]) \<noteq> Some Dir"
  shows "\<exists>d'. initFile e u dir n (d, s) = Returns () (d', s) \<and> fs_remove (dir @ [n]) d = Some d'"
proof -
  obtain d' where "fs_remove (dir @ [n]) d = Some d'" using fs_remove_file [OF assms(2)] by blast
  with assms show ?thesis
    by (simp add: initFile_def cpp_simps Let_def fs_is_directory_def is_temp_def)
qed

lemma initFiles_run:
  assumes "fs_wf d" "\<forall>n \<in> set ns. \<not> fs_is_directory d (dir @ [n])"
  shows "\<exists>d'. forC ns (initFile e u dir) (d, s) = Returns () (d', loaded_files e d dir u ns s) \<and> fs_wf d' \<and>
    (\<forall>p. fs_lookup d' p = (if \<exists>n \<in> set ns. is_temp n \<and> p = dir @ [n] then None else fs_lookup d p))"
  using assms
proof (induction ns arbitrary: d s)
  case Nil
  then show ?case by (simp add: cpp_simps loaded_files_def)
next
  case (Cons n ns)
  show ?case
  proof (cases "is_temp n")
    case False
    with Cons.prems(2) have step: "initFile e u dir n (d, s) = Returns () (d, boot_entry e d dir u n s)"
      by (intro initFile_loads) (auto simp: is_temp_def)
    from Cons.IH [OF Cons.prems(1), of "boot_entry e d dir u n s"] Cons.prems(2) False step show ?thesis
      by (auto simp: seqC_case loaded_files_def)
  next
    case True
    then obtain d1 where d1: "initFile e u dir n (d, s) = Returns () (d1, s)" "fs_remove (dir @ [n]) d = Some d1"
      using initFile_temp [of n d dir e u s] Cons.prems(2) by (auto simp: fs_is_directory_def)
    note look = fs_lookup_remove [OF d1(2)]
    have "\<forall>m \<in> set ns. \<not> fs_is_directory d1 (dir @ [m])" using Cons.prems(2) by (simp add: look fs_is_directory_def)
    from Cons.IH [OF fs_wf_remove [OF Cons.prems(1) d1(2)] this, of s] obtain d' where d':
      "forC ns (initFile e u dir) (d1, s) = Returns () (d', loaded_files e d1 dir u ns s)" "fs_wf d'"
      "\<forall>p. fs_lookup d' p = (if \<exists>m \<in> set ns. is_temp m \<and> p = dir @ [m] then None else fs_lookup d1 p)" by blast
    have "loaded_files e d1 dir u ns s = loaded_files e d dir u ns s"
      using True by (intro loaded_files_cong) (auto simp: look)
    with d' d1(1) True show ?thesis
      by (auto simp: seqC_case loaded_files_def look)
  qed
qed

lemma below_no_directory: "fs_wf d \<Longrightarrow> fs_lookup d p \<noteq> Some Dir \<Longrightarrow> fs_lookup d (p @ [n]) = None"
  using fs_wf_ancestor [of d p "[n]"] by fastforce

text \<open>The temporary entries that \<open>initEntry\<close> removes.\<close>

definition swept_at :: "env \<Rightarrow> string \<Rightarrow> path \<Rightarrow> bool" where
  "swept_at e v p \<longleftrightarrow> temp_entry e p \<and> (p = servers_path e @ [v] \<or> (\<exists>n. p = servers_path e @ [v, n]))"

lemma initEntry_run:
  assumes "fs_wf d" "is_temp v \<Longrightarrow> fs_lookup d (servers_path e @ [v]) \<noteq> Some Dir"
    and "\<And>n. fs_lookup d (servers_path e @ [v, n]) \<noteq> Some Dir"
  shows "\<exists>d'. initEntry e (servers_path e) v (d, s) = Returns () (d', loaded e d v s) \<and> fs_wf d' \<and>
    (\<forall>p. fs_lookup d' p = (if swept_at e v p then None else fs_lookup d p))"
proof -
  let ?dir = "servers_path e @ [v]"
  note wf = assms(1) and temp = assms(2) and kids = assms(3)
  have below: "fs_lookup d (servers_path e @ [v, n]) = None" if "fs_lookup d ?dir \<noteq> Some Dir" for n
    using below_no_directory [OF wf that, of n] by simp
  consider "is_temp v" | "\<not> is_temp v" "fs_is_directory d ?dir" | "\<not> is_temp v" "\<not> fs_is_directory d ?dir" by blast
  then show ?thesis
  proof cases
    case 1
    obtain d' where d': "fs_remove ?dir d = Some d'" using fs_remove_file [OF temp [OF 1]] by blast
    with 1 below [OF temp [OF 1]] show ?thesis
      using fs_wf_remove [OF wf d'] fs_lookup_remove [OF d']
      by (auto simp: initEntry_def cpp_simps Let_def loaded_def is_temp_def swept_at_def)
  next
    case 2
    have "\<forall>n \<in> set (fs_children d ?dir). \<not> fs_is_directory d (?dir @ [n])"
      using kids by (simp add: fs_is_directory_def)
    from initFiles_run [OF wf this, of e v s] obtain d' where d':
      "forC (fs_children d ?dir) (initFile e v ?dir) (d, s) = Returns () (d', loaded_files e d ?dir v (fs_children d ?dir) s)"
      "fs_wf d'"
      "\<forall>p. fs_lookup d' p = (if \<exists>n \<in> set (fs_children d ?dir). is_temp n \<and> p = ?dir @ [n] then None else fs_lookup d p)"
      by blast
    have "fs_lookup d' p = (if swept_at e v p then None else fs_lookup d p)" for p
      using d'(3) 2(1) wf by (auto simp: swept_at_def fs_children_iff)
    with 2 d'(1,2) show ?thesis
      by (simp add: initEntry_def cpp_simps Let_def loaded_def is_temp_def)
  next
    case 3
    then have "(if swept_at e v p then None else fs_lookup d p) = fs_lookup d p" for p
      using below by (auto simp: swept_at_def fs_is_directory_def)
    with 3 wf show ?thesis
      by (auto simp: initEntry_def cpp_simps Let_def loaded_def is_temp_def)
  qed
qed

lemma loaded_sweep:
  "loaded e (sweep e d) v s = loaded e d v s"
proof (cases "is_temp v")
  case False
  let ?dir = "servers_path e @ [v]"
  have same: "fs_lookup (sweep e d) ?dir = fs_lookup d ?dir" using False by (simp add: lookup_sweep)
  have "loaded_files e (sweep e d) ?dir v (fs_children (sweep e d) ?dir) s =
      loaded_files e (sweep e d) ?dir v (fs_children d ?dir) s"
    by (simp add: children_sweep loaded_files_def)
  also have "\<dots> = loaded_files e d ?dir v (fs_children d ?dir) s"
    by (intro loaded_files_cong) (simp add: lookup_sweep)
  finally show ?thesis
    using False same by (cases "v = ''tid''") (simp_all add: loaded_def Let_def fs_is_directory_def fs_read_def)
qed (simp add: loaded_def Let_def)

lemma sweepable_less:
  assumes "sweepable e d" "fs_wf d'" "\<And>p. fs_lookup d' p = (if Q p \<and> temp_entry e p then None else fs_lookup d p)"
  shows "sweepable e d'" "sweep e d' = sweep e d"
proof -
  show "sweepable e d'" using assms by (auto simp: sweepable_def)
  show "sweep e d' = sweep e d"
    by (rule sweep_eqI) (use assms in \<open>auto simp: sweepable_def\<close>)
qed

lemma entries_run:
  assumes "sweepable e d"
  shows "\<exists>d'. forC vs (initEntry e (servers_path e)) (d, s) = Returns () (d', fold (loaded e d) vs s) \<and> fs_wf d' \<and>
    (\<forall>p. fs_lookup d' p = (if \<exists>v \<in> set vs. swept_at e v p then None else fs_lookup d p))"
  using assms
proof (induction vs arbitrary: d s)
  case Nil
  then show ?case by (simp add: cpp_simps sweepable_def)
next
  case (Cons v vs)
  obtain d1 where d1: "initEntry e (servers_path e) v (d, s) = Returns () (d1, loaded e d v s)" "fs_wf d1"
    "\<forall>p. fs_lookup d1 p = (if swept_at e v p then None else fs_lookup d p)"
    using initEntry_run [of d v e s] Cons.prems by (auto simp: sweepable_def)
  have less: "sweepable e d1" "sweep e d1 = sweep e d"
  proof -
    have "fs_lookup d1 p = (if swept_at e v p \<and> temp_entry e p then None else fs_lookup d p)" for p
      using d1(3) by (auto simp: swept_at_def)
    from sweepable_less [OF Cons.prems d1(2) this] show "sweepable e d1" "sweep e d1 = sweep e d" by blast+
  qed
  have same: "loaded e d1 = loaded e d"
    using less(2) by (intro ext) (metis loaded_sweep)
  from Cons.IH [OF less(1), of "loaded e d v s"] d1(1,3) show ?case
    by (auto simp: seqC_case same)
qed

text \<open>
  A start on such a disk is a start on the disk without the temporary entries, and leaves
  that disk.
\<close>

lemma init_sweeps:
  assumes "sweepable e d" "fs_lookup d (servers_path e) = Some Dir"
  shows "\<exists>s. ServerState e d = Returns () (sweep e d, s) \<and> ServerState e (sweep e d) = Returns () (sweep e d, s)"
proof -
  have init: "ServerState e b = (case forC (fs_children b (servers_path e)) (initEntry e (servers_path e)) (b, empty_state) of
      Returns x t \<Rightarrow> Returns () t | Throws t \<Rightarrow> Throws t | Blocks t \<Rightarrow> Blocks t | Undefined u \<Rightarrow> Undefined u)"
    if "fs_lookup b (servers_path e) = Some Dir" for b
    using that
    by (simp add: ServerState_def init_def cpp_simps Let_def fs_create_directory_def servers_path_def split: outcome.split)
  let ?vs = "fs_children d (servers_path e)" and ?ws = "fs_children (sweep e d) (servers_path e)"
  have ws: "?ws = filter (\<lambda>v. \<not> is_temp v) ?vs" by (rule children_sweep) simp
  have clean: "sweepable e (sweep e d)" "sweep e (sweep e d) = sweep e d"
    using assms(1) sweep_wf [OF assms(1)] by (auto simp: sweepable_def lookup_sweep) (simp add: sweep_def)
  have load: "fold (loaded e d) ?ws s = fold (loaded e d) ?vs s" for s
  proof -
    have "fold (loaded e d) (filter (\<lambda>v. \<not> is_temp v) vs) s = fold (loaded e d) vs s" for vs
      by (induction vs arbitrary: s) (simp_all add: loaded_def Let_def)
    then show ?thesis by (simp add: ws)
  qed
  have same: "loaded e (sweep e d) = loaded e d" by (intro ext) (rule loaded_sweep)
  obtain d1 where d1: "forC ?vs (initEntry e (servers_path e)) (d, empty_state) = Returns () (d1, fold (loaded e d) ?vs empty_state)"
    "fs_wf d1" "\<forall>p. fs_lookup d1 p = (if \<exists>v \<in> set ?vs. swept_at e v p then None else fs_lookup d p)"
    using entries_run [OF assms(1)] by blast
  obtain d2 where d2: "forC ?ws (initEntry e (servers_path e)) (sweep e d, empty_state) =
      Returns () (d2, fold (loaded e (sweep e d)) ?ws empty_state)"
    "fs_wf d2" "\<forall>p. fs_lookup d2 p = (if \<exists>v \<in> set ?ws. swept_at e v p then None else fs_lookup (sweep e d) p)"
    using entries_run [OF clean(1)] by blast
  have wf: "fs_wf d" using assms(1) by (simp add: sweepable_def)
  have all: "\<exists>v \<in> set ?vs. swept_at e v p" if p: "temp_entry e p" "fs_lookup d p \<noteq> None" for p
  proof -
    obtain r where r: "p = servers_path e @ r" "r \<noteq> []"
      using p(1) by (auto simp: temp_entry_def strict_prefix_def elim!: prefixE)
    then obtain v r' where v: "r = v # r'" by (cases r) auto
    have deep: "fs_lookup d (servers_path e @ [v, n] @ r'') = None" if "r'' \<noteq> []" for n r''
      using fs_wf_ancestor [OF wf, of "servers_path e @ [v, n]" r''] assms(1) that
      by (cases "fs_lookup d (servers_path e @ [v, n] @ r'')") (auto simp: sweepable_def)
    have "r' = [] \<or> (\<exists>n. r' = [n])"
    proof (cases r')
      case (Cons n r'')
      with p(2) r(1) v deep [of r'' n] show ?thesis by (cases r'') auto
    qed simp
    moreover have "v \<in> set ?vs"
      using p(2) r(1) v fs_wf_ancestor [OF wf, of "servers_path e @ [v]" r'] wf by (cases r') (auto simp: fs_children_iff)
    ultimately show ?thesis using p(1) r(1) v by (auto simp: swept_at_def)
  qed
  have "fs_lookup d1 p = fs_lookup (sweep e d) p" for p
    using d1(3) all [of p] by (cases "fs_lookup d p") (auto simp: lookup_sweep swept_at_def)
  then have "d1 = sweep e d"
    by (intro fs_wf_inject [OF d1(2) sweep_wf [OF assms(1)]] ext)
  moreover have "d2 = sweep e d"
    by (rule fs_wf_inject [OF d2(2) sweep_wf [OF assms(1)]], rule ext)
      (use d2(3) in \<open>auto simp: lookup_sweep swept_at_def\<close>)
  moreover have "fs_lookup (sweep e d) (servers_path e) = Some Dir"
    using assms(2) by (simp add: lookup_sweep temp_entry_def)
  ultimately show ?thesis
    using init [OF assms(2)] init [of "sweep e d"] d1(1) d2(1) by (simp add: load same)
qed

section \<open>A crash while a transaction is open\<close>

lemma mirrored_clean:
  assumes "env_ok e" "mirrors e b s" "state_inv s"
  shows "temp_entry e p \<Longrightarrow> fs_lookup b p = None" "sweepable e b"
proof -
  note D = mirrorsD [OF assms(2,3)]
  have clean: "\<not> temp_entry e p" if "known_path e s p" for p
    using that D(3,4) unfolding known_path_shape [OF assms]
    by (auto simp: is_temp_def user_ok_def file_ok_def clean_name_def file_stored_def dest: D(3))
  show none: "fs_lookup b p = None" if "temp_entry e p" for p
    using D(5) [of p] clean that by (auto simp: temp_entry_def)
  have "fs_lookup b (servers_path e @ [u, n]) \<noteq> Some Dir" for u n
  proof (cases "known_path e s (servers_path e @ [u, n])")
    case False
    then show ?thesis using D(5) [of "servers_path e @ [u, n]"] by (simp add: strict_prefix_def)
  next
    case True
    then consider pw where "n = ''.password''" "sm_find (senhas s) u = Some pw" | f where "findFile s u n = Some f"
      unfolding known_shape(2) [OF assms] by (auto simp: hasUser_def)
    then show ?thesis
    proof cases
      case 1
      with D(2) [OF 1(2)] shapes(2) [OF assms(1), of u] show ?thesis by (auto simp: user_stored_def)
    next
      case 2
      with D(3,4) shapes(4) [OF assms(1), of u n] show ?thesis
        by (fastforce simp: file_stored_def split: option.splits)
    qed
  qed
  moreover have "fs_wf b" using D(1) by (simp add: disk_idle_def)
  ultimately show "sweepable e b" using none by (auto simp: sweepable_def)
qed

text \<open>The disk of a prepared transaction, when it stages no directory.\<close>

lemma prepared_sweepable:
  assumes "env_ok e" "mirrors e b s" "state_inv s" "proper s k" "kind_ready e (fs_lookup b) k"
    and "\<forall>u p. k \<noteq> CreateUserTransaction u p"
    and "fs_wf d" "fs_lookup d = prepared_view e k tid (fs_lookup b)"
  shows "sweepable e d"
    and "fs_lookup (sweep e d) = (case k of
        FileChangeTransaction u n deleted c \<Rightarrow>
          if deleted then (fs_lookup b)(file_path e u n := None) else fs_lookup b
      | _ \<Rightarrow> fs_lookup b)"
proof -
  note clean = mirrored_clean [OF assms(1-3)]
  have tid: "temp_entry e (tid_temp e)" by (simp add: txn_paths(2) [OF assms(1)]) (simp add: is_temp_def)
  have staged: "temp_entry e (file_temp e u n) \<and> \<not> temp_entry e (file_path e u n) \<and>
      (\<exists>v m. file_temp e u n = servers_path e @ [v, m])"
    if "k = FileChangeTransaction u n deleted c" for u n deleted c
  proof -
    have ok: "user_ok u" "file_ok n" using that assms(4) mirrorsD(3) [OF assms(2,3)] by (auto simp: proper_def)
    then have "is_temp (n @ ''~'')" "\<not> is_temp n" by (simp_all add: is_temp_def file_ok_def clean_name_def)
    with ok show ?thesis by (simp add: shapes [OF assms(1)])
  qed
  have kept: "fs_lookup b (file_path e u n) \<noteq> Some Dir" if "k = FileChangeTransaction u n deleted c" for u n deleted c
    using that assms(5) by (simp add: kind_ready_def)
  show "sweepable e d"
    using clean assms(6,7) kept
    by (cases k) (auto simp: sweepable_def assms(8) prepared_view_def staged_view_def tid_text_def)
  show "fs_lookup (sweep e d) = (case k of
        FileChangeTransaction u n deleted c \<Rightarrow>
          if deleted then (fs_lookup b)(file_path e u n := None) else fs_lookup b
      | _ \<Rightarrow> fs_lookup b)"
    using clean(1) assms(6) staged tid
    by (cases k) (auto simp: fun_eq_iff lookup_sweep assms(8) prepared_view_def staged_view_def)
qed

text \<open>A coordinator that has prepared a transaction and waits for the votes.\<close>

lemma prepared_coordinator:
  assumes "env_ok e" "server_ok e w" "m_isCoordinator w" "\<not> m_isTransactionActive w" "m_lastTid w < 2 ^ 31 - 1"
    and "proper (w_shared w) k" "txn_effect e (next_tid w) k (w_shared w) \<noteq> None"
    and "startTransaction e k early w = Returns () v"
  shows "mirrors e (w_disk w) (w_shared w) \<and> state_inv (w_shared w) \<and> kind_ready e (fs_lookup (w_disk w)) k \<and>
    fs_wf (w_disk v) \<and> fs_lookup (w_disk v) = prepared_view e k (next_tid w) (fs_lookup (w_disk w))"
proof -
  have ok: "mirrors e (w_disk w) (w_shared w)" "state_inv (w_shared w)"
    using assms(2,4) by (auto simp: server_ok_def)
  obtain s' where s': "txn_effect e (next_tid w) k (w_shared w) = Some s'" using assms(7) by blast
  note ready = proper_ready [OF assms(1) ok assms(6) s']
  from startTransaction_accepts [OF assms(1) server_ok_idle [OF assms(2-5)] ready s', of early] assms(8) ok ready
  show ?thesis by auto
qed

definition stages_new_files :: "txn_kind \<Rightarrow> bool" where
  "stages_new_files k \<longleftrightarrow>
     (case k of CreateUserTransaction u p \<Rightarrow> False | FileChangeTransaction u n deleted c \<Rightarrow> \<not> deleted | _ \<Rightarrow> True)"

lemma crash_undoes:
  assumes "env_ok e" "server_ok e w" "m_isCoordinator w" "\<not> m_isTransactionActive w" "m_lastTid w < 2 ^ 31 - 1"
    and "proper (w_shared w) k" "txn_effect e (next_tid w) k (w_shared w) \<noteq> None"
    and "startTransaction e k early w = Returns () v" "stages_new_files k"
  shows "\<exists>s. ServerState e (w_disk v) = Returns () (w_disk w, s) \<and> ServerState e (w_disk w) = Returns () (w_disk w, s)"
proof -
  note P = prepared_coordinator [OF assms(1-8)]
  then have idle: "disk_idle e (w_disk w)" using mirrorsD(1) by blast
  have k: "\<forall>u p. k \<noteq> CreateUserTransaction u p" using assms(9) by (auto simp: stages_new_files_def)
  note S = prepared_sweepable [OF assms(1) _ _ assms(6) _ k]
  have sweep: "sweepable e (w_disk v)" and look: "fs_lookup (sweep e (w_disk v)) = fs_lookup (w_disk w)"
    using P S(1) [of "w_disk w" "w_disk v" "next_tid w"] S(2) [of "w_disk w" "w_disk v" "next_tid w"] assms(9)
    by (auto simp: stages_new_files_def split: txn_kind.splits)
  have "sweep e (w_disk v) = w_disk w"
    by (rule fs_wf_inject [OF sweep_wf [OF sweep] _ look]) (use idle in \<open>simp add: disk_idle_def\<close>)
  moreover have "fs_lookup (w_disk v) (servers_path e) = Some Dir"
    using idle fun_cong [OF look, of "servers_path e"]
    by (simp add: lookup_sweep temp_entry_def disk_idle_def fs_is_directory_def)
  ultimately show ?thesis using init_sweeps [OF sweep] by simp
qed

text \<open>A deletion that was only prepared is carried out by the restart.\<close>

lemma crash_deletes:
  assumes "env_ok e" "server_ok e w" "m_isCoordinator w" "\<not> m_isTransactionActive w" "m_lastTid w < 2 ^ 31 - 1"
    and "proper (w_shared w) k" "txn_effect e (next_tid w) k (w_shared w) \<noteq> None"
    and "startTransaction e k early w = Returns () v" "k = FileChangeTransaction u n True c"
  shows "\<exists>d s. ServerState e (w_disk v) = Returns () (d, s) \<and> st_files (stored_in e d) u n = None \<and>
    st_files (stored_in e (w_disk w)) u n \<noteq> None \<and> stored_in e d = store_apply k (stored_in e (w_disk w))"
proof -
  note P = prepared_coordinator [OF assms(1-8)]
  then have idle: "disk_idle e (w_disk w)" using mirrorsD(1) by blast
  have S: "sweepable e (w_disk v)"
    "fs_lookup (sweep e (w_disk v)) = (fs_lookup (w_disk w))(file_path e u n := None)"
    using prepared_sweepable [OF assms(1) _ _ assms(6), of "w_disk w" "w_disk v" "next_tid w"] P assms(9) by auto
  have ok: "user_ok u" "file_ok n" "hasFile (w_shared w) u n"
    using assms(6,7,9) P mirrorsD(3) [of e "w_disk w" "w_shared w" u]
    by (auto simp: proper_def txn_effect_def kind_effect_def effect_lookups split: if_splits)
  have root: "fs_lookup (w_disk v) (servers_path e) = Some Dir"
    using idle fun_cong [OF S(2), of "servers_path e"] ok
    by (simp add: lookup_sweep temp_entry_def disk_idle_def fs_is_directory_def shapes [OF assms(1)])
  have stored: "stored_in e (sweep e (w_disk v)) = store_apply k (stored_in e (w_disk w))"
    using ok(1,2) by (auto simp: stored_in_def S(2) store_apply_def assms(9) fun_eq_iff shapes [OF assms(1)] node_bytes_def file_ok_def)
  moreover have "st_files (stored_in e (w_disk w)) u n \<noteq> None"
    using stored_files(1) [OF assms(1) _ _ ok(1,2), of "w_disk w" "w_shared w"] P ok(3) by simp
  moreover have "st_files (store_apply k (stored_in e (w_disk w))) u n = None"
    by (simp add: store_apply_def assms(9))
  ultimately show ?thesis using init_sweeps [OF S(1) root] by metis
qed

section \<open>A crash while a user is created\<close>

lemma forC_throws:
  assumes "w \<in> set xs" "I s"
    and "\<And>x s. I s \<Longrightarrow> x \<in> set xs \<Longrightarrow> x \<noteq> w \<Longrightarrow> \<exists>t. f x s = Returns () t \<and> I t"
    and "\<And>s. I s \<Longrightarrow> \<exists>t. f w s = Throws t"
  shows "\<exists>t. forC xs f s = Throws t"
  using assms(1-3)
proof (induction xs arbitrary: s)
  case (Cons x xs)
  show ?case
  proof (cases "x = w")
    case True
    with assms(4) [OF Cons.prems(2)] show ?thesis by (auto simp: seqC_case)
  next
    case False
    then obtain t where t: "f x s = Returns () t" "I t" using Cons.prems(2,3) by (metis list.set_intros(1))
    from Cons.IH [OF _ t(2)] Cons.prems(1,3) False t(1) show ?thesis by (auto simp: seqC_case)
  qed
qed simp

text \<open>A staged user directory makes the constructor throw: \<open>remove\<close> does not remove a directory with a file.\<close>

lemma init_throws:
  assumes "fs_wf d" "fs_lookup d (servers_path e) = Some Dir" "is_temp t"
    and "fs_lookup d (servers_path e @ [t]) = Some Dir" "fs_lookup d (servers_path e @ [t, ''.password'']) \<noteq> None"
    and "\<And>v. v \<noteq> t \<Longrightarrow> is_temp v \<Longrightarrow> fs_lookup d (servers_path e @ [v]) \<noteq> Some Dir"
    and "\<And>v n. fs_lookup d (servers_path e @ [v, n]) \<noteq> Some Dir"
  shows "\<exists>w. ServerState e d = Throws w"
proof -
  let ?vs = "fs_children d (servers_path e)"
  define I where "I = (\<lambda>(b, s :: server_state). fs_wf b \<and>
      (\<forall>p. fs_lookup b p = fs_lookup d p \<or> fs_lookup b p = None \<and> temp_entry e p \<and> p \<noteq> servers_path e @ [t]))"
  have mem: "t \<in> set ?vs" using assms(1,4) by (simp add: fs_children_iff)
  have step: "\<exists>w. initEntry e (servers_path e) v bs = Returns () w \<and> I w" if I: "I bs" and v: "v \<noteq> t" for v bs
  proof -
    obtain b s where b: "bs = (b, s)" by (cases bs)
    have look: "fs_lookup b p = fs_lookup d p \<or> fs_lookup b p = None \<and> temp_entry e p \<and> p \<noteq> servers_path e @ [t]" for p
      using I b by (simp add: I_def)
    have "is_temp v \<Longrightarrow> fs_lookup b (servers_path e @ [v]) \<noteq> Some Dir"
      using look [of "servers_path e @ [v]"] assms(6) [OF v] by auto
    moreover have "fs_lookup b (servers_path e @ [v, n]) \<noteq> Some Dir" for n
      using look [of "servers_path e @ [v, n]"] assms(7) [of v n] by auto
    ultimately obtain b' where b': "initEntry e (servers_path e) v (b, s) = Returns () (b', loaded e b v s)" "fs_wf b'"
      "\<forall>p. fs_lookup b' p = (if swept_at e v p then None else fs_lookup b p)"
      using initEntry_run [of b v e s] I b by (auto simp: I_def)
    have "I (b', loaded e b v s)"
      using b'(2,3) look v by (auto simp: I_def swept_at_def)
    with b'(1) b show ?thesis by blast
  qed
  have throws: "\<exists>w. initEntry e (servers_path e) t bs = Throws w" if I: "I bs" for bs
  proof -
    obtain b s where b: "bs = (b, s)" by (cases bs)
    have wf: "fs_wf b" and look: "fs_lookup b p = fs_lookup d p \<or> temp_entry e p \<and> p \<noteq> servers_path e @ [t]" for p
      using I b by (auto simp: I_def)
    have dir: "fs_lookup b (servers_path e @ [t]) = Some Dir"
      and pw: "fs_lookup b (servers_path e @ [t, ''.password'']) \<noteq> None"
      using look [of "servers_path e @ [t]"] look [of "servers_path e @ [t, ''.password'']"] assms(4,5)
      by (auto simp: is_temp_def)
    have "''.password'' \<in> set (fs_children b (servers_path e @ [t]))"
      using wf pw by (simp add: fs_children_iff)
    then have "fs_remove (servers_path e @ [t]) b = None"
      using dir by (auto simp: fs_remove_def)
    with assms(3) b show ?thesis by (simp add: initEntry_def cpp_simps Let_def is_temp_def throwC_def)
  qed
  have "I (d, empty_state)" using assms(1) by (simp add: I_def)
  from forC_throws [of t ?vs I "(d, empty_state)" "initEntry e (servers_path e)", OF mem this] step throws
  obtain w where "forC ?vs (initEntry e (servers_path e)) (d, empty_state) = Throws w" by blast
  then show ?thesis
    using assms(2) by (simp add: ServerState_def init_def cpp_simps Let_def fs_create_directory_def servers_path_def)
qed

lemma crash_blocks_restart:
  assumes "env_ok e" "server_ok e w" "m_isCoordinator w" "\<not> m_isTransactionActive w" "m_lastTid w < 2 ^ 31 - 1"
    and "proper (w_shared w) k" "txn_effect e (next_tid w) k (w_shared w) \<noteq> None"
    and "startTransaction e k early w = Returns () v" "k = CreateUserTransaction u p"
  shows "\<exists>t. ServerState e (w_disk v) = Throws t"
proof -
  note P = prepared_coordinator [OF assms(1-8)]
  then have idle: "disk_idle e (w_disk w)" and clean: "sweepable e (w_disk w)"
    using mirrorsD(1) mirrored_clean(2) [OF assms(1)] by blast+
  have u: "user_ok u" using assms(6,9) by (simp add: proper_def)
  have temp: "user_temp e u = servers_path e @ [u @ ''~'']" "tid_temp e = servers_path e @ [''tid~'']"
    using shapes(3) [OF assms(1) u] txn_paths(2) [OF assms(1)] by auto
  have look: "fs_lookup (w_disk v) = (fs_lookup (w_disk w))(servers_path e @ [u @ ''~''] := Some Dir,
      servers_path e @ [u @ ''~'', ''.password''] := Some (File p), servers_path e @ [''tid~''] := tid_text (next_tid w))"
    using P assms(9) by (simp add: prepared_view_def staged_view_def temp)
  have other: "u @ ''~'' \<noteq> ''tid~''" using u append_same_eq [of u "''~''" "''tid''"] by (simp add: user_ok_def)
  show ?thesis
  proof (rule init_throws [where t = "u @ ''~''"])
    show "fs_wf (w_disk v)" using P by blast
    show "fs_lookup (w_disk v) (servers_path e) = Some Dir"
      using idle by (simp add: look disk_idle_def fs_is_directory_def)
    show "is_temp (u @ ''~'')" by (simp add: is_temp_def)
    show "fs_lookup (w_disk v) (servers_path e @ [u @ ''~'']) = Some Dir"
      using other by (simp add: look)
    show "fs_lookup (w_disk v) (servers_path e @ [u @ ''~'', ''.password'']) \<noteq> None" by (simp add: look)
    show "fs_lookup (w_disk v) (servers_path e @ [x]) \<noteq> Some Dir" if "x \<noteq> u @ ''~''" "is_temp x" for x
      using that clean by (auto simp: look sweepable_def tid_text_def)
    show "fs_lookup (w_disk v) (servers_path e @ [x, n]) \<noteq> Some Dir" for x n
      using clean by (auto simp: look sweepable_def)
  qed
qed

end
