(* ===== verification/Store_Properties.thy ===== *)
theory Store_Properties
  imports Crash Examples
begin

text \<open>
  The properties of the durable contents of the servers: what the users of the system can
  rely on, over any number of transactions and restarts, and across a crash.
\<close>

section \<open>Facts on the example\<close>





text \<open>
  C9. The replicas refine the same store.  A replica that has finished a transaction has
  made the abstract step that the coordinator made: the operation if it was committed, none
  if it was not.
\<close>

theorem replicas_refine_store:
  assumes "system_start en c k S0" "reachable en c k S0 S" "s_rphase S i = RDone b"
    and "i \<in> set (getActiveServers (s_coord S0))"
  shows "durable (en c) (s_coord S) = (if b then store_apply k (durable (en c) (s_coord S0)) else durable (en c) (s_coord S0)) \<and>
    durable (en i) (s_rep S i) = (if b then store_apply k (durable (en i) (s_rep S0 i)) else durable (en i) (s_rep S0 i))"
  unfolding durable_def by (rule system_stores_alike [OF assms])

theorem replicas_refine_store_witness:
  "\<exists>S b. reachable (\<lambda>_. ex_env) 1 ex_user ex_sys S \<and> s_rphase S 2 = RDone b \<and>
     durable ex_env (s_rep S 2) = durable ex_env (s_coord S)"
proof -
  obtain S b where S: "reachable (\<lambda>_. ex_env) 1 ex_user ex_sys S" "s_rphase S 2 = RDone b"
    using can_complete [OF ex_start ex_answer reachable.refl] by auto
  from replicas_refine_store [OF ex_start S] S show ?thesis by (auto simp: durable_def)
qed

text \<open>
  C22. A crash rolls back what stages a new file.  A coordinator that stops after it has
  prepared an upload, a session or a front end, before the decision, comes up again with
  the disk and the state that it would have come up with before the transaction.
\<close>

theorem crash_is_rollback:
  assumes "env_ok e" "server_ok e w" "m_isCoordinator w" "\<not> m_isTransactionActive w" "m_lastTid w < 2 ^ 31 - 1"
    and "proper (w_shared w) k" "txn_effect e (next_tid w) k (w_shared w) \<noteq> None"
    and "startTransaction e k early w = Returns () v" "stages_new_files k"
  shows "ServerState e (w_disk v) = ServerState e (w_disk w) \<and>
    (\<exists>s. ServerState e (w_disk v) = Returns () (w_disk w, s))"
  using crash_undoes [OF assms] by auto

lemma ex_prepared:
  assumes "proper ex_state k" "txn_effect ex_env 3 k ex_state \<noteq> None"
  shows "\<exists>v. startTransaction ex_env k [] ex_coord = Returns () v"
proof -
  obtain s' where s': "txn_effect ex_env 3 k ex_state = Some s'" using assms(2) by blast
  have "kind_ready ex_env (fs_lookup ex_disk) k"
    by (rule proper_ready [OF ex_env_ok ex_mirrors ex_state_inv assms(1) s'])
  with startTransaction_accepts [of ex_env ex_coord k s' "[]"] s' show ?thesis by auto
qed

theorem crash_is_rollback_witness:
  "\<exists>v s. startTransaction ex_env ex_upload [] ex_coord = Returns () v \<and> ServerState ex_env (w_disk v) = Returns () (ex_disk, s)"
proof -
  obtain v where v: "startTransaction ex_env ex_upload [] ex_coord = Returns () v"
    using ex_prepared [of ex_upload] ex_effect by auto
  have "stages_new_files ex_upload" by (simp add: stages_new_files_def ex_upload_def)
  then have "\<exists>s. ServerState ex_env (w_disk v) = Returns () (w_disk ex_coord, s)"
    using ex_effect by (intro conjunct2 [OF crash_is_rollback [OF _ _ _ _ _ _ _ v]]) simp_all
  with v show ?thesis by auto
qed

text \<open>
  C23. A crash carries out a deletion that was not decided.  The file was renamed to a
  temporary name when the deletion was prepared, and a restart removes the temporary
  entries: the coordinator that stopped before the decision comes up without the file,
  while its replicas may roll back and keep it.
\<close>

theorem crash_loses_deleted_file:
  assumes "env_ok e" "server_ok e w" "m_isCoordinator w" "\<not> m_isTransactionActive w" "m_lastTid w < 2 ^ 31 - 1"
    and "proper (w_shared w) (FileChangeTransaction u n True c)"
    and "txn_effect e (next_tid w) (FileChangeTransaction u n True c) (w_shared w) \<noteq> None"
    and "startTransaction e (FileChangeTransaction u n True c) early w = Returns () v"
  shows "st_files (durable e w) u n \<noteq> None \<and>
    (\<exists>d s. ServerState e (w_disk v) = Returns () (d, s) \<and> st_files (stored_in e d) u n = None)"
  using crash_deletes [OF assms HOL.refl] by (auto simp: durable_def)

theorem crash_loses_deleted_file_witness:
  "\<exists>v d s. startTransaction ex_env ex_delete [] ex_coord = Returns () v \<and>
    ServerState ex_env (w_disk v) = Returns () (d, s) \<and> st_files (stored_in ex_env d) ''ana'' ''a.txt'' = None"
proof -
  obtain v where v: "startTransaction ex_env ex_delete [] ex_coord = Returns () v"
    using ex_prepared [of ex_delete] ex_accepted(2) [of 3] by auto
  have "proper ex_state ex_delete" "txn_effect ex_env 3 ex_delete ex_state \<noteq> None"
    using ex_accepted(2) [of 3] by simp_all
  with crash_loses_deleted_file [of ex_env ex_coord "''ana''" "''a.txt''" "[]" "[]" v] v show ?thesis
    by (auto simp: ex_delete_def)
qed



end
