(* ===== verification/Client_Main.thy ===== *)
theory Client_Main
  imports Client Listener
begin

text \<open>
  The rest of \<open>src/client/mainClient.cpp\<close>: the command line of the user
  (\<open>thread_front_end\<close>) with its buffers, and \<open>main\<close>.  What is typed is a string; when it is
  used up, \<open>fgets\<close> waits, or gives \<open>NULL\<close> if the input was closed.  The buffers start
  uninitialised (\<open>None\<close>) and keep their contents from one turn of the loop to the next.
\<close>

record front_world = client_world +
  fe_stdin :: string
  fe_closed :: bool
  fe_buffer :: "string option"
  fe_command :: "string option"
  fe_path :: "string option"

section \<open>fgets\<close>

abbreviation newline :: char where
  "newline \<equiv> CHR 0x0A"

text \<open>At most \<open>n - 1\<close> characters, up to the end of the line, which is kept.\<close>

definition split_line :: "nat \<Rightarrow> string \<Rightarrow> string \<times> string" where
  "split_line n s =
     (let m = takeWhile (\<lambda>c. c \<noteq> newline) s;
          k = (if length m < n - 1 then min (Suc (length m)) (length s) else n - 1)
      in (take k s, drop k s))"

definition fgets :: "nat \<Rightarrow> ('a front_world_scheme, unit) cpp" where
  "fgets n w =
     (let (line, rest) = split_line n (fe_stdin w) in
      if \<not> fe_closed w \<and> newline \<notin> set line \<and> length line < n - 1 then Blocks w
      else if line = [] then Returns () w
      else Returns () (w\<lparr>fe_stdin := rest, fe_buffer := Some line\<rparr>))"

section \<open>sscanf\<close>

text \<open>The next word and what follows it; a buffer ends at its first null character.\<close>

definition scan_word :: "string \<Rightarrow> (string \<times> string) option" where
  "scan_word s =
     (case dropWhile is_space s of
        [] \<Rightarrow> None
      | c # cs \<Rightarrow> Some (takeWhile (\<lambda>c. \<not> is_space c) (c # cs), dropWhile (\<lambda>c. \<not> is_space c) (c # cs)))"

text \<open>
  \<open>sscanf(buffer, "%s %s", command, file_path)\<close>: a word that is missing leaves its argument
  as it was, and a word with its final null character can be longer than \<open>command[50]\<close> or
  \<open>file_path[150]\<close>.
\<close>

definition scan_command :: "string \<Rightarrow> string option \<Rightarrow> string option \<Rightarrow> (string option \<times> string option) option" where
  "scan_command buffer command path =
     (case scan_word (takeWhile (\<lambda>c. c \<noteq> CHR 0x00) buffer) of
        None \<Rightarrow> Some (command, path)
      | Some (w, rest) \<Rightarrow>
          if 50 \<le> length w then None
          else (case scan_word rest of
                  None \<Rightarrow> Some (Some w, path)
                | Some (v, _) \<Rightarrow> if 150 \<le> length v then None else Some (Some w, Some v)))"

definition sscanf_command :: "('a front_world_scheme, unit) cpp" where
  "sscanf_command w =
     (case fe_buffer w of
        None \<Rightarrow> Undefined UninitialisedValue
      | Some b \<Rightarrow>
          (case scan_command b (fe_command w) (fe_path w) of
             None \<Rightarrow> Undefined OutOfBounds
           | Some (c, p) \<Rightarrow> Returns () (w\<lparr>fe_command := c, fe_path := p\<rparr>)))"

section \<open>The loop of the command line\<close>

definition needs_path :: "string \<Rightarrow> bool" where
  "needs_path c \<longleftrightarrow> c \<in> {''download'', ''upload'', ''delete''}"

text \<open>\<open>terminal_Interaction(command, file_path)\<close> on the two buffers.\<close>

definition interact :: "env \<Rightarrow> ('a front_world_scheme, int) cpp" where
  "interact e =
     bindC (getC (\<lambda>w. (fe_command w, fe_path w))) (\<lambda>(command, path).
       case command of
         None \<Rightarrow> undefinedC UninitialisedValue
       | Some c \<Rightarrow>
           (case path of
              None \<Rightarrow> if needs_path c then undefinedC UninitialisedValue else terminal_Interaction e c []
            | Some p \<Rightarrow> terminal_Interaction e c p))"

definition frontEndTurn :: "env \<Rightarrow> ('a front_world_scheme, unit) cpp" where
  "frontEndTurn e =
     seqC (fgets 64) (seqC sscanf_command
       (bindC (interact e) (\<lambda>r. modifyC (\<lambda>w. w\<lparr>c_notExit := (r \<noteq> 0)\<rparr>))))"

text \<open>\<open>thread_front_end\<close> for at most so many turns; the result tells whether it has ended.\<close>

fun thread_front_end :: "env \<Rightarrow> nat \<Rightarrow> ('a front_world_scheme, bool) cpp" where
  "thread_front_end e n =
     bindC (getC c_notExit) (\<lambda>go.
       if \<not> go then retC True
       else (case n of 0 \<Rightarrow> retC False | Suc m \<Rightarrow> seqC (frontEndTurn e) (thread_front_end e m)))"

declare thread_front_end.simps [simp del]

section \<open>main\<close>

text \<open>
  \<open>argv\<close> is the list of the arguments with the name of the program; \<open>home\<close> is the value of
  \<open>HOME\<close>, \<open>connected\<close> tells whether the server accepts the connection.  The result is the
  exit code, or \<open>None\<close> when the threads were started.
\<close>

definition DAEMON_PORT :: int where
  "DAEMON_PORT = 6666"

definition subscription :: "string \<Rightarrow> request" where
  "subscription hostname = (new_request FRONTEND_SUBSCRIBE)\<lparr>r_hostname := hostname, r_port := DAEMON_PORT\<rparr>"

definition client_main ::
  "string list \<Rightarrow> string \<Rightarrow> string \<Rightarrow> bool \<Rightarrow> ('a client_world_scheme, int option) cpp" where
  "client_main argv password home connected =
     (case argv of
        [program, username, hostname, port, local_hostname] \<Rightarrow>
          seqC (modifyC (\<lambda>w. w\<lparr>c_connected := connected\<rparr>))
         (seqC (ClientConnection hostname (read_int port) username password (-1))
         (bindC (request_response (subscription local_hostname)) (\<lambda>response.
            if (case response of None \<Rightarrow> True | Some r \<Rightarrow> is_error r) then retC (Some 1)
            else
              bindC (getC (\<lambda>w. w)) (\<lambda>w.
                if \<not> c_connected w then retC (Some 1)
                else if \<not> isLogged w then retC (Some 1)
                else
                  seqC (modifyC (\<lambda>w. w\<lparr>c_syncDirPath := read_word (home @ ''/sync_dir_'' @ username), c_notExit := True\<rparr>))
                    (retC None)))))
      | _ \<Rightarrow> retC (Some 1))"

text \<open>
  \<open>thread_daemon_listener\<close>: the listener to which a new coordinator announces itself runs in a
  thread of its own, and this one sleeps for ever.
\<close>

definition thread_daemon_listener :: "(listener, unit) cpp" where
  "thread_daemon_listener = seqC startListener blockC"

section \<open>The command line, turn by turn\<close>

text \<open>What a turn does once the buffers hold a command.\<close>

definition obey :: "env \<Rightarrow> string \<Rightarrow> string \<Rightarrow> ('a front_world_scheme, unit) cpp" where
  "obey e c p = bindC (terminal_Interaction e c p) (\<lambda>r. modifyC (\<lambda>w. w\<lparr>c_notExit := (r \<noteq> 0)\<rparr>))"

definition word_ok :: "string \<Rightarrow> bool" where
  "word_ok w \<longleftrightarrow> w \<noteq> [] \<and> (\<forall>c \<in> set w. \<not> is_space c \<and> c \<noteq> CHR 0x00)"

lemma space_facts [simp]: "is_space newline" "is_space CHR '' ''" "\<not> is_space CHR 0x00"
  by (simp_all add: is_space_def)

lemma split_line_whole:
  assumes "newline \<notin> set l" "Suc (length l) < n"
  shows "split_line n (l @ newline # rest) = (l @ [newline], rest)"
proof -
  have "takeWhile (\<lambda>c. c \<noteq> newline) (l @ newline # rest) = l"
    using assms(1) by (simp add: takeWhile_append2 takeWhile_tail) (metis (mono_tags, lifting) takeWhile_eq_all_conv)
  with assms(2) show ?thesis by (simp add: split_line_def Let_def)
qed

lemma fgets_line:
  assumes "fe_stdin w = l @ newline # rest" "newline \<notin> set l" "Suc (length l) < n"
  shows "fgets n w = Returns () (w\<lparr>fe_stdin := rest, fe_buffer := Some (l @ [newline])\<rparr>)"
  using assms by (simp add: fgets_def split_line_whole)

lemma fgets_bound:
  assumes "fgets n w = Returns () w'"
  shows "w' = w \<or> (\<exists>l rest. fe_stdin w = l @ rest \<and> length l \<le> n - 1 \<and> w' = w\<lparr>fe_stdin := rest, fe_buffer := Some l\<rparr>)"
proof -
  let ?m = "takeWhile (\<lambda>c. c \<noteq> newline) (fe_stdin w)"
  define k where "k = (if length ?m < n - 1 then min (Suc (length ?m)) (length (fe_stdin w)) else n - 1)"
  then have k: "split_line n (fe_stdin w) = (take k (fe_stdin w), drop k (fe_stdin w))" "k \<le> n - 1"
    by (simp add: split_line_def Let_def) (auto simp: k_def)
  with assms have "w' = w \<or> w' = w\<lparr>fe_stdin := drop k (fe_stdin w), fe_buffer := Some (take k (fe_stdin w))\<rparr>"
    by (auto simp: fgets_def split: if_splits)
  with k(2) show ?thesis
    by (metis append_take_drop_id length_take min.coboundedI2)
qed

lemma scan_word_at:
  assumes "word_ok v" "\<forall>c \<in> set sp. is_space c" "rest = [] \<or> is_space (hd rest)"
  shows "scan_word (sp @ v @ rest) = Some (v, rest)"
proof -
  have "dropWhile is_space (sp @ v @ rest) = v @ rest"
    using assms(1,2) by (cases v) (auto simp: word_ok_def dropWhile_append2)
  moreover have "takeWhile (\<lambda>c. \<not> is_space c) (v @ rest) = v" "dropWhile (\<lambda>c. \<not> is_space c) (v @ rest) = rest"
    using assms(1,3) by (cases rest; auto simp: word_ok_def takeWhile_append2 dropWhile_append2)+
  ultimately show ?thesis using assms(1) by (cases v) (auto simp: scan_word_def word_ok_def)
qed

lemma scan_blank: "\<forall>c \<in> set s. is_space c \<Longrightarrow> scan_word s = None"
proof -
  assume "\<forall>c \<in> set s. is_space c"
  then have "dropWhile is_space s = []" by (simp only: dropWhile_eq_Nil_conv)
  then show ?thesis unfolding scan_word_def by (rule ssubst) simp
qed

lemma no_null: "word_ok v \<Longrightarrow> takeWhile (\<lambda>c. c \<noteq> CHR 0x00) (v @ r) = v @ takeWhile (\<lambda>c. c \<noteq> CHR 0x00) r"
  by (rule takeWhile_append2) (auto simp: word_ok_def)

lemma word_line: "word_ok v \<Longrightarrow> newline \<notin> set v"
  unfolding word_ok_def using space_facts(1) by blast

lemma scan_two:
  assumes "word_ok c" "word_ok p" "length c < 50" "length p < 150"
  shows "scan_command (c @ '' '' @ p @ [newline]) oc op = Some (Some c, Some p)"
proof -
  have "scan_word (c @ '' '' @ p @ [newline]) = Some (c, '' '' @ p @ [newline])"
    using scan_word_at [OF assms(1), of "[]" "'' '' @ p @ [newline]"] by simp
  moreover have "scan_word ('' '' @ p @ [newline]) = Some (p, [newline])"
    using scan_word_at [OF assms(2), of "'' ''" "[newline]"] by simp
  ultimately show ?thesis
    using assms by (simp add: scan_command_def no_null)
qed

lemma scan_one:
  assumes "word_ok c" "length c < 50"
  shows "scan_command (c @ [newline]) oc op = Some (Some c, op)"
proof -
  have "scan_word (c @ [newline]) = Some (c, [newline])"
    using scan_word_at [OF assms(1), of "[]" "[newline]"] by simp
  then show ?thesis
    using assms by (simp add: scan_command_def no_null scan_blank)
qed

lemma turn_scanned:
  assumes "fgets 64 w = Returns () v" "fe_buffer v = Some b" "scan_command b (fe_command v) (fe_path v) = Some (Some c, Some p)"
  shows "frontEndTurn e w = obey e c p (v\<lparr>fe_command := Some c, fe_path := Some p\<rparr>)"
  using assms by (simp add: frontEndTurn_def sscanf_command_def interact_def obey_def cpp_simps)

lemma turn_two_words:
  assumes "fe_stdin w = c @ '' '' @ p @ newline # rest" "word_ok c" "word_ok p" "length c < 50" "length c + length p \<le> 61"
  shows "frontEndTurn e w = obey e c p (w\<lparr>fe_stdin := rest, fe_buffer := Some (c @ '' '' @ p @ [newline]),
    fe_command := Some c, fe_path := Some p\<rparr>)"
proof -
  have "fgets 64 w = Returns () (w\<lparr>fe_stdin := rest, fe_buffer := Some ((c @ '' '' @ p) @ [newline])\<rparr>)"
    by (rule fgets_line) (use assms word_line in auto)
  from turn_scanned [OF this, of "c @ '' '' @ p @ [newline]" c p e] scan_two assms show ?thesis by simp
qed

lemma turn_one_word:
  assumes "fe_stdin w = c @ newline # rest" "word_ok c" "length c < 50" "fe_path w = Some p"
  shows "frontEndTurn e w = obey e c p (w\<lparr>fe_stdin := rest, fe_buffer := Some (c @ [newline]), fe_command := Some c\<rparr>)"
proof -
  have "fgets 64 w = Returns () (w\<lparr>fe_stdin := rest, fe_buffer := Some (c @ [newline])\<rparr>)"
    by (rule fgets_line) (use assms word_line in auto)
  from turn_scanned [OF this, of "c @ [newline]" c p e] scan_one assms show ?thesis
    by (cases w) simp
qed

lemma turn_blank:
  assumes "fe_stdin w = newline # rest" "fe_command w = Some c" "fe_path w = Some p"
  shows "frontEndTurn e w = obey e c p (w\<lparr>fe_stdin := rest, fe_buffer := Some [newline]\<rparr>)"
proof -
  have "fgets 64 w = Returns () (w\<lparr>fe_stdin := rest, fe_buffer := Some ([] @ [newline])\<rparr>)"
    by (rule fgets_line) (use assms in auto)
  from turn_scanned [OF this, of "[newline]" c p e] assms show ?thesis
    by (cases w) (simp add: scan_command_def scan_blank)
qed

text \<open>The first word overruns \<open>command\<close> when it has 50 characters; the second one never overruns \<open>file_path\<close>.\<close>

lemma first_word:
  assumes "scan_word s = Some (v, r)"
  shows "v = read_word s \<and> length v + length r \<le> length s"
proof -
  let ?d = "dropWhile is_space s"
  have v: "v = takeWhile (\<lambda>c. \<not> is_space c) ?d" "r = dropWhile (\<lambda>c. \<not> is_space c) ?d"
    using assms by (auto simp: scan_word_def split: list.splits)
  then have "v @ r = ?d" by simp
  then have "length v + length r = length ?d" by (metis length_append)
  with v(1) show ?thesis by (simp add: read_word_def length_dropWhile_le)
qed

lemma overrun_iff:
  assumes "length b \<le> 63"
  shows "scan_command b c p = None \<longleftrightarrow> 50 \<le> length (read_word (takeWhile (\<lambda>c. c \<noteq> CHR 0x00) b))"
proof (cases "scan_word (takeWhile (\<lambda>c. c \<noteq> CHR 0x00) b)")
  case None
  then have "dropWhile is_space (takeWhile (\<lambda>c. c \<noteq> CHR 0x00) b) = []"
    unfolding scan_word_def by (cases "dropWhile is_space (takeWhile (\<lambda>c. c \<noteq> CHR 0x00) b)") simp_all
  then have "read_word (takeWhile (\<lambda>c. c \<noteq> CHR 0x00) b) = []"
    unfolding read_word_def by (rule ssubst) simp
  with None show ?thesis by (simp add: scan_command_def)
next
  case (Some x)
  obtain v r where x: "x = (v, r)" by (cases x)
  have "length r \<le> 63" using first_word Some x assms length_takeWhile_le [of "\<lambda>c. c \<noteq> CHR 0x00" b] by fastforce
  then have "length u < 150" if "scan_word r = Some (u, t)" for u t
    using first_word [OF that] by linarith
  moreover have "v = read_word (takeWhile (\<lambda>c. c \<noteq> CHR 0x00) b)" using first_word Some x by blast
  ultimately show ?thesis
    using Some x by (cases "scan_word r") (auto simp: scan_command_def not_le [symmetric])
qed

section \<open>How the client starts\<close>

lemma ClientConnection_login:
  assumes "ClientConnection h p u pw (-1) w = Returns () v"
  shows "(c_connected w \<longrightarrow> c_sent v = c_sent w @ [(0, (new_request LOGIN)\<lparr>r_username := u, r_password := pw\<rparr>)]) \<and>
    (\<not> c_connected w \<longrightarrow> c_sent v = c_sent w) \<and> c_hostname v = h \<and> c_port v = p \<and>
    (c_connected v \<longrightarrow> c_connected w \<and> c_session v \<noteq> -1)"
  using assms
  by (auto simp: ClientConnection_def doLogin_def sendRequest_def receiveResponse_def cpp_simps
      split: outcome.splits list.splits option.splits response.splits if_splits)

text \<open>The subscription of the front end goes out before the result of the login is looked at.\<close>

lemma client_main_sends:
  assumes "client_main [prog, u, h, port, local] pw home connected w = Returns r v"
  shows "\<exists>session. c_sent v = c_sent w @
      (if connected then [(0, (new_request LOGIN)\<lparr>r_username := u, r_password := pw\<rparr>)] else []) @
      [(session, subscription local)] \<and>
    (r = None \<longrightarrow> connected \<and> c_connected v \<and> c_session v \<noteq> -1 \<and> c_notExit v \<and>
       c_hostname v = h \<and> c_port v = read_int port \<and> c_syncDirPath v = read_word (home @ ''/sync_dir_'' @ u))"
proof -
  let ?w = "w\<lparr>c_connected := connected\<rparr>"
  obtain v1 where v1: "ClientConnection h (read_int port) u pw (-1) ?w = Returns () v1"
    using assms by (auto simp: client_main_def cpp_simps split: outcome.splits)
  note L = ClientConnection_login [OF v1]
  obtain resp v2 where v2: "request_response (subscription local) v1 = Returns resp v2"
    using assms v1 by (auto simp: client_main_def cpp_simps split: outcome.splits)
  then have R: "c_sent v2 = c_sent v1 @ [(c_session v1, subscription local)]" "c_session v2 = c_session v1"
    "c_connected v2 = c_connected v1" "c_hostname v2 = c_hostname v1" "c_port v2 = c_port v1"
    by (auto simp: request_response_def sendRequest_def receiveResponse_def cpp_simps split: list.splits)
  from assms v1 v2 have "v = v2 \<and> r = Some 1 \<or> r = None \<and> c_connected v2 \<and>
      v = v2\<lparr>c_syncDirPath := read_word (home @ ''/sync_dir_'' @ u), c_notExit := True\<rparr>"
    by (auto simp: client_main_def isLogged_def cpp_simps split: if_splits)
  with L R show ?thesis by auto
qed

end
