(* ===== verification/Client_Properties.thy ===== *)
theory Client_Properties
  imports Examples Client_Main
begin

text \<open>The properties of the client's command line and of its start.\<close>

definition ex_front :: "string \<Rightarrow> front_world" where
  "ex_front typed = client_world.extend (ex_client [Some FILE_UPDATED, None]) (front_world.fields typed False None None None)"

lemma ex_front_facts [simp]:
  "fe_stdin (ex_front s) = s" "fe_buffer (ex_front s) = None" "fe_command (ex_front s) = None"
  "fe_path (ex_front s) = None" "c_sent (ex_front s) = []" "c_replies (ex_front s) = [Some FILE_UPDATED, None]"
  "c_session (ex_front s) = 7" "c_notExit (ex_front s)"
  by (simp_all add: ex_front_def ex_client_def client_world.defs front_world.defs)

definition delete_request :: "string \<Rightarrow> int \<times> request" where
  "delete_request n = (7, (new_request FILE_UPDATE)\<lparr>r_file_update := \<lparr>fu_filename = n, fu_deleted = True, fu_hash = []\<rparr>\<rparr>)"

lemma obey_delete:
  assumes "c_replies w = r # rs" "c_session w = 7"
  shows "\<exists>v. obey e ''delete'' n w = Returns () v \<and> c_sent v = c_sent w @ [delete_request n] \<and> c_replies v = rs \<and>
    c_session v = 7 \<and> fe_stdin v = fe_stdin w \<and> fe_command v = fe_command w \<and> fe_path v = fe_path w"
  using assms
  by (simp add: obey_def terminal_Interaction_def deleteFile_def request_response_def sendRequest_def receiveResponse_def
      delete_request_def cpp_simps)

lemma ex_words [simp]: "word_ok ''delete''" "word_ok ''a.txt''"
  by (simp_all add: word_ok_def is_space_def)

text \<open>
  The command line does what is typed.  A line with a command of less than 50
  characters and a file name that fits into the line buffer is carried out as this command
  with this file name.
\<close>

theorem command_is_obeyed:
  assumes "fe_stdin w = c @ '' '' @ p @ newline # rest" "word_ok c" "word_ok p" "length c < 50" "length c + length p \<le> 61"
  shows "frontEndTurn e w = obey e c p (w\<lparr>fe_stdin := rest, fe_buffer := Some (c @ '' '' @ p @ [newline]),
    fe_command := Some c, fe_path := Some p\<rparr>)"
  by (rule turn_two_words [OF assms])

theorem command_is_obeyed_witness:
  "\<exists>v. frontEndTurn ex_env (ex_front (''delete'' @ '' '' @ ''a.txt'' @ newline # [])) = Returns () v \<and>
    c_sent v = [delete_request ''a.txt'']"
proof -
  let ?w = "ex_front (''delete'' @ '' '' @ ''a.txt'' @ newline # [])"
  have "frontEndTurn ex_env ?w = obey ex_env ''delete'' ''a.txt'' (?w\<lparr>fe_stdin := [],
      fe_buffer := Some (''delete'' @ '' '' @ ''a.txt'' @ [newline]), fe_command := Some ''delete'', fe_path := Some ''a.txt''\<rparr>)"
    by (rule command_is_obeyed) (simp_all only: ex_front_facts ex_words, simp_all)
  then show ?thesis
    using obey_delete [of "?w\<lparr>fe_stdin := [], fe_buffer := Some (''delete'' @ '' '' @ ''a.txt'' @ [newline]),
      fe_command := Some ''delete'', fe_path := Some ''a.txt''\<rparr>" "Some FILE_UPDATED" "[None]"] by auto
qed

text \<open>
  Missing words are taken from the lines before.  An empty line carries out the last
  command again, with its file name, and a command without a file name takes the file name
  of the last one: \<open>delete\<close> alone, or just the return key after a deletion, deletes again.
\<close>

theorem missing_words_are_kept:
  assumes "fe_command w = Some c" "fe_path w = Some p"
  shows "(fe_stdin w = newline # rest \<longrightarrow>
      frontEndTurn e w = obey e c p (w\<lparr>fe_stdin := rest, fe_buffer := Some [newline]\<rparr>)) \<and>
    (fe_stdin w = c' @ newline # rest \<and> word_ok c' \<and> length c' < 50 \<longrightarrow>
      frontEndTurn e w = obey e c' p (w\<lparr>fe_stdin := rest, fe_buffer := Some (c' @ [newline]), fe_command := Some c'\<rparr>))"
  using turn_blank [of w rest c p e] turn_one_word [of w c' rest p e] assms by blast

theorem missing_words_are_kept_witness:
  "\<exists>u v. frontEndTurn ex_env (ex_front (''delete'' @ '' '' @ ''a.txt'' @ newline # [newline])) = Returns () u \<and>
    frontEndTurn ex_env u = Returns () v \<and> c_sent v = [delete_request ''a.txt'', delete_request ''a.txt'']"
proof -
  let ?w = "ex_front (''delete'' @ '' '' @ ''a.txt'' @ newline # [newline])"
  have "frontEndTurn ex_env ?w = obey ex_env ''delete'' ''a.txt'' (?w\<lparr>fe_stdin := [newline],
      fe_buffer := Some (''delete'' @ '' '' @ ''a.txt'' @ [newline]), fe_command := Some ''delete'', fe_path := Some ''a.txt''\<rparr>)"
    by (rule turn_two_words) (simp_all only: ex_front_facts ex_words, simp_all)
  then obtain u where u: "frontEndTurn ex_env ?w = Returns () u" "c_sent u = [delete_request ''a.txt'']"
    "c_replies u = [None]" "c_session u = 7" "fe_stdin u = [newline]" "fe_command u = Some ''delete''" "fe_path u = Some ''a.txt''"
    using obey_delete [of "?w\<lparr>fe_stdin := [newline], fe_buffer := Some (''delete'' @ '' '' @ ''a.txt'' @ [newline]),
      fe_command := Some ''delete'', fe_path := Some ''a.txt''\<rparr>" "Some FILE_UPDATED" "[None]"] by auto
  have "frontEndTurn ex_env u = obey ex_env ''delete'' ''a.txt'' (u\<lparr>fe_stdin := [], fe_buffer := Some [newline]\<rparr>)"
    using missing_words_are_kept [OF u(6,7), of "[]"] u(5) by blast
  with u show ?thesis
    using obey_delete [of "u\<lparr>fe_stdin := [], fe_buffer := Some [newline]\<rparr>" None "[]"] by auto
qed

text \<open>
  C38. The buffers of the command line.  \<open>fgets\<close> stores at most 63 characters, so the file
  name never overruns its buffer; the command overruns its buffer of 50 bytes exactly when
  the first word of the line has 50 characters or more.
\<close>

theorem command_overruns:
  assumes "fgets 64 w = Returns () v" "fe_stdin w \<noteq> fe_stdin v" "fe_buffer v = Some b"
  shows "length b \<le> 63 \<and>
    (sscanf_command v = Undefined OutOfBounds \<longleftrightarrow> 50 \<le> length (read_word (takeWhile (\<lambda>c. c \<noteq> CHR 0x00) b)))"
proof -
  have "length b \<le> 63" using fgets_bound [OF assms(1)] assms(2,3) by auto
  from this overrun_iff [OF this, of "fe_command v" "fe_path v"] assms(3) show ?thesis
    by (auto simp: sscanf_command_def split: option.splits)
qed

theorem command_overruns_witness:
  "frontEndTurn ex_env (ex_front (replicate 55 (CHR ''x'') @ [newline])) = Undefined OutOfBounds"
proof -
  let ?l = "replicate 55 (CHR ''x'')"
  let ?w = "ex_front (?l @ [newline])"
  let ?v = "?w\<lparr>fe_stdin := [], fe_buffer := Some (?l @ [newline])\<rparr>"
  have f: "fgets 64 ?w = Returns () ?v" by (rule fgets_line) (simp_all only: ex_front_facts, simp_all)
  have t: "takeWhile (\<lambda>c. c \<noteq> CHR 0x00) (?l @ [newline]) = ?l @ [newline]" by simp
  have r: "read_word (?l @ [newline]) = ?l"
    using first_word [OF scan_word_at [of ?l "[]" "[newline]"]] by (simp add: word_ok_def is_space_def)
  have "sscanf_command ?v = Undefined OutOfBounds"
    using conjunct2 [OF command_overruns [OF f, of "?l @ [newline]"]] unfolding t r by simp
  with f show ?thesis by (simp add: frontEndTurn_def cpp_simps)
qed



end
