(* ===== verification/Manager_Faults.thy ===== *)
theory Manager_Faults
  imports Manager_Correct
begin

text \<open>
  A transaction whose file cannot be written: \<open>execute\<close> does not look at the stream it
  writes to, so the transaction is prepared, every server votes to commit, and \<open>commit\<close>
  throws when it renames a file that does not exist.
\<close>

lemma startTransaction_lost_file:
  assumes "env_ok e" "coordinator_idle e w"
    and "\<not> fs_is_directory (w_disk w) (butlast (file_temp e u n))"
    and "file_temp e u n \<noteq> tid_temp e" "file_temp e u n \<noteq> tid_path e"
    and "k = FileChangeTransaction u n False c"
  shows "\<exists>d t d'. startTransaction e k early w = Returns () (voting_world w k (count_vote True (tally (next_tid w) early 0)) d t) \<and>
    t_tid t = next_tid w \<and>
    (\<forall>v :: 'b mgr_world_scheme. w_disk v = d \<longrightarrow> w_txn v = t \<longrightarrow>
       commit e v = Throws (v\<lparr>w_disk := d', w_txn := t\<lparr>t_is_committed := True\<rparr>\<rparr>)) \<and>
    fs_lookup d' (tid_path e) = tid_text (next_tid w)"
proof -
  let ?v = "voting_world w k (tally (next_tid w) early 0) (w_disk w)
    ((new_transaction k)\<lparr>t_tid := next_tid w, t_work_state := Some (w_shared w)\<rparr>)"
  have start: "startTransaction e k early w = seqC (run e) (bindC (getTxn t_is_prepared) addCoordinatorVote) ?v"
    using assms(2) by (intro startTransaction_run) (simp add: coordinator_idle_def)
  have idle: "disk_idle e (w_disk ?v)" using assms(2) by (simp add: coordinator_idle_def)
  have fresh: "fresh ?v (FileChangeTransaction u n False c) (next_tid w) (w_shared w)"
    using fresh_voting_world [of w k] assms(6) by blast
  obtain d t d' where R: "run e ?v = Returns True (?v\<lparr>w_disk := d, w_txn := t\<rparr>)" "t_tid t = next_tid w" "t_is_prepared t"
    "\<forall>v :: 'b mgr_world_scheme. w_disk v = d \<longrightarrow> w_txn v = t \<longrightarrow>
       commit e v = Throws (v\<lparr>w_disk := d', w_txn := t\<lparr>t_is_committed := True\<rparr>\<rparr>)"
    "fs_lookup d' (tid_path e) = tid_text (next_tid w)"
    using lost_file_commit [OF assms(1) fresh idle _ assms(4,5), where 'b = "('b) mgr_world_ext"] assms(3) by auto
  have "?v\<lparr>w_disk := d, w_txn := t\<rparr> = voting_world w k (tally (next_tid w) early 0) d t"
    by (simp add: voting_world_def)
  then have "startTransaction e k early w = Returns () (voting_world w k (count_vote True (tally (next_tid w) early 0)) d t)"
    using start R(1-3) by (simp add: cpp_simps addCoordinatorVote_def)
  with R show ?thesis by blast
qed

lemma doTransaction_lost_file:
  assumes "env_ok e" "coordinator_idle e w"
    and "\<not> fs_is_directory (w_disk w) (butlast (file_temp e u n))"
    and "file_temp e u n \<noteq> tid_temp e" "file_temp e u n \<noteq> tid_path e"
    and "k = FileChangeTransaction u n False c"
    and "length (ballots (next_tid w) early) \<le> length (getActiveServers w)"
    and "unanimous (length (getActiveServers w)) (ballots (next_tid w) (early @ late)) = Some True"
  shows "\<exists>v. doTransaction e k early late w = Throws v \<and> m_isTransactionActive v \<and>
    w_shared v = w_shared w \<and> fs_lookup (w_disk v) (tid_path e) = tid_text (next_tid w) \<and>
    m_sent v = m_sent w @ broadcast (txn_message k (next_tid w)) w @ result_messages True (next_tid w) w"
proof -
  let ?n = "length (getActiveServers w)" and ?c = "count_vote True (tally (next_tid w) early 0)"
  obtain d t d' where S: "startTransaction e k early w = Returns () (voting_world w k ?c d t)" "t_tid t = next_tid w"
    "\<forall>v :: 'a mgr_world_scheme. w_disk v = d \<longrightarrow> w_txn v = t \<longrightarrow>
       commit e v = Throws (v\<lparr>w_disk := d', w_txn := t\<lparr>t_is_committed := True\<rparr>\<rparr>)"
    "fs_lookup d' (tid_path e) = tid_text (next_tid w)"
    using startTransaction_lost_file [OF assms(1-6), of early, where 'b = 'a] by blast
  obtain c' where "decide (next_tid w) (int ?n + 1) ?c late = (Some True, c')"
    using vote_outcome [OF assms(7), of late] assms(8) by (metis prod.collapse)
  then have run: "doTransaction e k early late w = endTransaction e True (voting_world w k c' d t)"
    using doTransaction_voting [OF assms(2) S(2,1)] by simp
  let ?v = "(voting_world w k c' d t)\<lparr>m_sent := m_sent (voting_world w k c' d t) @ result_messages True (next_tid w) w\<rparr>"
  have "commit e ?v = Throws (?v\<lparr>w_disk := d', w_txn := t\<lparr>t_is_committed := True\<rparr>\<rparr>)"
    using S(3) by simp
  moreover have "result_messages True tid (voting_world w k c' d t) = result_messages True tid w" for tid
    by (simp add: result_messages_def)
  ultimately have "endTransaction e True (voting_world w k c' d t) = Throws (?v\<lparr>w_disk := d', w_txn := t\<lparr>t_is_committed := True\<rparr>\<rparr>)"
    using S(2) by (simp add: endTransaction_def commitTransaction_def sendResult_simp cpp_simps vote_of_def)
  with run S(4) show ?thesis by (simp add: voting_world_def)
qed

end
