(* ===== verification/Transaction_Life.thy ===== *)
theory Transaction_Life
  imports Transaction_Run
begin

text \<open>
  A transaction as a state machine: the states of \<open>TransactionStatus\<close>
  (\<open>src/server/transactions/Transaction.h\<close>) in the order in which a transaction goes through
  them, and any sequence of the calls that a manager can make.
\<close>

section \<open>The order of the states\<close>

fun status_rank :: "transaction_status \<Rightarrow> nat" where
  "status_rank NOT_RUNNING = 0"
| "status_rank RUNNING = 1"
| "status_rank PREPARED = 2"
| "status_rank ROLLBACK_STATUS = 3"
| "status_rank COMMITTED = 4"

lemma status_rank_inj: "status_rank a = status_rank b \<longleftrightarrow> a = b"
  by (cases a; cases b) simp_all

instantiation transaction_status :: linorder
begin

definition less_eq_transaction_status :: "transaction_status \<Rightarrow> transaction_status \<Rightarrow> bool" where
  "less_eq_transaction_status a b \<longleftrightarrow> status_rank a \<le> status_rank b"

definition less_transaction_status :: "transaction_status \<Rightarrow> transaction_status \<Rightarrow> bool" where
  "less_transaction_status a b \<longleftrightarrow> status_rank a < status_rank b"

instance
  by standard (auto simp: less_eq_transaction_status_def less_transaction_status_def status_rank_inj)

end

lemma status_le [simp]: "a \<le> b \<longleftrightarrow> status_rank a \<le> status_rank b" for a b :: transaction_status
  by (rule less_eq_transaction_status_def)

section \<open>The calls\<close>

datatype txn_call = Run | Commit | Force_rollback | Set_tid int | Set_state

fun perform :: "env \<Rightarrow> txn_call \<Rightarrow> ('a world_scheme, unit) cpp" where
  "perform e Run = seqC (run e) (retC ())"
| "perform e Commit = seqC (commit e) (retC ())"
| "perform e Force_rollback = forceRollback e"
| "perform e (Set_tid i) = setTid i"
| "perform e Set_state = seqC setState (retC ())"

definition advances :: "'a world_scheme \<Rightarrow> 'a world_scheme \<Rightarrow> bool" where
  "advances w v \<longleftrightarrow> getStatus (w_txn w) \<le> getStatus (w_txn v)"

lemma advances_order [keeps_intros]: "reflp advances" "transp advances"
  by (auto simp: advances_def reflp_def transp_def)

text \<open>The parts that only touch the disk, the work state or the kind.\<close>

lemma advances_same:
  "t_is_committed (w_txn v) = t_is_committed (w_txn w) \<Longrightarrow> t_hasRollback (w_txn v) = t_hasRollback (w_txn w) \<Longrightarrow>
   t_is_prepared (w_txn v) = t_is_prepared (w_txn w) \<Longrightarrow> t_has_began (w_txn v) = t_has_began (w_txn w) \<Longrightarrow> advances w v"
  by (simp add: advances_def getStatus_def)

lemma advances_leaves [keeps_intros]:
  "keeps advances (tryDisk f)" "keeps advances (onDisk g)" "keeps advances (readWork h)" "keeps advances (updateWork u)"
  "keeps advances deleteWorkState" "keeps advances (getTxn q)"
  by (auto simp: tryDisk_def onDisk_def readWork_def updateWork_def deleteWorkState_def getTxn_def setTxn_def cpp_simps
      keeps_def advances_same split: option.split)

text \<open>No call clears a flag.\<close>

lemma advances_flags [keeps_intros]:
  "keeps advances (setTxn (t_hasRollback_update (\<lambda>_. True)))" "keeps advances (setTxn (t_is_committed_update (\<lambda>_. True)))"
  "keeps advances (setTxn (t_is_prepared_update (\<lambda>_. True)))" "keeps advances (setTxn (t_has_began_update (\<lambda>_. True)))"
  "keeps advances (setTid i)" "keeps advances setState" "keeps advances (modifyC (w_shared_update f))"
  by (auto simp: setTxn_def setTid_def setState_def getC_def cpp_simps keeps_def advances_def getStatus_def)

lemma advances_hooks [keeps_intros]:
  "keeps advances (rollbackHook e k)" "keeps advances (commitHook e k)" "keeps advances publish"
proof -
  have "keeps advances (rollbackCreateUser e u)" "keeps advances (rollbackFileChange e u n b)"
    "keeps advances (commitCreateUser e u)" "keeps advances (commitFileChange e u n b)" for u n b
    unfolding rollbackCreateUser_def rollbackFileChange_def commitCreateUser_def commitFileChange_def
    by (intro keeps_intros advances_order)+
  note hooks = this
  show "keeps advances (rollbackHook e k)" "keeps advances (commitHook e k)"
    unfolding rollbackHook_def commitHook_def
    by (cases k; simp only: txn_kind.case; intro hooks keeps_leaf advances_order)+
  show "keeps advances publish"
    unfolding publish_def by (intro keeps_intros advances_order)
qed

lemma advances_rollback [keeps_intros]: "keeps advances (rollback e)" "keeps advances (forceRollback e)"
  unfolding forceRollback_def rollback_def by (intro keeps_intros advances_order)+

lemma advances_executes [keeps_intros]:
  "keeps advances (executeCreateUser e tid u p)" "keeps advances (executeCreateSession e tid i u)"
  "keeps advances (executeRemoveSession e tid i)" "keeps advances (executeFileChange e tid u n deleted c)"
  "keeps advances (executeNewFrontend h q)"
  unfolding executeCreateUser_def executeCreateSession_def executeRemoveSession_def executeFileChange_def
    executeNewFrontend_def Let_def
  by (intro keeps_intros advances_order)+

lemma advances_execute [keeps_intros]: "keeps advances (execute e)"
  unfolding execute_def by (intro keeps_intros advances_order) (simp add: advances_executes split: txn_kind.split)

lemma advances_run [keeps_intros]: "keeps advances (run e)" "keeps advances (commit e)"
  unfolding run_def commit_def begin_txn_def prepareCommit_def by (intro keeps_intros advances_order)+

lemma advances_perform [keeps_intros]: "keeps advances (perform e c)"
  by (cases c; simp only: perform.simps; intro keeps_intros advances_order)

text \<open>A transaction that was rolled back does nothing any more.\<close>

definition dead :: "'a world_scheme \<Rightarrow> bool" where
  "dead w \<longleftrightarrow> t_hasRollback (w_txn w) \<and> t_has_began (w_txn w) \<and> \<not> t_is_committed (w_txn w)"

definition stays_dead :: "'a world_scheme \<Rightarrow> 'a world_scheme \<Rightarrow> bool" where
  "stays_dead w v \<longleftrightarrow> (dead w \<longrightarrow> dead v \<and> w_disk v = w_disk w \<and> w_shared v = w_shared w)"

lemma stays_dead_order [keeps_intros]: "reflp stays_dead" "transp stays_dead"
  by (auto simp: stays_dead_def reflp_def transp_def)

lemma dead_calls:
  assumes "dead w"
  shows "run e w = Throws w" "commit e w = Returns False w" "forceRollback e w = Returns () w"
  using assms by (simp_all add: dead_def run_def commit_def forceRollback_def rollback_def bindC_def getTxn_def getC_simp
      throwC_def retC_simp whenC_def)

lemma dead_perform:
  "dead w \<Longrightarrow> \<exists>v. (perform e c w = Throws v \<or> perform e c w = Returns () v) \<and> dead v \<and> w_disk v = w_disk w \<and> w_shared v = w_shared w"
  by (cases c) (simp_all add: seqC_case dead_calls retC_simp setTid_def setState_def setTxn_def bindC_def getC_simp modifyC_simp dead_def)

lemma stays_dead_perform [keeps_intros]: "keeps stays_dead (perform e c)"
proof (rule keepsI)
  show "stays_dead w v" if "perform e c w = Returns x v" for w x v
    using that dead_perform [of w e c] by (auto simp: stays_dead_def)
  show "stays_dead w v" if "perform e c w = Throws v" for w v
    using that dead_perform [of w e c] by (auto simp: stays_dead_def)
  show "stays_dead w v" if "perform e c w = Blocks v" for w v
    using that dead_perform [of w e c] by (auto simp: stays_dead_def)
qed

lemma calls_keep:
  "keeps advances (forC calls (perform e))" "keeps stays_dead (forC calls (perform e))"
  by (intro keeps_intros advances_order stays_dead_order)+

lemma keeps_both:
  "keeps R m \<Longrightarrow> keeps S m \<Longrightarrow> (\<And>w v. R w v \<Longrightarrow> S w v \<Longrightarrow> T w v) \<Longrightarrow> keeps T m"
  unfolding keeps_def by (auto split: outcome.splits)

lemma rolled_back_dead: "t_has_began (w_txn w) \<Longrightarrow> getStatus (w_txn w) = ROLLBACK_STATUS \<longleftrightarrow> dead w"
  by (simp add: dead_def getStatus_def)

end
