(* ===== verification/Transaction_Properties.thy ===== *)
theory Transaction_Properties
  imports Examples Restart Manager_Faults Transaction_Life
begin

text \<open>
  The properties of one server's transactions: atomicity, the invariant of state and disk,
  restart, and what the faulty paths do.
\<close>

section \<open>Committing and rolling back\<close>

text \<open>
  C11. A transaction on the coordinator is atomic.  For a transaction that the coordinator
  accepts, and votes that arrive before (\<open>early\<close>) or after (\<open>late\<close>) its own vote, the result
  is decided by the first votes of the transaction, one per active replica: all positive,
  and the effect is on the shared state and on the disk; one negative, and both are as
  before; too few, and \<open>doTransaction\<close> blocks with the transaction prepared.
\<close>

theorem transaction_atomic:
  assumes "env_ok e" "coordinator_idle e w" "kind_ready e (fs_lookup (w_disk w)) k"
    and "txn_effect e (next_tid w) k (w_shared w) = Some s'"
    and "length (ballots (next_tid w) early) \<le> length (getActiveServers w)"
  shows "case unanimous (length (getActiveServers w)) (ballots (next_tid w) (early @ late)) of
      Some True \<Rightarrow> \<exists>w'. doTransaction e k early late w = Returns True w' \<and> w_shared w' = s' \<and>
        fs_lookup (w_disk w') = committed_view e k (next_tid w) (fs_lookup (w_disk w)) \<and> \<not> m_isTransactionActive w'
    | Some False \<Rightarrow> \<exists>w'. doTransaction e k early late w = Returns False w' \<and> w_shared w' = w_shared w \<and>
        w_disk w' = w_disk w \<and> \<not> m_isTransactionActive w'
    | None \<Rightarrow> \<exists>w'. doTransaction e k early late w = Blocks w' \<and> w_shared w' = w_shared w \<and> m_isTransactionActive w'"
proof (cases "unanimous (length (getActiveServers w)) (ballots (next_tid w) (early @ late))")
  case None
  with doTransaction_accepted [OF assms, of late] show ?thesis by (auto simp: voting_world_def)
next
  case (Some b)
  with doTransaction_accepted [OF assms, of late] show ?thesis by (cases b) auto
qed

theorem transaction_atomic_witness:
  "\<exists>w'. doTransaction ex_env ex_delete [(True, 9), (True, 3)] [] ex_coord = Returns True w' \<and>
    w_shared w' = removeFile ''ana'' ''a.txt'' (setLastTid 3 ex_state) \<and> \<not> m_isTransactionActive w'"
  using transaction_atomic [of ex_env ex_coord ex_delete _ "[(True, 9), (True, 3)]" "[]", OF ex_env_ok _ _ _ _]
  by (auto simp: ex_accepted unanimous_def)

text \<open>
  C12. \<open>doTransaction\<close> keeps the server consistent.  Between transactions the disk mirrors the
  shared state, the state is well formed and its last tid is not ahead of the counter; a
  call that returns keeps this, whatever votes arrive, and reports truthfully: \<open>True\<close> means
  that state and disk are those of the committed transaction, \<open>False\<close> that they did not
  change.
\<close>

theorem transaction_keeps_server:
  assumes "env_ok e" "server_ok e w" "proper (w_shared w) k"
    and "doTransaction e k early late w = Returns b w'"
  shows "server_ok e w' \<and>
    (if b then txn_effect e (next_tid w) k (w_shared w) = Some (w_shared w') \<and>
       fs_lookup (w_disk w') = committed_view e k (next_tid w) (fs_lookup (w_disk w))
     else w_shared w' = w_shared w \<and> w_disk w' = w_disk w)"
  using doTransaction_returns [OF assms] by (simp add: served_def)

theorem transaction_keeps_server_witness:
  "\<exists>w'. doTransaction ex_env ex_delete [] [(True, 3)] ex_coord = Returns True w' \<and> server_ok ex_env w'"
proof -
  obtain d t c where "doTransaction ex_env ex_delete [] [(True, 3)] ex_coord =
      Returns True (result_world ex_coord ex_delete True c d t (removeFile ''ana'' ''a.txt'' (setLastTid 3 ex_state)))"
    using doTransaction_accepted [of ex_env ex_coord ex_delete _ "[]" "[(True, 3)]"]
    by (auto simp: ex_accepted unanimous_def)
  with transaction_keeps_server [OF ex_env_ok ex_server_ok(1) _ this] show ?thesis by simp
qed

text \<open>
  C27. Every effect keeps the state well formed: the maps stay sorted with unique keys,
  sessions belong to users, files carry their own name, are not marked deleted and are not
  newer than the state; and the state's last tid is the tid of the transaction.
\<close>

theorem effect_keeps_state:
  assumes "state_wf s" "ss_last_tid s \<le> tid" "txn_effect e tid k s = Some s'"
  shows "state_wf s' \<and> ss_last_tid s' = tid"
  using txn_effect_wf [OF assms] txn_effect_last_tid [OF assms(3)] by simp

theorem effect_keeps_state_witness:
  "state_wf (removeFile ''ana'' ''a.txt'' (setLastTid 3 ex_state))"
  using effect_keeps_state [OF ex_state_wf _ ex_accepted(2), of 3] by (simp add: ex_state_def)

section \<open>The life of a transaction\<close>

text \<open>
  C13. A transaction only moves forward.  Whatever calls are made on it, in whatever order,
  and wherever they stop, its status never goes back from not running through running,
  prepared and rolled back to committed; and after a rollback no call changes the disk or
  the shared state, or brings the transaction back.
\<close>

theorem status_advances:
  "keeps (\<lambda>w v. getStatus (w_txn w) \<le> getStatus (w_txn v) \<and>
      (t_has_began (w_txn w) \<and> getStatus (w_txn w) = ROLLBACK_STATUS \<longrightarrow>
         getStatus (w_txn v) = ROLLBACK_STATUS \<and> w_disk v = w_disk w \<and> w_shared v = w_shared w))
    (forC calls (perform e))"
  by (rule keeps_both [OF calls_keep]) (auto simp: advances_def stays_dead_def rolled_back_dead dead_def getStatus_def)

definition ex_rolled_back :: world where
  "ex_rolled_back = ex_world\<lparr>w_txn := w_txn ex_world\<lparr>t_has_began := True, t_hasRollback := True\<rparr>\<rparr>"

theorem status_advances_witness:
  "\<exists>v. forC [Commit, Set_tid 3, Force_rollback] (perform ex_env) ex_rolled_back = Returns () v \<and>
     getStatus (w_txn v) = ROLLBACK_STATUS \<and> w_disk v = ex_disk"
proof -
  have began: "t_has_began (w_txn ex_rolled_back)" "getStatus (w_txn ex_rolled_back) = ROLLBACK_STATUS" "w_disk ex_rolled_back = ex_disk"
    by (simp_all add: ex_rolled_back_def ex_world_def new_transaction_def getStatus_def)
  obtain v where v: "forC [Commit, Set_tid 3, Force_rollback] (perform ex_env) ex_rolled_back = Returns () v"
    by (simp add: cpp_simps ex_rolled_back_def ex_world_def new_transaction_def commit_def getTxn_def setTid_def setTxn_def
        forceRollback_def rollback_def)
  from keeps_Returns [OF status_advances v] began v show ?thesis by simp
qed

section \<open>Restart\<close>

text \<open>
  C21. A restart recovers the users and the files.  On the disk of a server whose passwords
  have no blanks, the constructor of the state returns, changes nothing on the disk, and
  gives a well-formed state that the disk mirrors, with the same passwords, files and
  hashes; no session survives.
\<close>

theorem restart_recovers:
  assumes "env_ok e" "mirrors e d s" "state_wf s" "restartable e d s"
  shows "\<exists>s'. ServerState e d = Returns () (d, s') \<and> state_wf s' \<and> mirrors e d s' \<and>
    (\<forall>u p. checkPassword s' u p = checkPassword s u p) \<and>
    (\<forall>u n. hasFile s' u n = hasFile s u n \<and> getFileHash s' u n = getFileHash s u n) \<and>
    (\<forall>i. \<not> isSessionValid s' i)"
proof -
  obtain s' where s': "ServerState e d = Returns () (d, s')" "logged_user_sessions s' = []"
    using restart [OF assms(1-3)] by blast
  then have "\<not> isSessionValid s' i" for i by (simp add: isSessionValid_iff sm_find_def)
  with restart_mirrors [OF assms] s' show ?thesis by auto
qed

theorem restart_recovers_witness:
  "\<exists>s'. ServerState ex_env ex_disk = Returns () (ex_disk, s') \<and> checkPassword s' ''ana'' ''pw'' \<and>
    hasFile s' ''ana'' ''a.txt'' \<and> \<not> isSessionValid s' 7"
proof -
  have "restartable ex_env ex_disk ex_state"
    by (simp add: restartable_def ex_disk_def ex_state_def fs_lookup_def sm_find_def read_word_def is_space_def
        read_int_def clamp32_def)
  from restart_recovers [OF ex_env_ok ex_mirrors ex_state_wf this] obtain s' where
    "ServerState ex_env ex_disk = Returns () (ex_disk, s')" "checkPassword s' ''ana'' ''pw'' = checkPassword ex_state ''ana'' ''pw''"
    "hasFile s' ''ana'' ''a.txt'' = hasFile ex_state ''ana'' ''a.txt''" "\<not> isSessionValid s' 7" by blast
  then show ?thesis
    by (simp add: ex_state_def checkPassword_def hasFile_def sm_count_def sm_find_def)
qed

section \<open>The faulty paths\<close>

text \<open>
  An upload into a directory that does not exist takes the coordinator down.  The file
  is never written, yet the transaction is prepared; when all replicas vote for it, the
  coordinator tells them to commit, rotates the tid file, and then throws, with the
  transaction still active and its shared state unchanged.
\<close>

theorem lost_file_throws:
  assumes "env_ok e" "coordinator_idle e w"
    and "\<not> fs_is_directory (w_disk w) (butlast (file_temp e u n))"
    and "file_temp e u n \<noteq> tid_temp e" "file_temp e u n \<noteq> tid_path e"
    and "length (ballots (next_tid w) early) \<le> length (getActiveServers w)"
    and "unanimous (length (getActiveServers w)) (ballots (next_tid w) (early @ late)) = Some True"
  shows "\<exists>v. doTransaction e (FileChangeTransaction u n False c) early late w = Throws v \<and> m_isTransactionActive v \<and>
    w_shared v = w_shared w \<and> fs_lookup (w_disk v) (tid_path e) = tid_text (next_tid w) \<and>
    (\<forall>i \<in> set (reached (getActiveServers w)). (i, ResultMsg COMMIT_VOTE (next_tid w)) \<in> set (m_sent v))"
  using doTransaction_lost_file [OF assms(1-5) HOL.refl assms(6,7), where c = c]
  by (auto simp: result_messages_def vote_of_def)

theorem lost_file_throws_witness:
  "\<exists>v. doTransaction ex_env (FileChangeTransaction ''ana'' ''d/x'' False ''1'') [] [(True, 3)] ex_coord = Throws v \<and>
    m_isTransactionActive v \<and> (2, ResultMsg COMMIT_VOTE 3) \<in> set (m_sent v)"
proof -
  have path: "file_temp ex_env ''ana'' ''d/x'' = [''h'', ''s'', ''ana'', ''d'', ''x~'']"
    by (simp add: file_temp_def getUserDir_def getServersDir_def ex_env_def resolve_def push_name_def)
  have "\<not> fs_is_directory ex_disk [''h'', ''s'', ''ana'', ''d'']"
    by (simp add: fs_is_directory_def fs_lookup_def ex_disk_def sm_find_def)
  with lost_file_throws [of ex_env ex_coord "''ana''" "''d/x''" "[]" "[(True, 3)]" "''1''"] show ?thesis
    by (simp add: path unanimous_def reached_two) blast
qed

text \<open>
  A refused transaction of the kinds create-user, create-session and new-frontend uses
  its work state after \<open>rollback\<close> has deleted it.  On the coordinator this is the whole
  outcome: the replicas have the transaction, and there is no vote of the coordinator.
\<close>

theorem refused_uses_deleted_state:
  assumes "env_ok e" "server_ok e w" "m_isCoordinator w" "\<not> m_isTransactionActive w" "m_lastTid w < 2 ^ 31 - 1"
    and "proper (w_shared w) k" "txn_effect e (next_tid w) k (w_shared w) = None" "\<not> refuses_cleanly k"
  shows "doTransaction e k early late w = Undefined UseAfterFree"
proof (rule doTransaction_uses_deleted_state [OF assms(1)])
  show "coordinator_idle e w" by (rule server_ok_idle [OF assms(2-5)])
  show "temp_absent e (fs_lookup (w_disk w)) k"
    using assms(1,2,4,6) by (intro proper_temp_absent) (auto simp: server_ok_def)
  show "u \<noteq> []" if "k = CreateUserTransaction u p" for u p
    using that assms(6) by (auto simp: proper_def user_ok_def clean_name_def plain_name_def)
qed (use assms in auto)

theorem refused_uses_deleted_state_witness:
  "doTransaction ex_env (CreateSessionTransaction 7 ''ana'') [] [] ex_coord = Undefined UseAfterFree"
  by (rule refused_uses_deleted_state)
    (simp_all add: proper_def refuses_cleanly_def txn_effect_def kind_effect_def,
     simp add: isSessionValid_def ex_state_def setLastTid_def sm_find_def sm_count_def to_int32_def)

text \<open>
  A file name is not confined to the directory of its user: \<open>../v/n\<close> names the file \<open>n\<close>
  of the user \<open>v\<close>.
\<close>

theorem file_name_escapes:
  assumes "env_ok e" "user_name_ok u" "user_name_ok v" "plain_name n"
  shows "file_path e u (''../'' @ v @ ''/'' @ n) = file_path e v n"
  by (rule file_path_escape [OF assms])

theorem file_name_escapes_witness:
  "file_path ex_env ''bob'' ''../ana/a.txt'' = file_path ex_env ''ana'' ''a.txt''"
  using file_name_escapes [of ex_env "''bob''" "''ana''" "''a.txt''"]
  by (simp add: user_name_ok_def plain_name_def)

section \<open>The transaction messages\<close>

text \<open>
  C35. What a replica reconstructs from the message of a transaction is the transaction of
  the coordinator before it ran: the same kind with the same arguments, and the same tid.
\<close>

theorem transaction_message_roundtrip:
  "receivedTransaction (serialize t m) = (new_transaction (t_kind t))\<lparr>t_tid := t_tid t\<rparr>"
  by (rule received_serialize)

end
