(* ===== verification/Service_Properties.thy ===== *)
theory Service_Properties
  imports Examples
begin

text \<open>
  The properties of the request handlers and of the client that talks to them.
\<close>

section \<open>Requests\<close>



text \<open>
  A request that needs a session and comes without a valid one is refused, and nothing
  but the socket changes, whatever the transaction manager does.
\<close>

theorem no_session_no_service:
  assumes "h_open w" "h_in w = Incoming h r # rest" "needs_session (r_type r)"
    and "\<not> isSessionValid (w_shared w) (header_session h)"
  shows "handleRequest e do_txn updates w =
    Returns () (with_reply (w\<lparr>h_in := rest\<rparr>) (ERROR ''Invalid session''))"
  by (rule request_without_session [OF assms])

theorem no_session_no_service_witness:
  "handleRequest ex_env (serveTransaction ex_env) [] (ex_handler [Incoming (Header 0 0) (new_request LIST)]) =
    Returns () (with_reply (ex_handler [Incoming (Header 0 0) (new_request LIST)]\<lparr>h_in := []\<rparr>) (ERROR ''Invalid session''))"
  by (rule no_session_no_service [where h = "Header 0 0" and r = "new_request LIST"])
    (simp_all add: needs_session_def new_request_def header_session_def Header_def, simp add: ex_state_def isSessionValid_def
      sm_count_def sm_find_def to_int32_def)

text \<open>
  The session id of a header is a 64-bit number that the state narrows: ids that agree
  modulo \<open>2 ^ 32\<close> are the same session, of the same user.
\<close>

theorem session_ids_narrow:
  "isSessionValid s (i + k * 2 ^ 32) = isSessionValid s i \<and>
   getUserFromSesssion s (i + k * 2 ^ 32) = getUserFromSesssion s i"
  using session_id_narrowed by blast

section \<open>Login and logout\<close>

text \<open>
  C18. A client that logged in holds a session of its user.  When \<open>doLogin\<close> succeeds with the
  answer of \<open>handleLogin\<close> to its request, the session id that the client keeps is valid on
  the server, belongs to the user that logged in, and the password is the user's.
\<close>

theorem login_gives_session:
  assumes "quiet e sw" "user_ok u" "h_out sw = []"
    and "handleLogin (serveTransaction e) (login_request u p) 0 sw = Returns () sw'"
    and "doLogin u p w = Returns 0 w'" "map Some (h_out sw') = c_replies w"
  shows "isSessionValid (w_shared sw') (c_session w') \<and>
    getUserFromSesssion (w_shared sw') (c_session w') = u \<and> checkPassword (w_shared sw') u p"
  by (rule login_session [OF assms])

theorem login_gives_session_witness:
  "\<exists>sw' w'. handleLogin (serveTransaction ex_env) (login_request ''ana'' ''pw'') 0 (ex_handler []) = Returns () sw' \<and>
    doLogin ''ana'' ''pw'' (ex_client [Some (LOGIN_OK (Some 9))]) = Returns 0 w' \<and>
    getUserFromSesssion (w_shared sw') (c_session w') = ''ana''"
proof -
  obtain sw' where sw: "handleLogin (serveTransaction ex_env) (login_request ''ana'' ''pw'') 0 (ex_handler []) = Returns () sw'"
    "h_out sw' = [LOGIN_OK (Some 9)]"
    using ex_login by blast
  obtain w' where w: "doLogin ''ana'' ''pw'' (ex_client [Some (LOGIN_OK (Some 9))]) = Returns 0 w'"
    by (simp add: doLogin_def ex_client_def cpp_simps sendRequest_def receiveResponse_def)
  have "user_ok ''ana''" by (simp add: user_ok_def clean_name_def plain_name_def)
  from login_gives_session [OF ex_handler_quiet this _ sw(1) w] sw w show ?thesis by (simp add: ex_client_def)
qed

text \<open>
  A logout that is reported as done ends exactly the session of the request.
\<close>

theorem logout_ends_session:
  assumes "quiet e w" "handleLogout (serveTransaction e) i w = Returns () w'" "LOGIN_OK None \<in> set (h_out w')" "h_out w = []"
  shows "quiet e w' \<and> \<not> isSessionValid (w_shared w') i \<and>
    (\<forall>j. to_int32 j \<noteq> to_int32 i \<longrightarrow> isSessionValid (w_shared w') j = isSessionValid (w_shared w) j \<and>
      getUserFromSesssion (w_shared w') j = getUserFromSesssion (w_shared w) j)"
  by (rule logout_ended [OF assms])

theorem logout_ends_session_witness:
  "\<exists>w'. handleLogout (serveTransaction ex_env) 7 (ex_handler []) = Returns () w' \<and> \<not> isSessionValid (w_shared w') 7"
proof -
  have "proper ex_state (RemoveSessionTransaction (to_int32 7))" by (simp add: proper_def)
  moreover have "\<exists>s'. txn_effect ex_env 3 (RemoveSessionTransaction (to_int32 7)) ex_state = Some s'"
    by (simp add: txn_effect_def kind_effect_def ex_state_def isSessionValid_def setLastTid_def sm_count_def sm_find_def to_int32_def)
  ultimately obtain v where v: "serveTransaction ex_env (RemoveSessionTransaction (to_int32 7)) (ex_handler []) = Returns True v"
    "can_send v" "h_out v = []"
    using ex_commits by metis
  note run = logout_answered [OF v(1)]
  have "LOGIN_OK None \<in> set (h_out (with_reply v (LOGIN_OK None)))"
    using v by (simp add: with_reply_def reply_of_def)
  from logout_ends_session [OF ex_handler_quiet run this] run show ?thesis by simp
qed

section \<open>Files\<close>

text \<open>
  C17. What was uploaded is what is downloaded.  After an upload that the server reported as
  done, a download of that file, by any later connection to the same state, answers with
  the uploaded bytes and their digest.
\<close>

theorem upload_then_download:
  assumes "quiet e w" "hasUser (w_shared w) user" "file_ok (fu_filename (r_data_file r))"
    and "handleUpload (serveTransaction e) r user w = Returns () w'" "FILE_UPDATED \<in> set (h_out w')" "h_out w = []"
    and "r_filename q = fu_filename (r_data_file r)" "w_shared v = w_shared w'" "w_disk v = w_disk w'"
  shows "handleDownload e q user v =
    Returns () (with_reply v (FILE_DATA_R (r_filename q) (content_hash (env_xxh64 e) (r_data r)) (r_data r)))"
  by (rule upload_download [OF assms])

theorem upload_then_download_witness:
  "\<exists>w'. handleUpload (serveTransaction ex_env) ex_upload_request ''ana'' (ex_handler []) = Returns () w' \<and>
    handleDownload ex_env (download_request ''b.txt'') ''ana'' (w'\<lparr>h_open := True\<rparr>) =
      Returns () (with_reply (w'\<lparr>h_open := True\<rparr>) (FILE_DATA_R ''b.txt'' (digest_to_string 0x1122334455667788) ''xyz''))"
proof -
  obtain w' where w: "handleUpload (serveTransaction ex_env) ex_upload_request ''ana'' (ex_handler []) = Returns () w'"
    "FILE_UPDATED \<in> set (h_out w')"
    using ex_uploaded by blast
  from upload_then_download [OF ex_handler_quiet _ _ w, of "download_request ''b.txt''" "w'\<lparr>h_open := True\<rparr>"] w
  show ?thesis by (simp add: ex_names)
qed

text \<open>
  A deletion that is reported as done removes exactly that file, from the disk and from
  the table.
\<close>

theorem deletion_removes:
  assumes "quiet e w" "hasUser (w_shared w) user" "file_ok (fu_filename (r_file_update r))" "fu_deleted (r_file_update r)"
    and "handleFileUpdate (serveTransaction e) r user w = Returns () w'" "FILE_UPDATED \<in> set (h_out w')" "h_out w = []"
  shows "quiet e w' \<and> fs_lookup (w_disk w') (file_path e user (fu_filename (r_file_update r))) = None \<and>
    (\<forall>u n. findFile (w_shared w') u n =
      (if u = user \<and> n = fu_filename (r_file_update r) then None else findFile (w_shared w) u n))"
  by (rule delete_removed [OF assms])

theorem deletion_removes_witness:
  "\<exists>w'. handleFileUpdate (serveTransaction ex_env) ex_delete_request ''ana'' (ex_handler []) = Returns () w' \<and>
    fs_lookup (w_disk w') [''h'', ''s'', ''ana'', ''a.txt''] = None \<and> findFile (w_shared w') ''ana'' ''a.txt'' = None"
proof -
  obtain w' where w: "handleFileUpdate (serveTransaction ex_env) ex_delete_request ''ana'' (ex_handler []) = Returns () w'"
    "FILE_UPDATED \<in> set (h_out w')"
    using ex_deleted by blast
  from deletion_removes [OF ex_handler_quiet _ _ _ w] w show ?thesis
    by (simp add: ex_names)
qed

text \<open>
  A download of a file of the table answers with the contents of the disk and their
  digest.
\<close>

theorem download_answers:
  assumes "mirrors e (w_disk w) (w_shared w)" "state_inv (w_shared w)"
    and "hasFile (w_shared w) user (r_filename r)"
  shows "\<exists>c. fs_lookup (w_disk w) (file_path e user (r_filename r)) = Some (File c) \<and>
    handleDownload e r user w =
      Returns () (with_reply w (FILE_DATA_R (r_filename r) (content_hash (env_xxh64 e) c) c))"
  by (rule download_found [OF assms])

theorem download_answers_witness:
  "handleDownload ex_env (download_request ''a.txt'') ''ana'' (ex_handler []) =
    Returns () (with_reply (ex_handler []) (FILE_DATA_R ''a.txt'' (digest_to_string 0x1122334455667788) ''abc''))"
proof -
  have "fs_lookup ex_disk [''h'', ''s'', ''ana'', ''a.txt''] = Some (File ''abc'')"
    by (simp add: ex_disk_def fs_lookup_def sm_find_def)
  with download_answers [of ex_env "ex_handler []" "''ana''" "download_request ''a.txt''"] show ?thesis
    by (simp add: ex_names)
qed

text \<open>
  The list of a user's files is complete and truthful: it names the files of the table
  with their digests and nothing else.
\<close>

theorem list_is_complete:
  assumes "state_wf (w_shared w)" "can_send w"
  shows "\<exists>fs. handleList user w = Returns () (with_reply w (FILE_LIST fs)) \<and>
    (\<forall>n h. (n, h) \<in> set fs \<longleftrightarrow> (\<exists>f. findFile (w_shared w) user n = Some f \<and> uf_hash f = h))"
  by (rule list_complete [OF assms])

theorem list_is_complete_witness:
  "\<exists>fs. handleList ''ana'' (ex_handler []) = Returns () (with_reply (ex_handler []) (FILE_LIST fs)) \<and>
    (''a.txt'', digest_to_string 0x1122334455667788) \<in> set fs"
  using list_is_complete [of "ex_handler []" "''ana''"]
  by (auto simp: ex_names)

section \<open>Subscriptions\<close>

text \<open>
  C19. A subscriber misses no change.  While the state goes through the effects of later
  transactions, a subscriber that is still connected at the end was sent an update with the
  current digest for every file of its user that changed since it subscribed.
\<close>

theorem subscriber_is_told:
  assumes "state_wf (w_shared w)" "history e (w_shared w) states"
    and "handleSubscribe user sid states w = Blocks w'"
    and "findFile (last (w_shared w # states)) user n = Some f" "ss_last_tid (w_shared w) < uf_last_tid f"
    and "state_wf (last (w_shared w # states))"
  shows "UPDATED (update_of f) \<in> set (h_out w')"
  by (rule subscriber_told [OF assms])

theorem subscriber_is_told_witness:
  "\<exists>w'. handleSubscribe ''ana'' 7 [ex_later] (ex_handler []) = Blocks w' \<and>
    UPDATED \<lparr>fu_filename = ''b.txt'', fu_deleted = False, fu_hash = digest_to_string 0x1122334455667788\<rparr> \<in> set (h_out w')"
proof -
  have later: "state_wf ex_later" "ss_last_tid ex_later = 3"
    using txn_effect_wf [OF ex_state_wf _ ex_later] txn_effect_last_tid [OF ex_later] by (simp_all add: ex_state_def)
  have "history ex_env ex_state [ex_later]"
    by (rule history.step [OF _ ex_later history.start]) (simp add: ex_state_def)
  moreover obtain w' where "handleSubscribe ''ana'' 7 [ex_later] (ex_handler []) = Blocks w'"
    using ex_subscribed by blast
  ultimately show ?thesis
    using subscriber_is_told [of "ex_handler []" ex_env "[ex_later]" "''ana''" 7 w' "''b.txt''" ex_new_file] later
    by (simp add: ex_later_file) (simp add: ex_state_def ex_new_file_def the_file_def update_of_def)
qed

text \<open>
  Deletions are never announced: no message of a subscription says that a file was
  deleted, whatever happened to the table since the last one.
\<close>

theorem deletions_not_announced:
  assumes "state_wf (w_shared w)" "\<forall>u. UPDATED u \<in> set (h_out w) \<longrightarrow> \<not> fu_deleted u"
    and "subscribeTurn user sid tid w = Returns x w'"
  shows "\<forall>u. UPDATED u \<in> set (h_out w') \<longrightarrow> \<not> fu_deleted u"
  using turn_no_deletion [OF assms] by blast

theorem deletions_not_announced_witness:
  "\<exists>x w'. subscribeTurn ''ana'' 7 1 (ex_handler []) = Returns x w' \<and> (\<forall>u. UPDATED u \<in> set (h_out w') \<longrightarrow> \<not> fu_deleted u)"
proof -
  obtain x w' where run: "subscribeTurn ''ana'' 7 1 (ex_handler []) = Returns x w'"
    using ex_turn by blast
  from deletions_not_announced [OF _ _ run] run show ?thesis by simp
qed

text \<open>
  A client catches up with the server.  When it is told of a file of its user and the
  answer to its download is the server's, the file in its directory then has the digest of
  the server's file, and it has the server's bytes unless a file with that digest was there
  already.
\<close>

theorem client_catches_up:
  assumes "mirrors e (w_disk sw) (w_shared sw)" "state_wf (w_shared sw)"
    and "findFile (w_shared sw) user n = Some f" "can_send sw"
    and "sm_inv (c_disk w)" "can_write (c_disk w) (sync_path w n)"
    and "handleDownload e (download_request n) user sw = Returns () sw'" "h_out sw' = h_out sw @ [r]"
    and "c_replies w = Some r # rest"
  shows "\<exists>w' c. applyUpdate e (update_of f) w = Returns () w' \<and>
    fs_lookup (w_disk sw) (file_path e user n) = Some (File c) \<and>
    hash_of e (c_disk w') (sync_path w n) = content_hash (env_xxh64 e) c \<and>
    (hash_of e (c_disk w) (sync_path w n) = content_hash (env_xxh64 e) c \<or>
     fs_lookup (c_disk w') (sync_path w n) = Some (File c))"
  by (rule update_synchronises [OF assms])

theorem client_catches_up_witness:
  "\<exists>w'. applyUpdate ex_env \<lparr>fu_filename = ''a.txt'', fu_deleted = False, fu_hash = digest_to_string 0x1122334455667788\<rparr>
      (ex_client [Some ex_answer_file]) = Returns () w' \<and>
    hash_of ex_env (c_disk w') [''c'', ''a.txt''] = digest_to_string 0x1122334455667788"
proof -
  obtain sw' where sw: "handleDownload ex_env (download_request ''a.txt'') ''ana'' (ex_handler []) = Returns () sw'"
    "h_out sw' = [ex_answer_file]"
    using ex_downloaded by blast
  from client_catches_up [where sw = "ex_handler []" and w = "ex_client [Some ex_answer_file]", OF _ _ _ _
      ex_client_disk ex_client_path sw(1), of _ ex_answer_file "[]"] sw(2)
  show ?thesis by (auto simp: ex_client_facts ex_names update_of_def)
qed

section \<open>The client's watcher\<close>

text \<open>
  A change that the server already has makes the watcher drop the events behind it:
  it returns after one request, whatever else was in the buffer.
\<close>

theorem watcher_drops_events:
  assumes "\<not> c_mute w" "c_mute_reads w = []" "c_replies w = Some FILE_UPDATED # rest"
  shows "\<exists>r. verifica_modificacao e (CloseWrite f # events) w =
    Returns () (w\<lparr>c_sent := c_sent w @ [(c_session w, r)], c_replies := rest\<rparr>)"
  by (rule events_lost(2) [OF assms])

theorem watcher_drops_events_witness:
  "\<exists>r. verifica_modificacao ex_env [CloseWrite ''a'', Delete ''b''] (ex_client [Some FILE_UPDATED]) =
    Returns () ((ex_client [Some FILE_UPDATED])\<lparr>c_sent := [(7, r)], c_replies := []\<rparr>)"
  using watcher_drops_events [of "ex_client [Some FILE_UPDATED]" "[]" ex_env "''a''" "[Delete ''b'']"]
  by (simp add: ex_client_def)

end
