(* ===== verification/Server_Properties.thy ===== *)
theory Server_Properties
  imports Examples
begin

text \<open>
  The properties of the replicas, of the choice of a coordinator and of a change of
  coordinator.
\<close>

section \<open>Replicas\<close>

text \<open>
  C16. A replica serves a transaction of the coordinator.  An idle replica that accepts the
  transaction acknowledges it and votes for it; then it waits for the first result of that
  transaction, and ends with the effect on its state and its disk, or as it was before.
\<close>

theorem replica_obeys:
  assumes "env_ok e" "replica_idle e w" "kind_ready e (fs_lookup (w_disk w)) k"
    and "txn_effect e tid k (w_shared w) = Some s'"
    and "th_in w = Some (txn_message k tid)" "acks w"
  shows "case result_seen w tid results of
      Some True \<Rightarrow> \<exists>d t. handleTransactionRequest e results w = Returns () (obeyed_world (after_ack w) tid True True d t s') \<and>
        fs_wf d \<and> fs_lookup d = committed_view e k tid (fs_lookup (w_disk w))
    | Some False \<Rightarrow> \<exists>t. handleTransactionRequest e results w =
        Returns () (obeyed_world (after_ack w) tid True False (w_disk w) t (w_shared w))
    | None \<Rightarrow> \<exists>d. handleTransactionRequest e results w =
        Blocks (voted_world (after_ack w) tid True d (prepared_txn k tid s'))"
  by (rule replica_serves [OF assms])

definition ex_replica_handler :: "outer_msg \<Rightarrow> txn_socket_world" where
  "ex_replica_handler m = mgr_world.extend ex_rep (txn_socket_world.fields (Some m) [] [] True)"

lemma ex_replica_handler [simp]:
  "th_in (ex_replica_handler m) = Some m" "acks (ex_replica_handler m)" "w_shared (ex_replica_handler m) = ex_state"
  "w_disk (ex_replica_handler m) = ex_disk" "\<not> m_hasResult (ex_replica_handler m)" "replica_idle ex_env (ex_replica_handler m)"
  "\<not> m_activeSet (ex_replica_handler m)"
proof -
  show "replica_idle ex_env (ex_replica_handler m)"
    using ex_idle(2) by (simp add: replica_idle_def) (simp add: ex_replica_handler_def mgr_world.defs)
qed (simp_all add: ex_replica_handler_def mgr_world.defs txn_socket_world.defs acks_def flip: ex_worlds(3,4))

theorem replica_obeys_witness:
  "\<exists>v. handleTransactionRequest ex_env [(False, 2), (True, 3)] (ex_replica_handler (txn_message ex_delete 3)) = Returns () v \<and>
    w_shared v = removeFile ''ana'' ''a.txt'' (setLastTid 3 ex_state)"
proof -
  let ?w = "ex_replica_handler (txn_message ex_delete 3)"
  have "result_seen ?w 3 [(False, 2), (True, 3)] = Some True" by (simp add: result_seen_def)
  with replica_obeys [of ex_env ?w ex_delete 3 _ "[(False, 2), (True, 3)]"] ex_accepted(2) [of 3] show ?thesis by auto
qed

text \<open>
  A vote or a result that reaches a server before its first transaction is compared
  with the tid of a transaction object that does not exist.
\<close>

theorem stray_message_undefined:
  assumes "\<not> m_activeSet w" "th_in w \<in> {Some (VoteMsg v tid), Some (ResultMsg v tid)}"
  shows "handleTransactionRequest e results w = Undefined UninitialisedPointer"
  by (rule stray_message [OF assms])

theorem stray_message_undefined_witness:
  "handleTransactionRequest ex_env [] (ex_replica_handler (VoteMsg COMMIT_VOTE 3)) = Undefined UninitialisedPointer"
  by (rule stray_message_undefined [of _ COMMIT_VOTE 3]) simp_all

section \<open>A change of coordinator\<close>

text \<open>
  C40. A change of coordinator breaks the atomicity of an open transaction.  A replica that
  has voted to commit and is told of a coordinator rolls back on its own; when the commit of
  the old coordinator arrives afterwards, it is obeyed in name only: the call returns
  success, and the state and the disk do not change.
\<close>

theorem takeover_loses_commit:
  assumes "env_ok e" "disk_idle e (w_disk w)" "kind_ready e (fs_lookup (w_disk w)) k"
    and "fs_wf d" "fs_lookup d = prepared_view e k tid (fs_lookup (w_disk w))"
  shows "\<exists>v v'. setIsCoordinator e b (voted_world w tid True d (prepared_txn k tid s)) = Returns () v \<and>
    obeyResult e True v = Returns True v' \<and> w_shared v' = w_shared w \<and> w_disk v' = w_disk w"
proof -
  note set = setIsCoordinator_voted [OF assms, of b s]
  let ?v = "(voted_world w tid True (w_disk w) (rolled_back_txn (prepared_txn k tid s)))
      \<lparr>m_isTransactionActive := False, m_isCoordinator := b\<rparr>"
  have "obeyResult e True ?v = Returns True (?v\<lparr>m_isTransactionActive := False\<rparr>)"
    by (rule commit_after_takeover) (simp add: voted_world_def)
  with set show ?thesis by (auto simp: voted_world_def)
qed

theorem takeover_loses_commit_witness:
  "\<exists>d v v'. setIsCoordinator ex_env False (voted_world ex_rep 3 True d (prepared_txn ex_user 3 ex_state)) = Returns () v \<and>
    obeyResult ex_env True v = Returns True v' \<and> w_disk v' = ex_disk"
proof -
  obtain d where "fs_wf d" "fs_lookup d = prepared_view ex_env ex_user 3 (fs_lookup (w_disk ex_rep))"
    using voteTransaction_accepts [OF ex_env_ok ex_idle(2), of ex_user 3] ex_accepted(1) [of 3] by auto
  from takeover_loses_commit [OF ex_env_ok _ _ this, of False ex_state] show ?thesis by auto
qed

text \<open>
  A former replica hands out transaction ids again.  The counter of a replica does not
  follow the transactions that it commits: when it becomes the coordinator, the id of its
  first transaction is the one it would have had before, not one beyond its state's.
\<close>

theorem replica_reuses_tid:
  assumes "env_ok e" "replica_idle e w" "kind_ready e (fs_lookup (w_disk w)) k"
    and "txn_effect e tid k (w_shared w) = Some s'"
    and "receiveNewTransaction e (received k tid) rs w = Returns True v"
    and "setIsCoordinator e True v = Returns () u"
  shows "m_isCoordinator u \<and> next_tid u = next_tid w \<and> ss_last_tid (w_shared u) = tid"
  by (rule tid_reused [OF assms])

theorem replica_reuses_tid_witness:
  "\<exists>v u. receiveNewTransaction ex_env (received ex_user 3) [(True, 3)] ex_rep = Returns True v \<and>
    setIsCoordinator ex_env True v = Returns () u \<and> next_tid u = 3 \<and> ss_last_tid (w_shared u) = 3"
proof -
  have "result_seen ex_rep 3 [(True, 3)] = Some True" by (simp add: result_seen_def)
  with receiveNewTransaction_accepted [OF ex_env_ok ex_idle(2), of ex_user 3 _ "[(True, 3)]"] ex_accepted(1) [of 3]
  obtain v where v: "receiveNewTransaction ex_env (received ex_user 3) [(True, 3)] ex_rep = Returns True v"
    "\<not> m_isTransactionActive v" by auto
  from setIsCoordinator_idle [OF v(2)] obtain u where u: "setIsCoordinator ex_env True v = Returns () u" by blast
  have "next_tid ex_rep = 3" by (simp add: next_tid_def)
  with replica_reuses_tid [OF ex_env_ok ex_idle(2) _ _ v(1) u] ex_accepted(1) [of 3] v u show ?thesis by auto
qed

section \<open>Elections\<close>

text \<open>
  C28. How an election ends.  A server that starts an election with no transaction open, and
  that has a table with a higher server, ends as the rule of the bully algorithm says: it
  leads after a round in which no higher server answered; it follows the first server that
  was announced; it goes on while there are answers and no announcement.  The server is then
  consistent: it is the coordinator for its manager exactly when it chose itself.  An
  announced server that is not in its table makes it throw.
\<close>

theorem election_ends:
  assumes "\<not> m_isTransactionActive w" "sv_election w = None" "somebody_higher w"
  shows "case election_result (sv_id w) (-1) rounds of
      None \<Rightarrow> \<exists>v. startElection e rounds w = Blocks v
    | Some c \<Rightarrow>
        if c = sv_id w \<or> c \<in> set (replica_ids w)
        then \<exists>v. startElection e rounds w = Returns () v \<and> m_coordinator_id v = c \<and> sv_isCoordinator v = (c = sv_id w) \<and>
          m_isCoordinator v = (c = sv_id w) \<and> replica_ids v = replica_ids w \<and> (c \<noteq> -1 \<longrightarrow> sv_election v = None)
        else \<exists>v. startElection e rounds w = Throws v"
  using startElection_result [OF assms] .

definition ex_server :: server_world where
  "ex_server =
     mgr_world.extend (TransactionManager False ex_world [ex_replica 1, ex_replica 3] (-1))
       (server_world.fields 2 5 ''h'' False None False [] [] [])"

lemma ex_server [simp]:
  "\<not> m_isTransactionActive ex_server" "sv_election ex_server = None" "sv_id ex_server = 2" "replica_ids ex_server = [1, 3]"
  "somebody_higher ex_server"
  by (simp_all add: ex_server_def mgr_world.defs server_world.defs TransactionManager_def world.defs ex_world_def
      replica_ids_def somebody_higher_def ex_replica_def)

theorem election_ends_witness:
  "\<exists>v. startElection ex_env [([Answered 3], []), ([Answered 3], [Announced 3])] ex_server = Returns () v \<and>
    m_coordinator_id v = 3 \<and> \<not> m_isCoordinator v"
  using election_ends [of ex_server, where rounds = "[([Answered 3], []), ([Answered 3], [Announced 3])]" and e = ex_env]
  by (auto simp: Let_def after_def deliver_def receiveAnswer_def receiveCoordinatorMessage_def)





end
