(* ===== verification/Connection.thy ===== *)
theory Connection
  imports Wire Descriptors "HOL-Library.Signed_Division"
begin

text \<open>
  \<open>src/common/Connection.h\<close> and the receiving and sending half of
  \<open>src/server/interfaces/RequestHandler.h\<close>: messages over a stream socket.  What a socket
  will deliver is a list of events: a chunk of bytes that one call of \<open>recv\<close> can return
  (as much of it as was asked for), the end of the stream, or an error.  What \<open>send\<close> will
  accept is a list of counts, \<open>0\<close> and \<open>-1\<close> for the two failures.  \<open>alloc\<close> is the largest
  string that can be allocated.
\<close>

datatype event = Chunk string | Closed | RecvError

record connection =
  cn_in :: "event list"
  cn_accepts :: "int list"
  cn_written :: string
  cn_state :: connection_state
  cn_session :: int

section \<open>recv\<close>

datatype received = Got string | Zero | Minus | Wait

fun recv :: "nat \<Rightarrow> event list \<Rightarrow> received \<times> event list" where
  "recv n [] = (Wait, [])"
| "recv n (Chunk c # rest) =
     (if c = [] then (Zero, rest)
      else (Got (take n c), if length c \<le> n then rest else Chunk (drop n c) # rest))"
| "recv n (Closed # rest) = (Zero, Closed # rest)"
| "recv n (RecvError # rest) = (Minus, rest)"

lemma recv_Got: "recv n es = (Got bs, es') \<Longrightarrow> 0 < n \<Longrightarrow> bs \<noteq> []"
  by (induction n es rule: recv.induct) (auto split: if_splits)

lemma recv_Got_shrinks: "(Got bs, es') = recv n es \<Longrightarrow> l < n \<Longrightarrow> n - (l + length bs) < n - l"
  using recv_Got [of n es bs es'] by (cases bs) auto

datatype receive_end = Full string | EndOfStream | Error | Waiting | Overrun

text \<open>
  The loop of \<open>receiveBytes\<close>: \<open>got\<close> is what the buffer of \<open>n\<close> bytes holds so far.  Every
  call asks for \<open>n\<close> bytes again, so a call can store bytes behind the end of the buffer.
\<close>

function receive_loop :: "nat \<Rightarrow> string \<Rightarrow> event list \<Rightarrow> receive_end \<times> event list" where
  "receive_loop n got es =
     (if \<not> length got < n then (Full got, es)
      else case recv n es of
        (Wait, es') \<Rightarrow> (Waiting, es')
      | (Zero, es') \<Rightarrow> (EndOfStream, es')
      | (Minus, es') \<Rightarrow> (Error, es')
      | (Got bs, es') \<Rightarrow>
          if n < length got + length bs then (Overrun, es')
          else receive_loop n (got @ bs) es')"
  by pat_completeness auto

termination
  by (relation "measure (\<lambda>(n, got, es). n - length got)") (auto intro: recv_Got_shrinks)

declare receive_loop.simps [simp del]

definition receiveBytes :: "nat \<Rightarrow> (connection, string option) cpp" where
  "receiveBytes n w =
     (case receive_loop n [] (cn_in w) of
        (Full bs, es) \<Rightarrow> Returns (Some bs) (w\<lparr>cn_in := es\<rparr>)
      | (EndOfStream, es) \<Rightarrow> Returns None (w\<lparr>cn_in := es, cn_state := CONNECTION_CLOSED\<rparr>)
      | (Error, es) \<Rightarrow> Returns None (w\<lparr>cn_in := es, cn_state := CONNECTION_FAILURE\<rparr>)
      | (Waiting, es) \<Rightarrow> Blocks (w\<lparr>cn_in := es\<rparr>)
      | (Overrun, es) \<Rightarrow> Undefined OutOfBounds)"

text \<open>\<open>receiveMsg\<close>; \<open>msg_buff.assign(h.msg_size, 0)\<close> throws when the string is too long.\<close>

definition receiveMsg :: "nat \<Rightarrow> (connection, (header \<times> string) option) cpp" where
  "receiveMsg alloc =
     bindC (receiveBytes getHeaderSize) (\<lambda>hb.
       case hb of
         None \<Rightarrow> retC None
       | Some bs \<Rightarrow>
           (case loadFromBuffer Header_default (Some bs) of
              Inl u \<Rightarrow> undefinedC u
            | Inr (rc, h) \<Rightarrow>
                if rc = -1 then retC None
                else if alloc < unat (hdr_msg_size h) then throwC
                else bindC (receiveBytes (unat (hdr_msg_size h))) (\<lambda>mb.
                  case mb of
                    None \<Rightarrow> retC None
                  | Some m \<Rightarrow> retC (Some (h, m)))))"

section \<open>The request handler's half\<close>

record handler_socket =
  hs_in :: "event list"
  hs_accepts :: "int list"
  hs_written :: string
  hs_open :: bool

definition handlerReceiveBytes :: "nat \<Rightarrow> (handler_socket, string option) cpp" where
  "handlerReceiveBytes n w =
     (case receive_loop n [] (hs_in w) of
        (Full bs, es) \<Rightarrow> Returns (Some bs) (w\<lparr>hs_in := es\<rparr>)
      | (EndOfStream, es) \<Rightarrow> Returns None (w\<lparr>hs_in := es\<rparr>)
      | (Error, es) \<Rightarrow> Returns None (w\<lparr>hs_in := es\<rparr>)
      | (Waiting, es) \<Rightarrow> Blocks (w\<lparr>hs_in := es\<rparr>)
      | (Overrun, es) \<Rightarrow> Undefined OutOfBounds)"

definition handlerReceiveMsg :: "nat \<Rightarrow> (handler_socket, (header \<times> string) option) cpp" where
  "handlerReceiveMsg alloc =
     bindC (handlerReceiveBytes getHeaderSize) (\<lambda>hb.
       case hb of
         None \<Rightarrow> retC None
       | Some bs \<Rightarrow>
           (case loadFromBuffer Header_default (Some bs) of
              Inl u \<Rightarrow> undefinedC u
            | Inr (rc, h) \<Rightarrow>
                if rc = -1 then seqC (modifyC (\<lambda>w. w\<lparr>hs_open := False\<rparr>)) (retC None)
                else if alloc < unat (hdr_msg_size h) then throwC
                else bindC (handlerReceiveBytes (unat (hdr_msg_size h))) (\<lambda>mb.
                  case mb of
                    None \<Rightarrow> retC None
                  | Some m \<Rightarrow> retC (Some (h, m)))))"

section \<open>Sending\<close>

datatype send_end = Sent | Refused | Broken | NeverReady

text \<open>\<open>send\<close> accepts some of the bytes it is given, at least one.\<close>

fun send_loop :: "string \<Rightarrow> int list \<Rightarrow> string \<Rightarrow> send_end \<times> string \<times> int list" where
  "send_loop [] as out = (Sent, out, as)"
| "send_loop bs [] out = (NeverReady, out, [])"
| "send_loop bs (a # as) out =
     (if a = 0 then (Refused, out, as)
      else if a < 0 then (Broken, out, as)
      else send_loop (drop (nat a) bs) as (out @ take (nat a) bs))"

definition connSendMessage :: "message \<Rightarrow> (connection, bool) cpp" where
  "connSendMessage m w =
     (if cn_state w \<noteq> CONNECTED then Returns False w
      else case getSealedMessagePtr (SealedMessage m (cn_session w)) of
        Inl u \<Rightarrow> Undefined u
      | Inr bs \<Rightarrow>
          (case send_loop bs (cn_accepts w) (cn_written w) of
             (Sent, out, as) \<Rightarrow> Returns True (w\<lparr>cn_written := out, cn_accepts := as\<rparr>)
           | (Refused, out, as) \<Rightarrow>
               Returns False (w\<lparr>cn_written := out, cn_accepts := as, cn_state := CONNECTION_CLOSED\<rparr>)
           | (Broken, out, as) \<Rightarrow>
               Returns False (w\<lparr>cn_written := out, cn_accepts := as, cn_state := CONNECTION_FAILURE\<rparr>)
           | (NeverReady, out, as) \<Rightarrow> Blocks (w\<lparr>cn_written := out, cn_accepts := as\<rparr>)))"

definition handlerSendMessage :: "message \<Rightarrow> (handler_socket, bool) cpp" where
  "handlerSendMessage m w =
     (case getSealedMessagePtr (SealedMessage m (-1)) of
        Inl u \<Rightarrow> Undefined u
      | Inr bs \<Rightarrow>
          if \<not> hs_open w then Returns False w
          else (case send_loop bs (hs_accepts w) (hs_written w) of
                  (Sent, out, as) \<Rightarrow> Returns True (w\<lparr>hs_written := out, hs_accepts := as\<rparr>)
                | (NeverReady, out, as) \<Rightarrow> Blocks (w\<lparr>hs_written := out, hs_accepts := as\<rparr>)
                | (_, out, as) \<Rightarrow> Returns False (w\<lparr>hs_written := out, hs_accepts := as\<rparr>)))"

section \<open>Timeouts\<close>

text \<open>
  \<open>setTimout\<close>: the \<open>timeval\<close> that becomes the receive and the send timeout of the socket; a
  \<open>recv\<close> that times out is a \<open>RecvError\<close>.
\<close>

record timeval =
  tv_sec :: int
  tv_usec :: int

definition setTimout :: "int \<Rightarrow> timeval" where
  "setTimout ms = \<lparr>tv_sec = ms sdiv 1000, tv_usec = (ms smod 1000) * 1000\<rparr>"

lemma setTimout_exact:
  assumes "0 \<le> ms"
  shows "tv_sec (setTimout ms) * 1000000 + tv_usec (setTimout ms) = ms * 1000"
    and "0 \<le> tv_sec (setTimout ms)" "0 \<le> tv_usec (setTimout ms)" "tv_usec (setTimout ms) < 1000000"
proof -
  have "ms sdiv 1000 = ms div 1000" "ms smod 1000 = ms mod 1000"
    using assms by (cases "ms = 0"; simp add: signed_divide_int_def signed_modulo_int_def sgn_if)+
  then have timeval: "tv_sec (setTimout ms) = ms div 1000" "tv_usec (setTimout ms) = ms mod 1000 * 1000"
    by (simp_all add: setTimout_def)
  have "ms div 1000 * 1000000 + ms mod 1000 * 1000 = ms * 1000" by presburger
  then show "tv_sec (setTimout ms) * 1000000 + tv_usec (setTimout ms) = ms * 1000" by (simp add: timeval)
  show "0 \<le> tv_sec (setTimout ms)" using assms by (simp add: timeval pos_imp_zdiv_nonneg_iff)
  show "0 \<le> tv_usec (setTimout ms)" "tv_usec (setTimout ms) < 1000000" by (simp_all add: timeval)
qed

section \<open>Receiving what was sent\<close>

text \<open>The bytes that a list of events still delivers.\<close>

fun stream_bytes :: "event list \<Rightarrow> string" where
  "stream_bytes (Chunk c # es) = c @ stream_bytes es"
| "stream_bytes _ = []"

lemma recv_stream: "recv n es = (Got bs, es') \<Longrightarrow> stream_bytes es = bs @ stream_bytes es'"
  by (induction n es rule: recv.induct) (auto split: if_splits)

text \<open>Whatever the chunks are, bytes that are received are the next bytes of the stream.\<close>

lemma receive_loop_prefix:
  "receive_loop n got es = (Full bs, es') \<Longrightarrow> length got \<le> n \<Longrightarrow>
    length bs = n \<and> got @ stream_bytes es = bs @ stream_bytes es'"
proof (induction n got es rule: receive_loop.induct)
  case (1 n got es)
  show ?case
  proof (cases "length got < n")
    case False
    with 1 show ?thesis by (simp add: receive_loop.simps [of n got es])
  next
    case True
    obtain r es1 where r: "recv n es = (r, es1)" by (cases "recv n es")
    with True "1.prems"(1) obtain bs1 where bs1: "r = Got bs1"
      by (cases r) (auto simp: receive_loop.simps [of n got es])
    with True r "1.prems"(1) have fits: "length got + length bs1 \<le> n"
      "receive_loop n (got @ bs1) es1 = (Full bs, es')"
      by (auto simp: receive_loop.simps [of n got es] split: if_splits)
    with "1.IH" [OF _ r [symmetric] bs1] True recv_stream [of n es bs1 es1] r bs1 show ?thesis by simp
  qed
qed

lemma receive_loop_chunk:
  assumes "length c = n" "0 < n \<or> c = []"
  shows "receive_loop n [] (Chunk (c @ rest) # es) =
    (Full c, if n = 0 then Chunk (c @ rest) # es else if rest = [] then es else Chunk rest # es)"
proof (cases "n = 0")
  case True
  with assms show ?thesis by (simp add: receive_loop.simps)
next
  case False
  then have "c \<noteq> []" using assms by auto
  with False assms show ?thesis
    by (simp add: receive_loop.simps [of n "[]"] receive_loop.simps [of n c])
qed

text \<open>A second piece that reaches beyond the buffer is written behind its end.\<close>

lemma receive_overrun:
  assumes "0 < length a" "length a < n" "n < length a + length b"
  shows "fst (receive_loop n [] (Chunk a # Chunk b # es)) = Overrun"
proof -
  have "a \<noteq> []" "b \<noteq> []" using assms by auto
  with assms show ?thesis
    by (simp add: receive_loop.simps [of n "[]"] receive_loop.simps [of n a] min_def)
qed

text \<open>A message that arrives in one piece is received, whatever follows it.\<close>

lemma receiveMsg_sealed:
  assumes "cn_in w = Chunk (sealed_bytes m sid @ rest) # es" "length m \<le> MAX_MESSAGE" "length m \<le> alloc"
  shows "\<exists>es'. receiveMsg alloc w = Returns (Some (Header (int (length m)) sid, m)) (w\<lparr>cn_in := es'\<rparr>) \<and>
    stream_bytes es' = rest @ stream_bytes es"
proof -
  let ?h = "take getHeaderSize (sealed_bytes m sid)"
  have split: "sealed_bytes m sid = ?h @ m"
    by (simp add: sealed_bytes_def getHeaderSize_def)
  have h: "length ?h = getHeaderSize" "0 < getHeaderSize" by (simp_all, simp add: getHeaderSize_def)
  have load: "loadFromBuffer Header_default (Some ?h) = Inr (0, Header (int (length m)) sid)"
    by (rule load_sealed_bytes) simp
  have size: "unat (hdr_msg_size (Header (int (length m)) sid)) = length m"
    using MAX_MESSAGE_word [OF assms(2)] by (simp add: Header_def)
  let ?es1 = "if m @ rest = [] then es else Chunk (m @ rest) # es"
  have first: "receiveBytes getHeaderSize w = Returns (Some ?h) (w\<lparr>cn_in := ?es1\<rparr>)"
  proof -
    have "cn_in w = Chunk (?h @ m @ rest) # es"
      using assms(1) split by (metis append_assoc)
    moreover have "receive_loop getHeaderSize [] (Chunk (?h @ m @ rest) # es) = (Full ?h, ?es1)"
      using receive_loop_chunk [OF h(1), of "m @ rest" es] h(2) by simp
    ultimately show ?thesis by (simp only: receiveBytes_def prod.case receive_end.case)
  qed
  obtain es' where second: "receiveBytes (length m) (w\<lparr>cn_in := ?es1\<rparr>) = Returns (Some m) (w\<lparr>cn_in := es'\<rparr>)"
    "stream_bytes es' = rest @ stream_bytes es"
  proof (cases "m = []")
    case True
    then show ?thesis by (intro that [of ?es1]) (auto simp: receiveBytes_def receive_loop.simps)
  next
    case False
    then show ?thesis
      using receive_loop_chunk [of m "length m" rest es]
      by (intro that [of "if rest = [] then es else Chunk rest # es"]) (auto simp: receiveBytes_def)
  qed
  have "receiveMsg alloc w = Returns (Some (Header (int (length m)) sid, m)) (w\<lparr>cn_in := es'\<rparr>)"
    using first second(1) load size assms(3) by (simp add: receiveMsg_def cpp_simps)
  with second(2) show ?thesis by blast
qed

text \<open>The chunk that makes the header of a message overrun its buffer: no longer than a message.\<close>

lemma receiveMsg_overrun:
  assumes "cn_in w = Chunk (take k (sealed_bytes m sid)) # Chunk (drop k (sealed_bytes m sid)) # es"
    and "0 < k" "k < getHeaderSize" "m \<noteq> []"
  shows "receiveMsg alloc w = Undefined OutOfBounds"
proof -
  have "fst (receive_loop getHeaderSize [] (cn_in w)) = Overrun"
    unfolding assms(1) by (rule receive_overrun) (use assms(2-4) in \<open>auto simp: min_def\<close>)
  then show ?thesis
    by (cases "receive_loop getHeaderSize [] (cn_in w)") (simp add: receiveMsg_def receiveBytes_def bindC_def)
qed

text \<open>A header with a size that cannot be allocated makes the receiver throw.\<close>

lemma oversized_header_throws:
  assumes "cn_in w = Chunk (MAGIC @ word_chars n @ word_chars sid) # es" "alloc < unat n"
  shows "\<exists>v. receiveMsg alloc w = Throws v"
proof -
  let ?h = "MAGIC @ word_chars n @ word_chars sid"
  have h: "length ?h = getHeaderSize" "0 < getHeaderSize" by (simp_all add: getHeaderSize_def)
  have "loadFromBuffer Header_default (Some ?h) = Inr (0, \<lparr>hdr_magic = MAGIC, hdr_msg_size = n, hdr_session_id = sid\<rparr>)"
    by (simp add: loadFromBuffer_def getHeaderSize_def Header_default_def)
  moreover have "receiveBytes getHeaderSize w = Returns (Some ?h) (w\<lparr>cn_in := es\<rparr>)"
    using receive_loop_chunk [OF h(1), of "[]" es] h(2) assms(1) by (simp add: receiveBytes_def)
  ultimately show ?thesis using assms(2) by (simp add: receiveMsg_def cpp_simps)
qed

section \<open>Sending\<close>

lemma send_loop_step:
  "bs \<noteq> [] \<Longrightarrow> 0 < a \<Longrightarrow> send_loop bs (a # as) out = send_loop (drop (nat a) bs) as (out @ take (nat a) bs)"
  by (cases bs) (simp_all del: drop_Suc_Cons take_Suc_Cons)

lemma send_loop_Sent:
  "send_loop bs as out = (Sent, out', as') \<Longrightarrow> out' = out @ bs"
proof (induction bs as out rule: send_loop.induct)
  case (3 b bs a as out)
  then show ?case by (auto split: if_splits simp del: drop_Suc_Cons take_Suc_Cons)
qed auto

lemma send_loop_prefix:
  "send_loop bs as out = (r, out', as') \<Longrightarrow> \<exists>k. out' = out @ take k bs"
proof (induction bs as out rule: send_loop.induct)
  case (1 as out)
  then show ?case by auto
next
  case (2 b bs out)
  then show ?case by (auto intro: exI [of _ 0])
next
  case (3 b bs a as out)
  show ?case
  proof (cases "0 < a")
    case False
    with "3.prems" show ?thesis by (auto intro!: exI [of _ 0] split: if_splits)
  next
    case True
    with 3 obtain k where "out' = (out @ take (nat a) (b # bs)) @ take k (drop (nat a) (b # bs))"
      by (auto split: if_splits)
    then have "out' = out @ take (nat a + k) (b # bs)" by (simp only: append_assoc take_add)
    then show ?thesis ..
  qed
qed

lemma sendMessage_writes:
  assumes "connSendMessage m w = Returns True v" "length m \<le> MAX_MESSAGE"
  shows "cn_written v = cn_written w @ sealed_bytes m (cn_session w) \<and> cn_state v = CONNECTED"
  using assms send_loop_Sent
  by (auto simp: connSendMessage_def sealed_ptr split: if_splits prod.splits send_end.splits)

end
