(* ===== verification/Network_Properties.thy ===== *)
theory Network_Properties
  imports Connection Digest Server_Config
begin

text \<open>
  The properties of the formats: sealed messages and their transport, digests, and the
  configuration file.
\<close>

section \<open>Messages\<close>

text \<open>
  C31. Sealing and opening a message is the identity.  For every message that fits, the
  sealed buffer has the announced size, and reading it back gives the message and its header.
\<close>

theorem sealed_message_roundtrip:
  assumes "length m \<le> MAX_MESSAGE"
  shows "\<exists>b. getSealedMessagePtr (SealedMessage m sid) = Inr b \<and>
    getSealedMessageSize (SealedMessage m sid) = Inr (int (length b)) \<and>
    getFromBuffer b = Inr (SealedMessage m sid)"
  by (rule seal_roundtrip [OF assms])

theorem sealed_message_roundtrip_witness:
  "\<exists>b. getSealedMessagePtr (SealedMessage ''hi'' 7) = Inr b \<and> getFromBuffer b = Inr (SealedMessage ''hi'' 7)"
  using sealed_message_roundtrip [of "''hi''" 7] by (auto simp: MAX_MESSAGE_def getHeaderSize_def)

text \<open>
  C32. A message that arrives in one piece is received with its header, and what follows it
  in the stream is left there.
\<close>

theorem message_received:
  assumes "cn_in w = Chunk (sealed_bytes m sid @ rest) # es" "length m \<le> MAX_MESSAGE" "length m \<le> alloc"
  shows "\<exists>es'. receiveMsg alloc w = Returns (Some (Header (int (length m)) sid, m)) (w\<lparr>cn_in := es'\<rparr>) \<and>
    stream_bytes es' = rest @ stream_bytes es"
  by (rule receiveMsg_sealed [OF assms])

definition ex_connection :: "event list \<Rightarrow> int list \<Rightarrow> connection" where
  "ex_connection es accepts = \<lparr>cn_in = es, cn_accepts = accepts, cn_written = [], cn_state = CONNECTED, cn_session = 7\<rparr>"

theorem message_received_witness:
  "\<exists>es. receiveMsg 100 (ex_connection [Chunk (sealed_bytes ''hi'' 7 @ ''next'')] []) =
    Returns (Some (Header 2 7, ''hi'')) (ex_connection es []) \<and> stream_bytes es = ''next''"
  using message_received [of "ex_connection [Chunk (sealed_bytes ''hi'' 7 @ ''next'')] []" "''hi''" 7 "''next''" "[]" 100]
  by (auto simp: ex_connection_def MAX_MESSAGE_def getHeaderSize_def)

text \<open>
  However the bytes are cut into pieces, what the loop of \<open>receiveBytes\<close> gives are the
  first \<open>n\<close> bytes of the stream, and the rest is left in it.
\<close>

theorem received_is_prefix:
  assumes "receive_loop n [] es = (Full bs, es')"
  shows "length bs = n \<and> stream_bytes es = bs @ stream_bytes es'"
  using receive_loop_prefix [OF assms] by simp

theorem received_is_prefix_witness:
  "\<exists>bs es. receive_loop 3 [] [Chunk ''a'', Chunk ''bc'', Chunk ''d''] = (Full bs, es) \<and>
    length bs = 3 \<and> stream_bytes es = ''d''"
proof -
  have run: "receive_loop 3 [] [Chunk ''a'', Chunk ''bc'', Chunk ''d''] = (Full ''abc'', [Chunk ''d''])"
    by (simp add: receive_loop.simps)
  from received_is_prefix [OF run] run show ?thesis by simp
qed

text \<open>
  C33. A message whose header arrives in two pieces, the second with the rest of the
  message, is written beyond the end of the buffer: each call of \<open>recv\<close> asks for the whole
  size again.
\<close>

theorem split_header_overruns:
  assumes "cn_in w = Chunk (take k (sealed_bytes m sid)) # Chunk (drop k (sealed_bytes m sid)) # es"
    and "0 < k" "k < getHeaderSize" "m \<noteq> []"
  shows "receiveMsg alloc w = Undefined OutOfBounds"
  by (rule receiveMsg_overrun [OF assms])

theorem split_header_overruns_witness:
  "receiveMsg 100 (ex_connection [Chunk (take 5 (sealed_bytes ''hi'' 7)), Chunk (drop 5 (sealed_bytes ''hi'' 7))] []) =
    Undefined OutOfBounds"
  by (rule split_header_overruns [of _ 5 "''hi''" 7 "[]"]) (simp_all add: ex_connection_def getHeaderSize_def)

text \<open>
  The size in a header is not checked: a header that announces more than can be
  allocated makes the receiver throw.
\<close>

theorem oversized_message_throws:
  assumes "cn_in w = Chunk (MAGIC @ word_chars n @ word_chars sid) # es" "alloc < unat n"
  shows "\<exists>v. receiveMsg alloc w = Throws v"
  by (rule oversized_header_throws [OF assms])

theorem oversized_message_throws_witness:
  "\<exists>v. receiveMsg 100 (ex_connection [Chunk (MAGIC @ word_chars 101 @ word_chars 7)] []) = Throws v"
  by (rule oversized_message_throws [of _ 101 7 "[]"]) (simp_all add: ex_connection_def)

text \<open>
  C34. When \<open>sendMessage\<close> reports success, exactly the bytes of the sealed message with the
  session of the connection were written, however the socket split them.
\<close>

theorem sent_is_written:
  assumes "connSendMessage m w = Returns True v" "length m \<le> MAX_MESSAGE"
  shows "cn_written v = cn_written w @ sealed_bytes m (cn_session w) \<and> cn_state v = CONNECTED"
  by (rule sendMessage_writes [OF assms])

theorem sent_is_written_witness:
  "\<exists>v. connSendMessage [] (ex_connection [] [20, 14]) = Returns True v \<and> cn_written v = sealed_bytes [] 7"
proof -
  let ?b = "sealed_bytes [] 7"
  have b: "getSealedMessagePtr (SealedMessage [] 7) = Inr ?b" by (rule sealed_ptr) simp
  have "take 20 ?b @ take 14 (drop 20 ?b) = ?b" "drop 14 (drop 20 ?b) = []" "drop 20 ?b \<noteq> []" "?b \<noteq> []"
    by (simp_all flip: take_add length_0_conv add: getHeaderSize_def)
  then have "send_loop ?b [20, 14] [] = (Sent, ?b, [])"
    by (simp add: send_loop_step del: drop_drop)
  then have "\<exists>v. connSendMessage [] (ex_connection [] [20, 14]) = Returns True v"
    by (simp add: connSendMessage_def ex_connection_def b)
  then obtain v where v: "connSendMessage [] (ex_connection [] [20, 14]) = Returns True v" by blast
  from sent_is_written [OF v] v show ?thesis by (simp add: ex_connection_def)
qed

section \<open>Digests\<close>

text \<open>
  C36. Files that differ only in trailing zero bytes have the same digest, whatever the hash
  function is: the whole buffer is hashed, not the bytes that were read.
\<close>

theorem trailing_zeros_collide:
  assumes "c \<noteq> []" "length c + k \<le> CHUNK_SIZE"
    and "fs_lookup d p = Some (File c)"
    and "fs_lookup d q = Some (File (c @ replicate k (CHR 0x00)))"
  shows "getFileDigest xxh64 d p = getFileDigest xxh64 d q"
  by (rule digest_ignores_trailing_zeros [OF assms])

theorem trailing_zeros_collide_witness:
  "getFileDigest (\<lambda>c. word_of_nat (length c)) [([''a''], File ''x''), ([''b''], File (''x'' @ [CHR 0x00]))] [''a''] =
   getFileDigest (\<lambda>c. word_of_nat (length c)) [([''a''], File ''x''), ([''b''], File (''x'' @ [CHR 0x00]))] [''b'']"
  by (rule trailing_zeros_collide [of "''x''" 1]) (simp_all add: CHUNK_SIZE_def fs_lookup_def sm_find_def)

text \<open>
  The text of a digest has between 8 and 16 characters, and on digests without a byte
  below 16 it determines the digest; such a byte loses its leading zero.
\<close>

theorem digest_text:
  "8 \<le> length (digest_to_string md) \<and> length (digest_to_string md) \<le> 16 \<and>
   (no_small_byte v \<and> no_small_byte w \<and> digest_to_string v = digest_to_string w \<longrightarrow> v = w)"
  using digest_to_string_length digest_to_string_inject by blast

theorem digest_text_witness:
  "\<not> (digest_to_string 0x1122334455667788 = digest_to_string 0x1122334455667789)"
proof -
  have "no_small_byte 0x1122334455667788" "no_small_byte 0x1122334455667789"
    by (simp_all add: no_small_byte_def bytes_of_def)
  with digest_text [of 0 "0x1122334455667788" "0x1122334455667789"] show ?thesis by auto
qed

section \<open>The configuration\<close>

text \<open>
  A line of \<open>other_servers_ip\<close> in the documented format, with or without a comment
  behind it, is read as it was written.
\<close>

theorem server_line_roundtrip:
  assumes "int32 i" "int32 (se_servicePort s)" "int32 (se_adminPort s)" "int32 (se_transactionPort s)"
    and "is_word (se_host s)" "CHR ''#'' \<notin> set (se_host s)" "comment = [] \<or> hd comment = CHR ''#''"
  shows "server_line (print_server i s @ comment) = Inr (i, s)"
  by (rule server_line_print [OF assms])

theorem server_line_roundtrip_witness:
  "server_line (print_server 3 \<lparr>se_host = ''h'', se_adminPort = 1, se_servicePort = 2, se_transactionPort = 4\<rparr> @ ''# c'') =
    Inr (3, \<lparr>se_host = ''h'', se_adminPort = 1, se_servicePort = 2, se_transactionPort = 4\<rparr>)"
  by (rule server_line_roundtrip) (simp_all add: int32_def is_word_def is_space_def)

end
