(* ===== verification/Spec2Isabelle.thy ===== *)
theory Spec2Isabelle
  imports Stalled Sync_Properties System_Properties Store_Properties Client_Properties Transaction_Properties Service_Properties Server_Properties Network_Properties
begin

text \<open>
  fileSyncer keeps the files of its users on a coordinator and a set of replicas.  A client
  (\<open>src/client\<close>) watches a directory and exchanges requests with the coordinator; every
  change of a server's state is a transaction that the coordinator runs with its replicas
  in a two-phase commit (\<open>src/server/transactions\<close>); a server that loses its coordinator
  starts a bully election (\<open>src/server/Election.cpp\<close>).  This library models that code and
  proves what it promises, and where it does not keep a promise, proves that.

  How the code is modelled.  A C++ call is a function from a state to an outcome
  (\<open>Prelude\<close>): it returns a value, throws, blocks, or runs into undefined behaviour of a
  named kind (freed memory, a buffer overrun, an uninitialised pointer, a signed overflow).
  The state is a record that grows by record extension: \<open>world\<close> (the disk, the shared
  \<open>ServerState\<close>, the active \<open>Transaction\<close>), \<open>mgr_world\<close> (the members of the
  \<open>TransactionManager\<close>), and on top of it the socket of a handler (\<open>handler_world\<close>,
  \<open>txn_socket_world\<close>) or the members of the \<open>Server\<close> (\<open>server_world\<close>).  What a call reads
  from outside is a list in its arguments or its state: the votes and results that arrive,
  the outcomes of \<open>send\<close>, the values of \<open>rand\<close>, the chunks that \<open>recv\<close> delivers.  A call
  that waits beyond the end of its list blocks; so the bounds of the loops are the lengths
  of these lists, and a theorem that a call returns says which lists are long enough.
  What is sent is appended to a log.

  The theories and the code.
  \<^item> \<open>Prelude\<close>, \<open>Std_Map\<close>, \<open>Filesystem\<close>: outcomes and their rules (\<open>keeps\<close>, \<open>runs\<close>, \<open>ends\<close>),
    decimal text and bytes, \<open>std::map\<close> as a sorted list with the locale of its lookups, and
    \<open>std::filesystem\<close> on a finite disk.
  \<^item> \<open>Digest\<close> (\<open>common/utils.cpp\<close>), \<open>Wire\<close> (\<open>common/MessageComunication.h\<close>), \<open>Descriptors\<close> and
    \<open>Connection\<close> (\<open>common/Connection.h\<close>, \<open>server/interfaces/RequestHandler.h\<close>): digests, the
    format of a message, the life of a connection object on the table of file descriptors
    (constructor, copy, move, destructor, and a growing \<open>std::vector\<close> of them), and the
    transport of a message over a stream.  The hash function is the parameter \<open>env_xxh64\<close>.
  \<^item> \<open>Locks\<close> (\<open>common/RwLock.h\<close>): the shared lock and its condition variable as a step
    relation over the threads that hold it, wait or were woken.  \<open>Listener\<close>
    (\<open>server/interfaces/Listener.h\<close>): the accept loop and \<open>stop\<close>.
  \<^item> \<open>Server_State\<close> (\<open>server/ServerState.cpp\<close>): the tables of users, sessions and files, the
    loading of the tables from the disk, and the invariants \<open>state_inv\<close> and \<open>state_wf\<close>.
  \<^item> \<open>Transaction\<close>, \<open>Transaction_Message\<close> (\<open>transactions/*Transaction.cpp\<close>): the base class
    and the five kinds, with the staged files, and their messages.  \<open>Transaction_Disk\<close> and
    \<open>Transaction_Run\<close> show that \<open>run\<close>, \<open>commit\<close> and \<open>rollback\<close> take the disk from one
    abstract view to the next (\<open>staged_view\<close>, \<open>prepared_view\<close>, \<open>committed_view\<close>), and that
    the effect on the state is the function \<open>txn_effect\<close>.  \<open>Transaction_Life\<close> orders the
    status of a transaction and shows that no call takes it back.  \<open>Storage\<close> relates disk and
    state: the disk mirrors the state (\<open>mirrors\<close>), and a commit keeps that.  \<open>Restart\<close>:
    loading a mirrored disk gives the state back.  \<open>Crash\<close>: what a server finds that stopped
    between preparing and deciding.
  \<^item> \<open>Transaction_Manager\<close> (\<open>transactions/TransactionManager.cpp\<close>) with \<open>Manager_Correct\<close>,
    \<open>Manager_Faults\<close> and \<open>Manager_Invariant\<close>: the outcome of \<open>doTransaction\<close> and of
    \<open>receiveNewTransaction\<close> for every list of votes and results, and the invariant
    \<open>server_ok\<close> of a server between transactions.  \<open>Two_Phase\<close>, \<open>Two_Phase_System\<close> and
    \<open>Two_Phase_Progress\<close>: the coordinator and its replicas as a step relation \<open>sys_step\<close>
    whose steps are these operations, with votes and results in any order.  \<open>Stalled\<close>: the
    next transaction when a replica of the active set casts no vote.
    \<open>Abstract_Store\<close>: the abstract store of users and files, the locale \<open>atomic_service\<close> of
    its clients, and the simulation by which coordinator and replicas refine it.  \<open>Failover\<close>:
    a change of coordinator.  \<open>Transaction_Handler\<close>
    (\<open>transactions/TransactionRequestHandler.cpp\<close>): the messages of the protocol.
  \<^item> \<open>Service_Handler\<close> (\<open>service/ServiceRequestHandler.cpp\<close>): one function per request.
    \<open>Service_Correct\<close> and \<open>Service_Replies\<close> verify them against the contract of a
    transaction service (a locale), which the manager is shown to provide.  \<open>Races\<close>: two
    logins at once.
  \<^item> \<open>Server_Config\<close>, \<open>Server_Process\<close> (\<open>server/Server.cpp\<close>, \<open>Replica.cpp\<close>, \<open>Election.cpp\<close>,
    \<open>admin/AdminRequestHandler.cpp\<close>) with \<open>Server_Correct\<close> and \<open>Election_Correct\<close>: the
    configuration, heartbeats, elections, and the loop of a server.  \<open>Server_Boot\<close>
    (\<open>server/main.cpp\<close>): constructor, start, stop, \<open>main\<close>; a server starts consistent.
  \<^item> \<open>Client\<close>, \<open>Client_Main\<close>, \<open>Client_Correct\<close> (\<open>client/mainClient.cpp\<close>,
    \<open>ClientConnection.cpp\<close>): the command line with its buffers, \<open>main\<close>, the commands, the
    watcher and the thread of updates, alone and against the server.
  \<^item> \<open>Sync_System\<close>, \<open>Sync_Correct\<close>, \<open>Sync_Edit\<close>: the program as a whole.  A client follows its
    subscription while the coordinator serves any requests of others, in any interleaving of
    whole requests, turns of the subscription and handled messages; the invariant
    \<open>sync_inv\<close> gives that a client that has caught up agrees with the server on all that
    changed since it subscribed.
  \<^item> \<open>Examples\<close>: a small installation, at which the properties are applied.  The properties
    are in \<open>Transaction_Properties\<close>, \<open>Store_Properties\<close>, \<open>Service_Properties\<close>,
    \<open>Server_Properties\<close>, \<open>Network_Properties\<close>, \<open>Client_Properties\<close>, \<open>System_Properties\<close>,
    \<open>Sync_Properties\<close>, and below, for the protocol of the servers.

  Bounds.  Integers of the code are \<open>int\<close> values; where an \<open>int\<close> of the code can overflow the
  model checks for it or narrows with \<open>to_int32\<close>, and the 64-bit fields of a header are
  words.  \<open>CHUNK_SIZE\<close> is the 2 MB buffer of the digest, \<open>MAX_MESSAGE\<close> the longest message
  whose sealed size is an \<open>int\<close>, and \<open>alloc\<close> stands for the largest string that can be
  allocated.

  Not modelled.  Outside \<open>Locks\<close>, \<open>Races\<close> and the step relations, a handler runs from one
  point where it waits to the next without being interrupted: it sees the shared state
  between transactions, as the lock guarantees.  In \<open>sendResult\<close> every active replica accepts
  the connection, and no other thread opens or closes descriptors meanwhile.  The
  acknowledgements that only decide what is printed, the sleeps, what is printed, and the
  names of transactions and listeners are left out.  The classes that the build generates
  from \<open>proto/message.proto\<close> are represented by records with their fields; parsing them is not
  modelled.
\<close>

section \<open>The two-phase commit\<close>

text \<open>
  C4. Agreement.  In every state that the coordinator and its replicas reach, by votes and
  results delivered in any order, a replica that has finished the transaction finished it
  the way the coordinator did, and if both held the same shared state before, they hold the
  same shared state afterwards.
\<close>

theorem two_phase_agreement:
  assumes "system_start en c k S0" "reachable en c k S0 S"
    and "s_rphase S i = RDone b"
    and "w_shared (s_rep S0 i) = w_shared (s_coord S0)" "env_xxh64 (en i) = env_xxh64 (en c)"
  shows "s_cphase S = CDone b \<and> w_shared (s_rep S i) = w_shared (s_coord S)"
proof -
  have "s_cphase S = CDone b" using replica_follows [OF assms(1-3)] by simp
  with replicas_agree [OF assms(1,2) _ assms(3-5)] show ?thesis by blast
qed

theorem two_phase_agreement_witness:
  "\<exists>S b. reachable (\<lambda>_. ex_env) 1 ex_user ex_sys S \<and> s_rphase S 2 = RDone b \<and>
     s_cphase S = CDone b \<and> w_shared (s_rep S 2) = w_shared (s_coord S)"
proof -
  obtain S b where S: "reachable (\<lambda>_. ex_env) 1 ex_user ex_sys S" "s_rphase S 2 = RDone b"
    using can_complete [OF ex_start ex_answer reachable.refl] by auto
  from two_phase_agreement [OF ex_start S] S show ?thesis by auto
qed

text \<open>
  C5. The decision is unanimity.  The coordinator commits exactly when it and every replica
  that was active at the start accept the transaction on their own state; a commit leaves
  the effect of the transaction on its state and its disk, a rollback leaves both as they
  were.
\<close>

theorem decision_is_unanimity:
  assumes "system_start en c k S0" "reachable en c k S0 S" "s_cphase S = CDone b"
  shows "b = (accepts (en c) k (the_tid S0) (s_coord S0) \<and>
      (\<forall>i \<in> set (getActiveServers (s_coord S0)). accepts (en i) k (the_tid S0) (s_rep S0 i))) \<and>
    (if b then txn_effect (en c) (the_tid S0) k (w_shared (s_coord S0)) = Some (w_shared (s_coord S)) \<and>
       fs_lookup (w_disk (s_coord S)) = committed_view (en c) k (the_tid S0) (fs_lookup (w_disk (s_coord S0)))
     else w_shared (s_coord S) = w_shared (s_coord S0) \<and> w_disk (s_coord S) = w_disk (s_coord S0))"
proof -
  have b: "b = (accepts (en c) k (the_tid S0) (s_coord S0) \<and>
      (\<forall>i \<in> set (getActiveServers (s_coord S0)). accepts (en i) k (the_tid S0) (s_rep S0 i)))"
    using commit_unanimous [OF assms] by (simp add: all_yes_def coordinator_yes_def says_yes_def members_def)
  with coordinator_finished [OF assms] show ?thesis
    by (cases "txn_effect (en c) (the_tid S0) k (w_shared (s_coord S0))") (auto simp: finished_def accepts_def)
qed

theorem decision_is_unanimity_witness:
  "\<exists>S. reachable (\<lambda>_. ex_env) 1 ex_user ex_sys S \<and> s_cphase S = CDone True \<and>
    txn_effect ex_env 3 ex_user ex_state = Some (w_shared (s_coord S))"
proof -
  obtain S b where S: "reachable (\<lambda>_. ex_env) 1 ex_user ex_sys S" "s_cphase S = CDone b"
    using can_complete [OF ex_start ex_answer reachable.refl] by blast
  from decision_is_unanimity [OF ex_start S] have "b"
    by (simp add: accepts_def ex_accepted)
  with decision_is_unanimity [OF ex_start S] S show ?thesis by auto
qed

text \<open>
  C6. Completion.  While no server fails, the protocol cannot get stuck before the replicas
  that the result reaches are done, and with at most two replicas these are all of them: if
  every server accepts the transaction, or the transaction is of a kind that is refused
  cleanly, then from every reachable state there is a continuation in which the coordinator
  and these replicas finish with one result.
\<close>

theorem two_phase_completes:
  assumes "system_start en c k S0" "all_answer en c k S0" "reachable en c k S0 S"
  shows "\<exists>T b. reachable en c k S T \<and> s_cphase T = CDone b \<and>
    (\<forall>i \<in> set (reached (getActiveServers (s_coord S0))). s_rphase T i = RDone b) \<and>
    (length (getActiveServers (s_coord S0)) \<le> 2 \<longrightarrow>
       (\<forall>i \<in> set (getActiveServers (s_coord S0)). s_rphase T i = RDone b))"
  using can_complete [OF assms] by (auto simp: heard_def reached_two)

theorem two_phase_completes_witness:
  "\<exists>T b. reachable (\<lambda>_. ex_env) 1 ex_user ex_sys T \<and> s_cphase T = CDone b \<and> s_rphase T 2 = RDone b"
  using two_phase_completes [OF ex_start ex_answer reachable.refl] by auto





end
